theory Spec2Isabelle
  imports Complex_Main "HOL-Library.Word" "HOL-Library.List_Lexorder"
begin

section \<open>JavaScript values\<close>

text \<open>
  A JavaScript string is a sequence of UTF-16 code units. String literals of the
  source are ASCII; \<open>utf16\<close> embeds them unit by unit.
\<close>

type_synonym jsstring = "16 word list"

definition utf16 :: "string \<Rightarrow> jsstring" where
  "utf16 s = map of_char s"

text \<open>
  Numbers are IEEE doubles in the source. A finite one is modelled by the real
  number it denotes exactly (the sign of zero is not kept); the three non-finite
  ones are kept apart because \<open>Number.isFinite\<close> tells them from the rest.
  Arithmetic on them rounds, see \<open>roundToDouble\<close>.
\<close>

datatype jsnumber = Finite real | PosInfinity | NegInfinity | NaN

text \<open>
  The values a parsed log line or an engine message is made of. An object is the
  list of its own properties, each key once; a property that is absent reads as
  \<open>undefined\<close>, which is \<open>None\<close> in \<open>getProp\<close>; \<open>get\<close> reads a property named
  by a literal of the source. Properties inherited from \<open>Object.prototype\<close> are
  outside the model.
\<close>

datatype json =
    JNull
  | JBool bool
  | JNum jsnumber
  | JStr jsstring
  | JArr "json list"
  | JObj "(jsstring \<times> json) list"

type_synonym jsobject = "(jsstring \<times> json) list"

definition getProp :: "jsobject \<Rightarrow> jsstring \<Rightarrow> json option" where
  "getProp rcd key = map_of rcd key"

definition get :: "jsobject \<Rightarrow> string \<Rightarrow> json option" where
  "get rcd key = getProp rcd (utf16 key)"

text \<open>Truthiness of a value that may be \<open>undefined\<close>, as \<open>if (v)\<close> and \<open>Boolean(v)\<close> test it.\<close>

fun truthy :: "json option \<Rightarrow> bool" where
  "truthy None = False"
| "truthy (Some JNull) = False"
| "truthy (Some (JBool b)) = b"
| "truthy (Some (JNum (Finite r))) = (r \<noteq> 0)"
| "truthy (Some (JNum NaN)) = False"
| "truthy (Some (JNum _)) = True"
| "truthy (Some (JStr s)) = (s \<noteq> [])"
| "truthy (Some (JArr _)) = True"
| "truthy (Some (JObj _)) = True"

text \<open>
  Modelled from the spec: \<open>asRecordOrNull\<close> is imported from \<open>shared.ts\<close>, which is not
  among the sources. It is the null-returning counterpart of \<open>asRecord\<close> of
  \<open>commands.ts\<close>: the value itself when it is an object that is neither null nor an
  array, null otherwise.
\<close>

fun asRecordOrNull :: "json option \<Rightarrow> jsobject option" where
  "asRecordOrNull (Some (JObj rcd)) = Some rcd"
| "asRecordOrNull _ = None"


section \<open>Double arithmetic\<close>

text \<open>
  A finite double is \<open>m * 2 ^ q\<close> for integers \<open>\<bar>m\<bar> < 2 ^ 53\<close> and
  \<open>- 1074 \<le> q \<le> 971\<close>. The result of an arithmetic operation is the exact result
  rounded to the nearest double, ties to the even significand; a rounded magnitude
  of \<open>2 ^ 1024\<close> or more is an infinity.

  \<open>roundHalfEven\<close> rounds a non-negative real to the nearest integer, ties to even.
  \<open>quantum\<close> scales the magnitude, given in units of \<open>2 ^ - 1074\<close>, down by halves
  until it is below \<open>2 ^ 53\<close>, and returns it with the exponent of its unit; the
  fuel covers every exponent up to \<open>1026\<close>, beyond which the result is an infinity
  anyway.
\<close>

definition roundHalfEven :: "real \<Rightarrow> int" where
  "roundHalfEven y =
     (let f = \<lfloor>y\<rfloor>; d = y - of_int f in
      if d < 1 / 2 then f
      else if d > 1 / 2 then f + 1
      else if even f then f else f + 1)"

fun quantum :: "nat \<Rightarrow> real \<Rightarrow> int \<Rightarrow> real \<times> int" where
  "quantum 0 y q = (y, q)"
| "quantum (Suc fuel) y q = (if y < 2 ^ 53 then (y, q) else quantum fuel (y / 2) (q + 1))"

definition roundToDouble :: "real \<Rightarrow> jsnumber" where
  "roundToDouble x =
     (case quantum 2100 (\<bar>x\<bar> * 2 ^ 1074) (- 1074) of
        (y, q) \<Rightarrow>
          (let r = of_int (roundHalfEven y) * 2 powi q in
           if r \<ge> 2 ^ 1024 then (if x < 0 then NegInfinity else PosInfinity)
           else Finite (if x < 0 then - r else r)))"

text \<open>The binary \<open>-\<close> of the source on two numbers.\<close>

fun jsMinus :: "jsnumber \<Rightarrow> jsnumber \<Rightarrow> jsnumber" where
  "jsMinus (Finite a) (Finite b) = roundToDouble (a - b)"
| "jsMinus NaN _ = NaN"
| "jsMinus _ NaN = NaN"
| "jsMinus PosInfinity PosInfinity = NaN"
| "jsMinus NegInfinity NegInfinity = NaN"
| "jsMinus PosInfinity _ = PosInfinity"
| "jsMinus NegInfinity _ = NegInfinity"
| "jsMinus (Finite a) PosInfinity = NegInfinity"
| "jsMinus (Finite a) NegInfinity = PosInfinity"

text \<open>\<open>Math.max\<close> of two numbers: \<open>NaN\<close> if either is, the larger one otherwise.\<close>

fun mathMax :: "jsnumber \<Rightarrow> jsnumber \<Rightarrow> jsnumber" where
  "mathMax NaN _ = NaN"
| "mathMax _ NaN = NaN"
| "mathMax PosInfinity _ = PosInfinity"
| "mathMax _ PosInfinity = PosInfinity"
| "mathMax NegInfinity b = b"
| "mathMax a NegInfinity = a"
| "mathMax (Finite a) (Finite b) = Finite (max a b)"
section \<open>String operations of the runtime\<close>

text \<open>
  \<open>String.prototype.trim\<close> and the class \<open>\s\<close> of a regular expression remove and
  match the same code units: the white space and line terminator characters of
  ECMAScript.
\<close>

definition isWhiteSpace :: "16 word \<Rightarrow> bool" where
  "isWhiteSpace u \<longleftrightarrow>
     u = 0x0009 \<or> u = 0x000A \<or> u = 0x000B \<or> u = 0x000C \<or> u = 0x000D \<or> u = 0x0020
     \<or> u = 0x00A0 \<or> u = 0x1680 \<or> (0x2000 \<le> u \<and> u \<le> 0x200A)
     \<or> u = 0x2028 \<or> u = 0x2029 \<or> u = 0x202F \<or> u = 0x205F \<or> u = 0x3000 \<or> u = 0xFEFF"

definition trim :: "jsstring \<Rightarrow> jsstring" where
  "trim s = rev (dropWhile isWhiteSpace (rev (dropWhile isWhiteSpace s)))"

text \<open>
  \<open>text.split(/\r?\n/)\<close>: the text is cut at every line feed, and a carriage return
  right before the line feed goes with it. The result is never empty.
\<close>

fun splitLines :: "jsstring \<Rightarrow> jsstring list" where
  "splitLines [] = [[]]"
| "splitLines (c # cs) =
     (if c = 0x000D \<and> cs \<noteq> [] \<and> hd cs = 0x000A then [] # splitLines (tl cs)
      else if c = 0x000A then [] # splitLines cs
      else (case splitLines cs of
              [] \<Rightarrow> [[c]]
            | l # ls \<Rightarrow> (c # l) # ls))"

text \<open>\<open>parts.join(sep)\<close>.\<close>

fun joinWith :: "jsstring \<Rightarrow> jsstring list \<Rightarrow> jsstring" where
  "joinWith sep [] = []"
| "joinWith sep [x] = x"
| "joinWith sep (x # y # ys) = x @ sep @ joinWith sep (y # ys)"

text \<open>
  \<open>Array.from(text)\<close> iterates a string by code points: a high surrogate followed by
  a low surrogate is one element of two code units, every other code unit is an
  element of its own.
\<close>

definition isHighSurrogate :: "16 word \<Rightarrow> bool" where
  "isHighSurrogate u \<longleftrightarrow> 0xD800 \<le> u \<and> u \<le> 0xDBFF"

definition isLowSurrogate :: "16 word \<Rightarrow> bool" where
  "isLowSurrogate u \<longleftrightarrow> 0xDC00 \<le> u \<and> u \<le> 0xDFFF"

fun arrayFrom :: "jsstring \<Rightarrow> jsstring list" where
  "arrayFrom [] = []"
| "arrayFrom [u] = [[u]]"
| "arrayFrom (u # v # rest) =
     (if isHighSurrogate u \<and> isLowSurrogate v then [u, v] # arrayFrom rest
      else [u] # arrayFrom (v # rest))"

section \<open>Permission negotiation (permissions.ts)\<close>

record PermissionRuleValue =
  toolName :: jsstring
  ruleContent :: "jsstring option"

text \<open>
  The engine's \<open>PermissionUpdate\<close>: rule updates (\<open>addRules\<close>, \<open>replaceRules\<close>,
  \<open>removeRules\<close>), \<open>setMode\<close>, and directory updates. The first field of the rule
  and directory variants is the \<open>type\<close> tag, the last of each is the destination.
\<close>

datatype PermissionUpdate =
    RulesUpdate jsstring "PermissionRuleValue list" jsstring jsstring
  | SetModeUpdate jsstring jsstring
  | DirectoriesUpdate jsstring "jsstring list" jsstring

fun destination :: "PermissionUpdate \<Rightarrow> jsstring" where
  "destination (RulesUpdate ty rules behavior dest) = dest"
| "destination (SetModeUpdate mode dest) = dest"
| "destination (DirectoriesUpdate ty dirs dest) = dest"

record PermissionSuggestionsByScope =
  session :: "PermissionUpdate list"
  persistent :: "PermissionUpdate list"

definition SESSION_PERMISSION_DESTINATIONS :: "jsstring set" where
  "SESSION_PERMISSION_DESTINATIONS = {utf16 ''session'', utf16 ''cliArg''}"

definition PERSISTENT_PERMISSION_DESTINATIONS :: "jsstring set" where
  "PERSISTENT_PERMISSION_DESTINATIONS =
     {utf16 ''userSettings'', utf16 ''projectSettings'', utf16 ''localSettings''}"

text \<open>The loop of \<open>splitPermissionSuggestionsByScope\<close>: each suggestion is pushed on one of the two arrays.\<close>

fun splitLoop ::
  "PermissionUpdate list \<Rightarrow> PermissionSuggestionsByScope \<Rightarrow> PermissionSuggestionsByScope" where
  "splitLoop [] acc = acc"
| "splitLoop (suggestion # rest) acc =
     (if destination suggestion \<in> SESSION_PERMISSION_DESTINATIONS
      then splitLoop rest (acc\<lparr>session := session acc @ [suggestion]\<rparr>)
      else if destination suggestion \<in> PERSISTENT_PERMISSION_DESTINATIONS
      then splitLoop rest (acc\<lparr>persistent := persistent acc @ [suggestion]\<rparr>)
      else splitLoop rest (acc\<lparr>session := session acc @ [suggestion]\<rparr>))"

definition splitPermissionSuggestionsByScope ::
  "PermissionUpdate list option \<Rightarrow> PermissionSuggestionsByScope" where
  "splitPermissionSuggestionsByScope suggestions =
     (case suggestions of
        None \<Rightarrow> \<lparr>session = [], persistent = []\<rparr>
      | Some xs \<Rightarrow>
          if length xs = 0 then \<lparr>session = [], persistent = []\<rparr>
          else splitLoop xs \<lparr>session = [], persistent = []\<rparr>)"

record PermissionOption =
  option_id :: jsstring
  name :: jsstring
  kind :: jsstring

definition permissionOptionsFromSuggestions ::
  "PermissionUpdate list option \<Rightarrow> PermissionOption list" where
  "permissionOptionsFromSuggestions suggestions =
     (let scoped = splitPermissionSuggestionsByScope suggestions;
          hasSessionScoped = (length (session scoped) > 0);
          hasPersistentScoped = (length (persistent scoped) > 0);
          sessionOnly = (hasSessionScoped \<and> \<not> hasPersistentScoped);
          options = [\<lparr>option_id = utf16 ''allow_once'', name = utf16 ''Allow once'',
                      kind = utf16 ''allow_once''\<rparr>];
          options = options @
            [\<lparr>option_id = (if sessionOnly then utf16 ''allow_session'' else utf16 ''allow_always''),
              name = (if sessionOnly then utf16 ''Allow for session'' else utf16 ''Always allow''),
              kind = (if sessionOnly then utf16 ''allow_session'' else utf16 ''allow_always'')\<rparr>];
          options = options @
            [\<lparr>option_id = utf16 ''reject_once'', name = utf16 ''Deny'', kind = utf16 ''reject_once''\<rparr>]
      in options)"

datatype PermissionOutcome = Selected jsstring | Cancelled

text \<open>
  The engine's \<open>PermissionResult\<close>. An allow result carries \<open>updatedInput\<close>,
  \<open>updatedPermissions\<close> when the property is present, and \<open>toolUseID\<close>; a deny result
  carries \<open>message\<close> and \<open>toolUseID\<close>.
\<close>

datatype PermissionResult =
    Allow jsobject "PermissionUpdate list option" jsstring
  | Deny jsstring jsstring

text \<open>
  \<open>toolName\<close> is an optional string parameter; \<open>toolName ? \<dots> : undefined\<close> takes the
  first branch when it is given and not the empty string.
\<close>

definition permissionResultFromOutcome ::
  "PermissionOutcome \<Rightarrow> jsstring \<Rightarrow> jsobject \<Rightarrow> PermissionUpdate list option \<Rightarrow>
   jsstring option \<Rightarrow> PermissionResult" where
  "permissionResultFromOutcome outcome toolCallId inputData suggestions tool =
     (let scopedSuggestions = splitPermissionSuggestionsByScope suggestions in
      case outcome of
        Selected opt \<Rightarrow>
          if opt = utf16 ''allow_once'' then Allow inputData None toolCallId
          else if opt = utf16 ''allow_session'' then
            (let sessionSuggestions = session scopedSuggestions;
                 fallbackSuggestions =
                   (if length sessionSuggestions > 0 then Some sessionSuggestions
                    else case tool of
                      None \<Rightarrow> None
                    | Some t \<Rightarrow>
                        if t \<noteq> [] then
                          Some [RulesUpdate (utf16 ''addRules'')
                                  [\<lparr>toolName = t, ruleContent = None\<rparr>]
                                  (utf16 ''allow'') (utf16 ''session'')]
                        else None)
             in Allow inputData
                  (case fallbackSuggestions of
                     None \<Rightarrow> None
                   | Some fs \<Rightarrow> if length fs > 0 then Some fs else None)
                  toolCallId)
          else if opt = utf16 ''allow_always'' then
            (let suggestionsForAlways = persistent scopedSuggestions
             in Allow inputData
                  (if length suggestionsForAlways > 0 then Some suggestionsForAlways else None)
                  toolCallId)
          else Deny (utf16 ''Permission denied'') toolCallId
      | Cancelled \<Rightarrow> Deny (utf16 ''Permission cancelled'') toolCallId)"

section \<open>Session updates (types.ts)\<close>

text \<open>
  Modelled from the spec: \<open>types.ts\<close> is not among the sources. The usage payload has
  the eight optional numbers that \<open>buildUsageUpdateFromResultForSession\<close> writes.
  Seven of them come out of \<open>numberField\<close> and are finite; the turn cost is the result
  of a subtraction, which can overflow.
  \<open>SessionUpdate\<close> has the five variants the source constructs; it is parametric in
  what a \<open>tool_call\<close> update holds (the replay holds a reference to a tool call
  object, the caller reads the object) and in the fields of a \<open>tool_call_update\<close>.
\<close>

record Usage =
  input_tokens :: "real option"
  output_tokens :: "real option"
  cache_read_tokens :: "real option"
  cache_write_tokens :: "real option"
  total_cost_usd :: "real option"
  turn_cost_usd :: "jsnumber option"
  context_window :: "real option"
  max_output_tokens :: "real option"

datatype ('tc, 'f) SessionUpdate =
    user_message_chunk jsstring
  | agent_message_chunk jsstring
  | tool_call 'tc
  | tool_call_update jsstring 'f
  | usage_update Usage

section \<open>Usage accounting (usage.ts)\<close>

record UsageSessionContext =
  model :: "jsstring option"
  lastTotalCostUsd :: "jsnumber option"

fun numberField :: "jsobject \<Rightarrow> string list \<Rightarrow> real option" where
  "numberField rcd [] = None"
| "numberField rcd (key # keys) =
     (case get rcd key of
        Some (JNum (Finite v)) \<Rightarrow> Some v
      | _ \<Rightarrow> numberField rcd keys)"

text \<open>The two loops of \<open>selectModelUsageRecord\<close>: the first key whose value is a record.\<close>

fun firstRecordAmong :: "jsobject \<Rightarrow> jsstring list \<Rightarrow> jsobject option" where
  "firstRecordAmong modelUsageRaw [] = None"
| "firstRecordAmong modelUsageRaw (key # keys) =
     (case asRecordOrNull (getProp modelUsageRaw key) of
        Some v \<Rightarrow> Some v
      | None \<Rightarrow> firstRecordAmong modelUsageRaw keys)"

text \<open>
  \<open>Object.keys\<close> lists each own property once; \<open>sort()\<close> orders strings by their
  code units. \<open>preferredKeys\<close> is a \<open>Set\<close>, iterated in insertion order without
  repetition; \<open>session?.model\<close> is added when it is a non-empty string, and
  \<open>message.model\<close> when it is any string.
\<close>

definition selectModelUsageRecord ::
  "UsageSessionContext option \<Rightarrow> jsobject \<Rightarrow> jsobject option" where
  "selectModelUsageRecord sess message =
     (case asRecordOrNull (get message ''modelUsage'') of
        None \<Rightarrow> None
      | Some modelUsageRaw \<Rightarrow>
          (let sortedKeys = sort (remdups (map fst modelUsageRaw)) in
           if length sortedKeys = 0 then None
           else
             (let preferredKeys =
                    (case sess of
                       None \<Rightarrow> []
                     | Some s \<Rightarrow> (case model s of None \<Rightarrow> [] | Some m \<Rightarrow> if m \<noteq> [] then [m] else []));
                  preferredKeys =
                    (case get message ''model'' of
                       Some (JStr m) \<Rightarrow> if m \<in> set preferredKeys then preferredKeys else preferredKeys @ [m]
                     | _ \<Rightarrow> preferredKeys)
              in case firstRecordAmong modelUsageRaw preferredKeys of
                   Some v \<Rightarrow> Some v
                 | None \<Rightarrow> firstRecordAmong modelUsageRaw sortedKeys)))"

text \<open>
  The function mutates the session context it is given; the model returns the
  context after the call next to the result. The turn cost is computed in double
  arithmetic: \<open>Math.max(0, a - b)\<close> is \<open>mathMax (Finite 0) (jsMinus a b)\<close>.
\<close>

definition buildUsageUpdateFromResultForSession ::
  "UsageSessionContext option \<Rightarrow> jsobject \<Rightarrow>
   ('tc, 'f) SessionUpdate option \<times> UsageSessionContext option" where
  "buildUsageUpdateFromResultForSession sess message =
     (let usage = asRecordOrNull (get message ''usage'');
          inputTokens =
            (case usage of Some u \<Rightarrow> numberField u [''inputTokens'', ''input_tokens''] | None \<Rightarrow> None);
          outputTokens =
            (case usage of Some u \<Rightarrow> numberField u [''outputTokens'', ''output_tokens''] | None \<Rightarrow> None);
          cacheReadTokens =
            (case usage of
               Some u \<Rightarrow> numberField u
                 [''cacheReadInputTokens'', ''cache_read_input_tokens'', ''cache_read_tokens'']
             | None \<Rightarrow> None);
          cacheWriteTokens =
            (case usage of
               Some u \<Rightarrow> numberField u
                 [''cacheCreationInputTokens'', ''cache_creation_input_tokens'', ''cache_write_tokens'']
             | None \<Rightarrow> None);
          totalCostUsd = numberField message [''total_cost_usd'', ''totalCostUsd''];
          (turnCostUsd, sess') =
            (case (totalCostUsd, sess) of
               (Some newTotal, Some s) \<Rightarrow>
                 ((case lastTotalCostUsd s of
                     None \<Rightarrow> Some (Finite newTotal)
                   | Some lastTotal \<Rightarrow>
                       Some (mathMax (Finite 0) (jsMinus (Finite newTotal) lastTotal))),
                  Some (s\<lparr>lastTotalCostUsd := Some (Finite newTotal)\<rparr>))
             | _ \<Rightarrow> (None, sess));
          modelUsage = selectModelUsageRecord sess' message;
          contextWindow =
            (case modelUsage of
               Some mu \<Rightarrow> numberField mu [''contextWindow'', ''context_window'']
             | None \<Rightarrow> None);
          maxOutputTokens =
            (case modelUsage of
               Some mu \<Rightarrow> numberField mu [''maxOutputTokens'', ''max_output_tokens'']
             | None \<Rightarrow> None)
      in if inputTokens = None \<and> outputTokens = None \<and> cacheReadTokens = None
            \<and> cacheWriteTokens = None \<and> totalCostUsd = None \<and> turnCostUsd = None
            \<and> contextWindow = None \<and> maxOutputTokens = None
         then (None, sess')
         else (Some (usage_update
                 \<lparr>input_tokens = inputTokens, output_tokens = outputTokens,
                  cache_read_tokens = cacheReadTokens, cache_write_tokens = cacheWriteTokens,
                  total_cost_usd = totalCostUsd, turn_cost_usd = turnCostUsd,
                  context_window = contextWindow, max_output_tokens = maxOutputTokens\<rparr>),
               sess'))"

definition buildUsageUpdateFromResult :: "jsobject \<Rightarrow> ('tc, 'f) SessionUpdate option" where
  "buildUsageUpdateFromResult message = fst (buildUsageUpdateFromResultForSession None message)"

section \<open>Command envelope parser (commands.ts)\<close>

text \<open>
  A \<open>throw\<close> is the left summand. \<open>JSON.parse\<close> throws a \<open>SyntaxError\<close>; every other
  failure of the parser is an \<open>Error\<close> with the message the source builds.
\<close>

datatype error = SyntaxError | Error jsstring

definition bindE :: "error + 'a \<Rightarrow> ('a \<Rightarrow> error + 'b) \<Rightarrow> error + 'b" where
  "bindE m f = (case m of Inl e \<Rightarrow> Inl e | Inr v \<Rightarrow> f v)"

definition asRecord :: "json option \<Rightarrow> jsstring \<Rightarrow> error + jsobject" where
  "asRecord v ctx =
     (case v of
        Some (JObj rcd) \<Rightarrow> Inr rcd
      | _ \<Rightarrow> Inl (Error (ctx @ utf16 '' must be an object'')))"

definition expectString :: "jsobject \<Rightarrow> string \<Rightarrow> jsstring \<Rightarrow> error + jsstring" where
  "expectString rcd key ctx =
     (case get rcd key of
        Some (JStr s) \<Rightarrow> Inr s
      | _ \<Rightarrow> Inl (Error (ctx @ utf16 ''.'' @ utf16 key @ utf16 '' must be a string'')))"

definition expectBoolean :: "jsobject \<Rightarrow> string \<Rightarrow> jsstring \<Rightarrow> error + bool" where
  "expectBoolean rcd key ctx =
     (case get rcd key of
        Some (JBool b) \<Rightarrow> Inr b
      | _ \<Rightarrow> Inl (Error (ctx @ utf16 ''.'' @ utf16 key @ utf16 '' must be a boolean'')))"

definition optionalString :: "jsobject \<Rightarrow> string \<Rightarrow> jsstring \<Rightarrow> error + jsstring option" where
  "optionalString rcd key ctx =
     (case get rcd key of
        None \<Rightarrow> Inr None
      | Some JNull \<Rightarrow> Inr None
      | Some (JStr s) \<Rightarrow> Inr (Some s)
      | _ \<Rightarrow> Inl (Error (ctx @ utf16 ''.'' @ utf16 key @ utf16 '' must be a string when provided'')))"

definition optionalMetadata :: "jsobject \<Rightarrow> string \<Rightarrow> error + jsobject" where
  "optionalMetadata rcd key =
     (case get rcd key of
        None \<Rightarrow> Inr []
      | Some JNull \<Rightarrow> Inr []
      | Some v \<Rightarrow> asRecord (Some v) (utf16 key @ utf16 '' metadata''))"

text \<open>The decimal digits of an array index, as a template literal prints it.\<close>

fun decimal :: "nat \<Rightarrow> string" where
  "decimal n =
     (if n < 10 then [char_of (48 + n)]
      else decimal (n div 10) @ [char_of (48 + n mod 10)])"

declare decimal.simps [simp del]

record PromptChunk =
  kind_of :: jsstring
  value_of :: json

text \<open>
  The callback of \<open>rawChunks.map\<close> at one index, and the map itself: the first chunk
  that throws ends it. \<open>parsed.value ?? null\<close> is \<open>null\<close> for an absent value.
\<close>

definition parsePromptChunk :: "jsstring \<Rightarrow> nat \<Rightarrow> json \<Rightarrow> error + PromptChunk" where
  "parsePromptChunk ctx index chunk =
     (let chunkCtx = ctx @ utf16 ''.chunks['' @ utf16 (decimal index) @ utf16 '']'' in
      bindE (asRecord (Some chunk) chunkCtx) (\<lambda>parsed.
      bindE (expectString parsed ''kind'' chunkCtx) (\<lambda>k.
      Inr \<lparr>kind_of = k,
           value_of = (case get parsed ''value'' of None \<Rightarrow> JNull | Some v \<Rightarrow> v)\<rparr>)))"

fun mapPromptChunks :: "jsstring \<Rightarrow> nat \<Rightarrow> json list \<Rightarrow> error + PromptChunk list" where
  "mapPromptChunks ctx index [] = Inr []"
| "mapPromptChunks ctx index (chunk # rest) =
     bindE (parsePromptChunk ctx index chunk) (\<lambda>c.
     bindE (mapPromptChunks ctx (Suc index) rest) (\<lambda>cs.
     Inr (c # cs)))"

definition parsePromptChunks :: "jsobject \<Rightarrow> jsstring \<Rightarrow> error + PromptChunk list" where
  "parsePromptChunks rcd ctx =
     (case get rcd ''chunks'' of
        Some (JArr rawChunks) \<Rightarrow> mapPromptChunks ctx 0 rawChunks
      | _ \<Rightarrow> Inl (Error (ctx @ utf16 ''.chunks must be an array'')))"

text \<open>
  \<open>BridgeCommand\<close>, one constructor per command tag, with the fields in the order in
  which the object literal of the source evaluates them. An optional string that is
  absent is \<open>None\<close>.
\<close>

datatype BridgeCommand =
    initialize jsstring jsobject
  | create_session jsstring bool "jsstring option" "jsstring option" jsobject
  | load_session jsstring jsobject
  | new_session jsstring bool "jsstring option"
  | prompt jsstring "PromptChunk list"
  | cancel_turn jsstring
  | set_model jsstring jsstring
  | set_mode jsstring jsstring
  | permission_response jsstring jsstring PermissionOutcome
  | shutdown

definition apostrophe :: jsstring where
  "apostrophe = [0x27]"

text \<open>The \<open>switch\<close> on the command name.\<close>

definition parseCommand :: "jsobject \<Rightarrow> jsstring \<Rightarrow> error + BridgeCommand" where
  "parseCommand raw commandName =
     (if commandName = utf16 ''initialize'' then
        bindE (expectString raw ''cwd'' (utf16 ''initialize'')) (\<lambda>cwd.
        bindE (optionalMetadata raw ''metadata'') (\<lambda>metadata.
        Inr (initialize cwd metadata)))
      else if commandName = utf16 ''create_session'' then
        bindE (expectString raw ''cwd'' (utf16 ''create_session'')) (\<lambda>cwd.
        bindE (expectBoolean raw ''yolo'' (utf16 ''create_session'')) (\<lambda>yolo.
        bindE (optionalString raw ''model'' (utf16 ''create_session'')) (\<lambda>mdl.
        bindE (optionalString raw ''resume'' (utf16 ''create_session'')) (\<lambda>resume.
        bindE (optionalMetadata raw ''metadata'') (\<lambda>metadata.
        Inr (create_session cwd yolo mdl resume metadata))))))
      else if commandName = utf16 ''load_session'' then
        bindE (expectString raw ''session_id'' (utf16 ''load_session'')) (\<lambda>session_id.
        bindE (optionalMetadata raw ''metadata'') (\<lambda>metadata.
        Inr (load_session session_id metadata)))
      else if commandName = utf16 ''new_session'' then
        bindE (expectString raw ''cwd'' (utf16 ''new_session'')) (\<lambda>cwd.
        bindE (expectBoolean raw ''yolo'' (utf16 ''new_session'')) (\<lambda>yolo.
        bindE (optionalString raw ''model'' (utf16 ''new_session'')) (\<lambda>mdl.
        Inr (new_session cwd yolo mdl))))
      else if commandName = utf16 ''prompt'' then
        bindE (expectString raw ''session_id'' (utf16 ''prompt'')) (\<lambda>session_id.
        bindE (parsePromptChunks raw (utf16 ''prompt'')) (\<lambda>chunks.
        Inr (prompt session_id chunks)))
      else if commandName = utf16 ''cancel_turn'' then
        bindE (expectString raw ''session_id'' (utf16 ''cancel_turn'')) (\<lambda>session_id.
        Inr (cancel_turn session_id))
      else if commandName = utf16 ''set_model'' then
        bindE (expectString raw ''session_id'' (utf16 ''set_model'')) (\<lambda>session_id.
        bindE (expectString raw ''model'' (utf16 ''set_model'')) (\<lambda>mdl.
        Inr (set_model session_id mdl)))
      else if commandName = utf16 ''set_mode'' then
        bindE (expectString raw ''session_id'' (utf16 ''set_mode'')) (\<lambda>session_id.
        bindE (expectString raw ''mode'' (utf16 ''set_mode'')) (\<lambda>mode.
        Inr (set_mode session_id mode)))
      else if commandName = utf16 ''permission_response'' then
        bindE (asRecord (get raw ''outcome'') (utf16 ''permission_response.outcome'')) (\<lambda>outcome.
        bindE (expectString outcome ''outcome'' (utf16 ''permission_response.outcome'')) (\<lambda>outcomeType.
        if outcomeType \<noteq> utf16 ''selected'' \<and> outcomeType \<noteq> utf16 ''cancelled'' then
          Inl (Error (utf16 ''permission_response.outcome.outcome must be '' @ apostrophe
                 @ utf16 ''selected'' @ apostrophe @ utf16 '' or '' @ apostrophe
                 @ utf16 ''cancelled'' @ apostrophe))
        else
          bindE (if outcomeType = utf16 ''selected''
                 then bindE (expectString outcome ''option_id'' (utf16 ''permission_response.outcome''))
                        (\<lambda>option. Inr (Selected option))
                 else Inr Cancelled) (\<lambda>parsedOutcome.
          bindE (expectString raw ''session_id'' (utf16 ''permission_response'')) (\<lambda>session_id.
          bindE (expectString raw ''tool_call_id'' (utf16 ''permission_response'')) (\<lambda>tool_call_id.
          Inr (permission_response session_id tool_call_id parsedOutcome))))))
      else if commandName = utf16 ''shutdown'' then Inr shutdown
      else Inl (Error (utf16 ''unsupported command: '' @ commandName)))"

text \<open>
  \<open>JSON.parse\<close> belongs to the runtime, so the parser takes it as a parameter:
  \<open>JSON_parse line\<close> is the parsed value, or \<open>None\<close> when \<open>JSON.parse\<close> throws.
\<close>

definition parseCommandEnvelope ::
  "(jsstring \<Rightarrow> json option) \<Rightarrow> jsstring \<Rightarrow> error + (jsstring option \<times> BridgeCommand)" where
  "parseCommandEnvelope JSON_parse line =
     (case JSON_parse line of
        None \<Rightarrow> Inl SyntaxError
      | Some parsed \<Rightarrow>
          bindE (asRecord (Some parsed) (utf16 ''command envelope'')) (\<lambda>raw.
          (let requestId = (case get raw ''request_id'' of Some (JStr s) \<Rightarrow> Some s | _ \<Rightarrow> None) in
           bindE (expectString raw ''command'' (utf16 ''command envelope'')) (\<lambda>commandName.
           bindE (parseCommand raw commandName) (\<lambda>command.
           Inr (requestId, command))))))"

section \<open>Session titles (history.ts)\<close>

text \<open>
  \<open>raw.replace(/<context[\s\S]*/gi, " ")\<close>: from the first \<open><context\<close>, in any mix of
  upper and lower case, everything to the end of the text is replaced by one space.
  Without the \<open>u\<close> flag a code unit matches an ASCII letter of the pattern only when
  it is that letter in one of its two cases.
\<close>

definition asciiUpper :: "16 word \<Rightarrow> 16 word" where
  "asciiUpper u = (if 0x0061 \<le> u \<and> u \<le> 0x007A then u - 0x0020 else u)"

definition startsWithIgnoreCase :: "jsstring \<Rightarrow> jsstring \<Rightarrow> bool" where
  "startsWithIgnoreCase s p \<longleftrightarrow> map asciiUpper (take (length p) s) = map asciiUpper p"

fun stripContext :: "jsstring \<Rightarrow> jsstring" where
  "stripContext [] = []"
| "stripContext (c # cs) =
     (if startsWithIgnoreCase (c # cs) (utf16 ''<context'') then [0x0020]
      else c # stripContext cs)"

text \<open>
  \<open>text.replace(/\[([^\]]+)\]\([^)]+\)/g, "$1")\<close>. A match at a position starts with
  an opening bracket; the group is the run up to the next closing bracket and is
  not empty; the closing bracket is followed by an opening parenthesis, a run that
  is not empty up to the next closing parenthesis, and that parenthesis. A run
  cannot end earlier, so there is nothing to backtrack to. \<open>matchLink\<close> returns the
  group and the text after the match.
\<close>

definition matchLink :: "jsstring \<Rightarrow> (jsstring \<times> jsstring) option" where
  "matchLink s =
     (case s of
        [] \<Rightarrow> None
      | c # afterOpen \<Rightarrow>
          if c \<noteq> 0x005B then None
          else
            (let label = takeWhile (\<lambda>u. u \<noteq> 0x005D) afterOpen;
                 afterLabel = dropWhile (\<lambda>u. u \<noteq> 0x005D) afterOpen
             in if label = [] then None
                else case afterLabel of
                  closeBracket # openParen # afterParen \<Rightarrow>
                    if openParen \<noteq> 0x0028 then None
                    else
                      (let url = takeWhile (\<lambda>u. u \<noteq> 0x0029) afterParen;
                           afterUrl = dropWhile (\<lambda>u. u \<noteq> 0x0029) afterParen
                       in if url = [] then None
                          else case afterUrl of
                            closeParen # rest \<Rightarrow> Some (label, rest)
                          | [] \<Rightarrow> None)
                | _ \<Rightarrow> None))"

function replaceLinks :: "jsstring \<Rightarrow> jsstring" where
  "replaceLinks [] = []"
| "replaceLinks (c # cs) =
     (case matchLink (c # cs) of
        Some (label, rest) \<Rightarrow> label @ replaceLinks rest
      | None \<Rightarrow> c # replaceLinks cs)"
  by pat_completeness auto

termination replaceLinks
proof (relation "measure length")
  show "wf (measure length)"
    by simp
next
  fix c :: "16 word" and cs label rest :: jsstring and x2 :: "jsstring \<times> jsstring"
  assume m: "matchLink (c # cs) = Some x2" and x2: "(label, rest) = x2"
  let ?afterLabel = "dropWhile (\<lambda>u. u \<noteq> 0x005D) cs"
  from m x2 obtain closeBracket afterParen where
    a1: "?afterLabel = closeBracket # 0x0028 # afterParen"
    and a2: "\<exists>closeParen. dropWhile (\<lambda>u. u \<noteq> 0x0029) afterParen = closeParen # rest"
    by (auto simp add: matchLink_def Let_def split: if_splits list.splits)
  have "length rest < length (dropWhile (\<lambda>u. u \<noteq> 0x0029) afterParen)"
    using a2 by auto
  also have "\<dots> \<le> length afterParen"
    by (rule length_dropWhile_le)
  also have "\<dots> < length ?afterLabel"
    using a1 by simp
  also have "\<dots> \<le> length cs"
    by (rule length_dropWhile_le)
  finally show "(rest, c # cs) \<in> measure length"
    by simp
next
  fix c :: "16 word" and cs :: jsstring
  show "(cs, c # cs) \<in> measure length"
    by simp
qed

text \<open>
  \<open>text.replace(/\s+/g, " ")\<close>: every maximal run of white space becomes one space.
\<close>

function collapseWhiteSpace :: "jsstring \<Rightarrow> jsstring" where
  "collapseWhiteSpace [] = []"
| "collapseWhiteSpace (c # cs) =
     (if isWhiteSpace c then 0x0020 # collapseWhiteSpace (dropWhile isWhiteSpace cs)
      else c # collapseWhiteSpace cs)"
  by pat_completeness auto

termination collapseWhiteSpace
  by (relation "measure length") (auto simp add: less_Suc_eq_le length_dropWhile_le)

definition normalizeUserPromptText :: "jsstring \<Rightarrow> jsstring" where
  "normalizeUserPromptText raw =
     (let text = stripContext raw;
          text = replaceLinks text;
          text = trim (collapseWhiteSpace text)
      in text)"

text \<open>\<open>chars.slice(0, maxChars).join("")\<close> is the concatenation of the first elements.\<close>

definition truncateTextByChars :: "jsstring \<Rightarrow> nat \<Rightarrow> jsstring" where
  "truncateTextByChars text maxChars =
     (let chars = arrayFrom text in
      if length chars \<le> maxChars then text
      else concat (take maxChars chars))"

text \<open>
  The loop of \<open>firstUserMessageTitleFromRecord\<close> over the content blocks, with the
  array \<open>parts\<close> collected so far, and what follows the loop when it runs to its end.
\<close>

fun titleLoop :: "jsstring list \<Rightarrow> json list \<Rightarrow> jsstring option" where
  "titleLoop parts [] =
     (if length parts = 0 then None
      else Some (truncateTextByChars (joinWith (utf16 '' '') parts) 180))"
| "titleLoop parts (item # items) =
     (case asRecordOrNull (Some item) of
        None \<Rightarrow> titleLoop parts items
      | Some block \<Rightarrow>
          if get block ''type'' \<noteq> Some (JStr (utf16 ''text'')) then titleLoop parts items
          else
            (case get block ''text'' of
               Some (JStr blockText) \<Rightarrow>
                 (let cleaned = normalizeUserPromptText blockText in
                  if cleaned = [] then titleLoop parts items
                  else
                    (let parts = parts @ [cleaned];
                         combined = joinWith (utf16 '' '') parts
                     in if length (arrayFrom combined) \<ge> 180
                        then Some (truncateTextByChars combined 180)
                        else titleLoop parts items))
             | _ \<Rightarrow> titleLoop parts items))"

definition firstUserMessageTitleFromRecord :: "jsobject \<Rightarrow> jsstring option" where
  "firstUserMessageTitleFromRecord rcd =
     (if get rcd ''type'' \<noteq> Some (JStr (utf16 ''user'')) then None
      else
        (case asRecordOrNull (get rcd ''message'') of
           None \<Rightarrow> None
         | Some message \<Rightarrow>
             if get message ''role'' \<noteq> Some (JStr (utf16 ''user'')) then None
             else
               (case get message ''content'' of
                  Some (JArr messageContent) \<Rightarrow> titleLoop [] messageContent
                | _ \<Rightarrow> None)))"

text \<open>
  The loop of \<open>extractSessionPreviewFromJsonl\<close> over the lines, with \<open>cwd\<close> and
  \<open>title\<close> as found so far; \<open>!cwd\<close> and \<open>!title\<close> hold for \<open>undefined\<close> and for the
  empty string. The loop ends early once both are found.
\<close>

definition isSet :: "jsstring option \<Rightarrow> bool" where
  "isSet v \<longleftrightarrow> (case v of None \<Rightarrow> False | Some s \<Rightarrow> s \<noteq> [])"

fun previewLoop ::
  "(jsstring \<Rightarrow> json option) \<Rightarrow> jsstring option \<Rightarrow> jsstring option \<Rightarrow> jsstring list \<Rightarrow>
   jsstring option \<times> jsstring option" where
  "previewLoop JSON_parse cwd title [] = (cwd, title)"
| "previewLoop JSON_parse cwd title (rawLine # rest) =
     (let line = trim rawLine in
      if length line = 0 then previewLoop JSON_parse cwd title rest
      else
        (case JSON_parse line of
           None \<Rightarrow> previewLoop JSON_parse cwd title rest
         | Some parsed \<Rightarrow>
             (case asRecordOrNull (Some parsed) of
                None \<Rightarrow> previewLoop JSON_parse cwd title rest
              | Some rcd \<Rightarrow>
                  (let cwd =
                         (if \<not> isSet cwd
                             \<and> (case get rcd ''cwd'' of Some (JStr c) \<Rightarrow> length (trim c) > 0 | _ \<Rightarrow> False)
                          then (case get rcd ''cwd'' of Some (JStr c) \<Rightarrow> Some c | _ \<Rightarrow> cwd)
                          else cwd);
                       title =
                         (if \<not> isSet title then firstUserMessageTitleFromRecord rcd else title)
                   in if isSet cwd \<and> isSet title then (cwd, title)
                      else previewLoop JSON_parse cwd title rest))))"

text \<open>The preview: \<open>cwd\<close> and \<open>title\<close>, each present only when it was found.\<close>

definition extractSessionPreviewFromJsonl ::
  "(jsstring \<Rightarrow> json option) \<Rightarrow> (jsstring \<Rightarrow> jsstring option) \<Rightarrow> jsstring \<Rightarrow>
   jsstring option \<times> jsstring option" where
  "extractSessionPreviewFromJsonl JSON_parse readFileSync filePath =
     (case readFileSync filePath of
        None \<Rightarrow> (None, None)
      | Some fileText \<Rightarrow>
          (case previewLoop JSON_parse None None (splitLines fileText) of
             (cwd, title) \<Rightarrow>
               (if isSet cwd then cwd else None, if isSet title then title else None)))"

section \<open>Conversation replay (history.ts)\<close>

text \<open>
  Modelled from the spec: \<open>ToolCall\<close> is declared in \<open>types.ts\<close>, which is not among
  the sources. The replay reads and writes its \<open>status\<close>, \<open>raw_output\<close> and \<open>content\<close>;
  whatever else a tool call holds is the extension of the record. The fields of a
  \<open>tool_call_update\<close> are what \<open>buildToolResultFields\<close> returns; the replay reads the
  same three of them.
\<close>

record ToolCall =
  status :: jsstring
  raw_output :: "json option"
  content :: "json option"

record ToolCallUpdateFields =
  update_status :: "jsstring option"
  update_raw_output :: "json option"
  update_content :: "json option"

text \<open>
  \<open>tooling.ts\<close> is not among the sources either. What the replay imports from it is a
  parameter of the model: the predicate \<open>isToolUseBlockType\<close>, the set
  \<open>TOOL_RESULT_TYPES\<close>, and the functions \<open>createToolCall\<close> and
  \<open>buildToolResultFields\<close>, taken to return a value without changing their arguments.
\<close>

record ('z, 'y) Tooling =
  isToolUseBlockType :: "jsstring \<Rightarrow> bool"
  TOOL_RESULT_TYPES :: "jsstring set"
  createToolCall :: "jsstring \<Rightarrow> jsstring \<Rightarrow> jsobject \<Rightarrow> 'z ToolCall_scheme"
  buildToolResultFields ::
    "bool \<Rightarrow> json option \<Rightarrow> 'z ToolCall_scheme option \<Rightarrow> 'y ToolCallUpdateFields_scheme"

text \<open>
  The state of one replay. A \<open>tool_call\<close> update and the map \<open>toolCalls\<close> hold the
  same \<open>ToolCall\<close> object, and \<open>pushResumeToolResult\<close> writes to it through the map,
  so the objects live in a store: \<open>objects\<close> lists them in the order of their
  creation, and an update or a map entry holds the index of its object.
\<close>

record ('z, 'y) ReplayState =
  updates :: "(nat, 'y ToolCallUpdateFields_scheme) SessionUpdate list"
  objects :: "'z ToolCall_scheme list"
  toolCalls :: "jsstring \<rightharpoonup> nat"
  emittedUsageMessageIds :: "jsstring set"

definition initialReplayState :: "('z, 'y) ReplayState" where
  "initialReplayState =
     \<lparr>updates = [], objects = [], toolCalls = Map.empty, emittedUsageMessageIds = {}\<rparr>"

definition persistedMessageCandidates :: "jsobject \<Rightarrow> jsobject list" where
  "persistedMessageCandidates rcd =
     (let candidates = [];
          topLevel = asRecordOrNull (get rcd ''message'');
          candidates = (case topLevel of Some m \<Rightarrow> candidates @ [m] | None \<Rightarrow> candidates);
          nested =
            asRecordOrNull
              (case asRecordOrNull
                      (case asRecordOrNull (get rcd ''data'') of
                         Some d \<Rightarrow> get d ''message''
                       | None \<Rightarrow> None) of
                 Some m \<Rightarrow> get m ''message''
               | None \<Rightarrow> None);
          candidates = (case nested of Some m \<Rightarrow> candidates @ [m] | None \<Rightarrow> candidates)
      in candidates)"

definition pushResumeTextChunk ::
  "('z, 'y) ReplayState \<Rightarrow> jsstring \<Rightarrow> jsstring \<Rightarrow> ('z, 'y) ReplayState" where
  "pushResumeTextChunk st role chunkText =
     (if trim chunkText = [] then st
      else if role = utf16 ''assistant''
      then st\<lparr>updates := updates st @ [agent_message_chunk chunkText]\<rparr>
      else st\<lparr>updates := updates st @ [user_message_chunk chunkText]\<rparr>)"

definition pushResumeToolUse ::
  "('z, 'y) Tooling \<Rightarrow> ('z, 'y) ReplayState \<Rightarrow> jsobject \<Rightarrow> ('z, 'y) ReplayState" where
  "pushResumeToolUse T st block =
     (let toolUseId = (case get block ''id'' of Some (JStr s) \<Rightarrow> s | _ \<Rightarrow> []) in
      if toolUseId = [] then st
      else
        (let toolName = (case get block ''name'' of Some (JStr s) \<Rightarrow> s | _ \<Rightarrow> utf16 ''Tool'');
             input = (case asRecordOrNull (get block ''input'') of Some r \<Rightarrow> r | None \<Rightarrow> []);
             toolCall = createToolCall T toolUseId toolName input;
             toolCall = toolCall\<lparr>status := utf16 ''in_progress''\<rparr>;
             ref = length (objects st)
         in st\<lparr>objects := objects st @ [toolCall],
                 toolCalls := (toolCalls st)(toolUseId \<mapsto> ref),
                 updates := updates st @ [tool_call ref]\<rparr>))"

text \<open>
  The three assignments to \<open>base\<close> at the end of \<open>pushResumeToolResult\<close>:
  \<open>fields.status ?? base.status\<close>, and the other two under \<open>if (fields.raw_output)\<close>
  and \<open>if (fields.content)\<close>.
\<close>

definition mergeToolResult ::
  "'y ToolCallUpdateFields_scheme \<Rightarrow> 'z ToolCall_scheme \<Rightarrow> 'z ToolCall_scheme" where
  "mergeToolResult resultFields base =
     (let base = base\<lparr>status := (case update_status resultFields of Some s \<Rightarrow> s | None \<Rightarrow> status base)\<rparr>;
          base = (if truthy (update_raw_output resultFields)
                  then base\<lparr>raw_output := update_raw_output resultFields\<rparr> else base);
          base = (if truthy (update_content resultFields)
                  then base\<lparr>content := update_content resultFields\<rparr> else base)
      in base)"

definition pushResumeToolResult ::
  "('z, 'y) Tooling \<Rightarrow> ('z, 'y) ReplayState \<Rightarrow> jsobject \<Rightarrow> ('z, 'y) ReplayState" where
  "pushResumeToolResult T st block =
     (let toolUseId = (case get block ''tool_use_id'' of Some (JStr s) \<Rightarrow> s | _ \<Rightarrow> []) in
      if toolUseId = [] then st
      else
        (let isError = truthy (get block ''is_error'');
             base = map_option (\<lambda>ref. objects st ! ref) (toolCalls st toolUseId);
             resultFields = buildToolResultFields T isError (get block ''content'') base;
             st = st\<lparr>updates := updates st @ [tool_call_update toolUseId resultFields]\<rparr>
         in case toolCalls st toolUseId of
              None \<Rightarrow> st
            | Some ref \<Rightarrow>
                st\<lparr>objects := (objects st)[ref := mergeToolResult resultFields (objects st ! ref)]\<rparr>))"

definition pushResumeUsageUpdate ::
  "('z, 'y) ReplayState \<Rightarrow> jsobject \<Rightarrow> ('z, 'y) ReplayState" where
  "pushResumeUsageUpdate st message =
     (let messageId = (case get message ''id'' of Some (JStr s) \<Rightarrow> s | _ \<Rightarrow> []) in
      if messageId \<noteq> [] \<and> messageId \<in> emittedUsageMessageIds st then st
      else
        (case buildUsageUpdateFromResult message of
           None \<Rightarrow> st
         | Some usageUpdate \<Rightarrow>
             (let st = st\<lparr>updates := updates st @ [usageUpdate]\<rparr> in
              if messageId \<noteq> []
              then st\<lparr>emittedUsageMessageIds := insert messageId (emittedUsageMessageIds st)\<rparr>
              else st)))"

text \<open>
  The body of the loop over the content blocks of a message, the body of the loop
  over the candidate messages of a record, and the body of the loop over the lines.
\<close>

definition processBlock ::
  "('z, 'y) Tooling \<Rightarrow> jsstring \<Rightarrow> ('z, 'y) ReplayState \<Rightarrow> json \<Rightarrow> ('z, 'y) ReplayState" where
  "processBlock T role st item =
     (case asRecordOrNull (Some item) of
        None \<Rightarrow> st
      | Some block \<Rightarrow>
          (let blockType = (case get block ''type'' of Some (JStr s) \<Rightarrow> s | _ \<Rightarrow> []) in
           if blockType = utf16 ''thinking'' then st
           else if blockType = utf16 ''text''
                   \<and> (case get block ''text'' of Some (JStr s) \<Rightarrow> True | _ \<Rightarrow> False)
           then pushResumeTextChunk st role
                  (case get block ''text'' of Some (JStr s) \<Rightarrow> s | _ \<Rightarrow> [])
           else if isToolUseBlockType T blockType \<and> role = utf16 ''assistant''
           then pushResumeToolUse T st block
           else if blockType \<in> TOOL_RESULT_TYPES T
           then pushResumeToolResult T st block
           else if blockType = utf16 ''image''
           then pushResumeTextChunk st role (utf16 ''[image]'')
           else st))"

definition processBlocks ::
  "('z, 'y) Tooling \<Rightarrow> jsstring \<Rightarrow> ('z, 'y) ReplayState \<Rightarrow> jsobject \<Rightarrow> ('z, 'y) ReplayState" where
  "processBlocks T role st message =
     (let messageContent = (case get message ''content'' of Some (JArr xs) \<Rightarrow> xs | _ \<Rightarrow> [])
      in foldl (processBlock T role) st messageContent)"

definition processMessage ::
  "('z, 'y) Tooling \<Rightarrow> ('z, 'y) ReplayState \<Rightarrow> jsobject \<Rightarrow> ('z, 'y) ReplayState" where
  "processMessage T st message =
     (case get message ''role'' of
        Some (JStr role) \<Rightarrow>
          if role \<noteq> utf16 ''user'' \<and> role \<noteq> utf16 ''assistant'' then st
          else pushResumeUsageUpdate (processBlocks T role st message) message
      | _ \<Rightarrow> st)"

definition processLine ::
  "('z, 'y) Tooling \<Rightarrow> (jsstring \<Rightarrow> json option) \<Rightarrow> ('z, 'y) ReplayState \<Rightarrow> jsstring \<Rightarrow>
   ('z, 'y) ReplayState" where
  "processLine T JSON_parse st rawLine =
     (let line = trim rawLine in
      if length line = 0 then st
      else
        (case JSON_parse line of
           None \<Rightarrow> st
         | Some parsed \<Rightarrow>
             (case asRecordOrNull (Some parsed) of
                None \<Rightarrow> st
              | Some rcd \<Rightarrow> foldl (processMessage T) st (persistedMessageCandidates rcd))))"

text \<open>
  What the caller reads from the returned array: every \<open>tool_call\<close> update shows its
  object as the replay left it.
\<close>

definition returnedUpdates ::
  "('z, 'y) ReplayState \<Rightarrow> ('z ToolCall_scheme, 'y ToolCallUpdateFields_scheme) SessionUpdate list" where
  "returnedUpdates st = map (map_SessionUpdate (\<lambda>ref. objects st ! ref) id) (updates st)"

text \<open>
  \<open>fs.readFileSync\<close> is a parameter: the text of the file, or \<open>None\<close> when reading
  throws.
\<close>

definition extractSessionHistoryUpdatesFromJsonl ::
  "('z, 'y) Tooling \<Rightarrow> (jsstring \<Rightarrow> json option) \<Rightarrow> (jsstring \<Rightarrow> jsstring option) \<Rightarrow> jsstring \<Rightarrow>
   ('z ToolCall_scheme, 'y ToolCallUpdateFields_scheme) SessionUpdate list" where
  "extractSessionHistoryUpdatesFromJsonl T JSON_parse readFileSync filePath =
     (case readFileSync filePath of
        None \<Rightarrow> []
      | Some fileText \<Rightarrow>
          returnedUpdates
            (foldl (processLine T JSON_parse) initialReplayState (splitLines fileText)))"

section \<open>Vocabulary of the properties\<close>

subsection \<open>Permission scopes\<close>

text \<open>
  The two scopes of a suggestion as the specification words them: the three settings
  destinations are persistent, every other destination (\<open>session\<close>, \<open>cliArg\<close>, or
  one that is not recognised) is session scope.
\<close>

datatype scope = SessionScope | PersistentScope

definition scopeOfDestination :: "jsstring \<Rightarrow> scope" where
  "scopeOfDestination d =
     (if d = utf16 ''userSettings'' \<or> d = utf16 ''projectSettings'' \<or> d = utf16 ''localSettings''
      then PersistentScope else SessionScope)"

definition suggested :: "PermissionUpdate list option \<Rightarrow> PermissionUpdate list" where
  "suggested suggestions = (case suggestions of None \<Rightarrow> [] | Some xs \<Rightarrow> xs)"

definition scopedAs :: "scope \<Rightarrow> PermissionUpdate list option \<Rightarrow> PermissionUpdate list" where
  "scopedAs sc suggestions =
     filter (\<lambda>u. scopeOfDestination (destination u) = sc) (suggested suggestions)"

definition hasScope :: "scope \<Rightarrow> PermissionUpdate list option \<Rightarrow> bool" where
  "hasScope sc suggestions =
     (\<exists>u \<in> set (suggested suggestions). scopeOfDestination (destination u) = sc)"

text \<open>Concrete suggestion lists.\<close>

definition twoSession :: "PermissionUpdate list" where
  "twoSession =
     [SetModeUpdate (utf16 ''plan'') (utf16 ''session''),
      DirectoriesUpdate (utf16 ''addDirectories'') [utf16 ''/tmp''] (utf16 ''somewhereElse'')]"

definition oneSession :: "PermissionUpdate list" where
  "oneSession = [SetModeUpdate (utf16 ''plan'') (utf16 ''cliArg'')]"

text \<open>The rule synthesised for a tool when the session option has no suggestion to attach.\<close>

definition genericSessionRule :: "jsstring \<Rightarrow> PermissionUpdate" where
  "genericSessionRule t =
     RulesUpdate (utf16 ''addRules'') [\<lparr>toolName = t, ruleContent = None\<rparr>]
       (utf16 ''allow'') (utf16 ''session'')"


subsection \<open>Sequential cost observations\<close>

text \<open>
  A message carries the total \<open>t\<close> when \<open>numberField\<close> finds it under one of the two
  spellings. \<open>processSequentially\<close> is the caller's loop: one context, threaded
  through the calls in order. \<open>expectedDeltas\<close> is the specification's delta rule,
  with the subtraction and the maximum of the source's numbers.
\<close>

definition carriesTotal :: "jsobject \<Rightarrow> real \<Rightarrow> bool" where
  "carriesTotal message t \<longleftrightarrow> numberField message [''total_cost_usd'', ''totalCostUsd''] = Some t"

fun processSequentially ::
  "UsageSessionContext \<Rightarrow> jsobject list \<Rightarrow>
   (unit, unit) SessionUpdate option list \<times> UsageSessionContext" where
  "processSequentially sess [] = ([], sess)"
| "processSequentially sess (message # rest) =
     (case buildUsageUpdateFromResultForSession (Some sess) message of
        (update, Some sess') \<Rightarrow>
          (case processSequentially sess' rest of (results, final) \<Rightarrow> (update # results, final))
      | (update, None) \<Rightarrow>
          (case processSequentially sess rest of (results, final) \<Rightarrow> (update # results, final)))"

fun turnCostOf :: "('tc, 'f) SessionUpdate option \<Rightarrow> jsnumber option" where
  "turnCostOf (Some (usage_update u)) = turn_cost_usd u"
| "turnCostOf _ = None"

fun expectedDeltas :: "jsnumber option \<Rightarrow> real list \<Rightarrow> jsnumber list" where
  "expectedDeltas lastObserved [] = []"
| "expectedDeltas lastObserved (newTotal # rest) =
     (case lastObserved of
        None \<Rightarrow> Finite newTotal
      | Some l \<Rightarrow> mathMax (Finite 0) (jsMinus (Finite newTotal) l))
       # expectedDeltas (Some (Finite newTotal)) rest"

text \<open>
  The doubles that the literals \<open>0.02\<close>, \<open>0.05\<close> and \<open>0.03\<close> denote, and the double
  next above the last one.
\<close>

definition double_0_02 :: real where
  "double_0_02 = 5764607523034235 / 2 ^ 58"

definition double_0_05 :: real where
  "double_0_05 = 7205759403792794 / 2 ^ 57"

definition double_0_03 :: real where
  "double_0_03 = 8646911284551352 / 2 ^ 58"

definition double_above_0_03 :: real where
  "double_above_0_03 = 8646911284551353 / 2 ^ 58"

definition costMessages :: "jsobject list" where
  "costMessages =
     [[(utf16 ''total_cost_usd'', JNum (Finite double_0_02))],
      [(utf16 ''type'', JStr (utf16 ''result'')), (utf16 ''totalCostUsd'', JNum (Finite double_0_05))],
      [(utf16 ''total_cost_usd'', JNum (Finite double_0_03)), (utf16 ''totalCostUsd'', JNum (Finite 7))]]"

text \<open>The largest finite double, and two totals whose difference overflows.\<close>

definition maxDouble :: real where
  "maxDouble = (2 ^ 53 - 1) * 2 ^ 971"

definition overflowMessages :: "jsobject list" where
  "overflowMessages =
     [[(utf16 ''total_cost_usd'', JNum (Finite (- maxDouble)))],
      [(utf16 ''total_cost_usd'', JNum (Finite maxDouble))]]"
subsection \<open>Command contracts\<close>

text \<open>
  A stand-in for \<open>JSON.parse\<close> on a finite table of lines: a line of the table parses
  to the value beside it, any other line is a syntax error.
\<close>

definition tableParse :: "(string \<times> json) list \<Rightarrow> jsstring \<Rightarrow> json option" where
  "tableParse table line = map_of (map (\<lambda>(l, v). (utf16 l, v)) table) line"

text \<open>
  The field contracts of the specification's table, per command: \<open>conforms raw command\<close>
  holds when the envelope \<open>raw\<close> has the command's tag, every required field with its
  type, every optional field absent, null or with its type, and \<open>command\<close> holds
  exactly those values.
\<close>

fun tagOf :: "BridgeCommand \<Rightarrow> jsstring" where
  "tagOf (initialize cwd metadata) = utf16 ''initialize''"
| "tagOf (create_session cwd yolo mdl resume metadata) = utf16 ''create_session''"
| "tagOf (load_session session_id metadata) = utf16 ''load_session''"
| "tagOf (new_session cwd yolo mdl) = utf16 ''new_session''"
| "tagOf (prompt session_id chunks) = utf16 ''prompt''"
| "tagOf (cancel_turn session_id) = utf16 ''cancel_turn''"
| "tagOf (set_model session_id mdl) = utf16 ''set_model''"
| "tagOf (set_mode session_id mode) = utf16 ''set_mode''"
| "tagOf (permission_response session_id tool_call_id outcome) = utf16 ''permission_response''"
| "tagOf shutdown = utf16 ''shutdown''"

definition commandTags :: "jsstring list" where
  "commandTags =
     [utf16 ''initialize'', utf16 ''create_session'', utf16 ''load_session'', utf16 ''new_session'',
      utf16 ''prompt'', utf16 ''cancel_turn'', utf16 ''set_model'', utf16 ''set_mode'',
      utf16 ''permission_response'', utf16 ''shutdown'']"

definition hasString :: "jsobject \<Rightarrow> string \<Rightarrow> jsstring \<Rightarrow> bool" where
  "hasString rcd key s \<longleftrightarrow> get rcd key = Some (JStr s)"

definition hasBoolean :: "jsobject \<Rightarrow> string \<Rightarrow> bool \<Rightarrow> bool" where
  "hasBoolean rcd key b \<longleftrightarrow> get rcd key = Some (JBool b)"

definition hasOptionalString :: "jsobject \<Rightarrow> string \<Rightarrow> jsstring option \<Rightarrow> bool" where
  "hasOptionalString rcd key v \<longleftrightarrow>
     (case get rcd key of
        None \<Rightarrow> v = None
      | Some JNull \<Rightarrow> v = None
      | Some (JStr s) \<Rightarrow> v = Some s
      | _ \<Rightarrow> False)"

definition hasOptionalObject :: "jsobject \<Rightarrow> string \<Rightarrow> jsobject \<Rightarrow> bool" where
  "hasOptionalObject rcd key v \<longleftrightarrow>
     (case get rcd key of
        None \<Rightarrow> v = []
      | Some JNull \<Rightarrow> v = []
      | Some (JObj obj) \<Rightarrow> v = obj
      | _ \<Rightarrow> False)"

definition chunkConforms :: "json \<Rightarrow> PromptChunk \<Rightarrow> bool" where
  "chunkConforms raw chunk \<longleftrightarrow>
     (case raw of
        JObj obj \<Rightarrow>
          hasString obj ''kind'' (kind_of chunk)
          \<and> value_of chunk = (case get obj ''value'' of None \<Rightarrow> JNull | Some v \<Rightarrow> v)
      | _ \<Rightarrow> False)"

definition outcomeConforms :: "jsobject \<Rightarrow> PermissionOutcome \<Rightarrow> bool" where
  "outcomeConforms rcd outcome \<longleftrightarrow>
     (case get rcd ''outcome'' of
        Some (JObj obj) \<Rightarrow>
          (case outcome of
             Selected option \<Rightarrow>
               hasString obj ''outcome'' (utf16 ''selected'') \<and> hasString obj ''option_id'' option
           | Cancelled \<Rightarrow> hasString obj ''outcome'' (utf16 ''cancelled''))
      | _ \<Rightarrow> False)"

fun fieldsConform :: "jsobject \<Rightarrow> BridgeCommand \<Rightarrow> bool" where
  "fieldsConform raw (initialize cwd metadata) \<longleftrightarrow>
     hasString raw ''cwd'' cwd \<and> hasOptionalObject raw ''metadata'' metadata"
| "fieldsConform raw (create_session cwd yolo mdl resume metadata) \<longleftrightarrow>
     hasString raw ''cwd'' cwd \<and> hasBoolean raw ''yolo'' yolo
     \<and> hasOptionalString raw ''model'' mdl \<and> hasOptionalString raw ''resume'' resume
     \<and> hasOptionalObject raw ''metadata'' metadata"
| "fieldsConform raw (load_session session_id metadata) \<longleftrightarrow>
     hasString raw ''session_id'' session_id \<and> hasOptionalObject raw ''metadata'' metadata"
| "fieldsConform raw (new_session cwd yolo mdl) \<longleftrightarrow>
     hasString raw ''cwd'' cwd \<and> hasBoolean raw ''yolo'' yolo \<and> hasOptionalString raw ''model'' mdl"
| "fieldsConform raw (prompt session_id chunks) \<longleftrightarrow>
     hasString raw ''session_id'' session_id
     \<and> (case get raw ''chunks'' of
          Some (JArr rawChunks) \<Rightarrow> list_all2 chunkConforms rawChunks chunks
        | _ \<Rightarrow> False)"
| "fieldsConform raw (cancel_turn session_id) \<longleftrightarrow> hasString raw ''session_id'' session_id"
| "fieldsConform raw (set_model session_id mdl) \<longleftrightarrow>
     hasString raw ''session_id'' session_id \<and> hasString raw ''model'' mdl"
| "fieldsConform raw (set_mode session_id mode) \<longleftrightarrow>
     hasString raw ''session_id'' session_id \<and> hasString raw ''mode'' mode"
| "fieldsConform raw (permission_response session_id tool_call_id outcome) \<longleftrightarrow>
     hasString raw ''session_id'' session_id \<and> hasString raw ''tool_call_id'' tool_call_id
     \<and> outcomeConforms raw outcome"
| "fieldsConform raw shutdown \<longleftrightarrow> True"

definition conforms :: "jsobject \<Rightarrow> BridgeCommand \<Rightarrow> bool" where
  "conforms raw command \<longleftrightarrow> hasString raw ''command'' (tagOf command) \<and> fieldsConform raw command"

definition requestIdOf :: "jsobject \<Rightarrow> jsstring option" where
  "requestIdOf raw = (case get raw ''request_id'' of Some (JStr s) \<Rightarrow> Some s | _ \<Rightarrow> None)"

text \<open>
  The violations of a command's contract, in the order in which the parser validates
  the fields. A field violation has the path of the field and what the contract
  requires of it; its message is the path followed by the requirement, as in
  \<open>prompt.chunks must be an array\<close>. The elements of \<open>chunks\<close> have the paths
  \<open>prompt.chunks[0]\<close>, \<open>prompt.chunks[1]\<close>, and so on; the fields of the outcome of a
  permission response have paths under \<open>permission_response.outcome\<close>, and are
  validated before the other two fields. A \<open>metadata\<close> that is present, not null and
  not an object is a violation for which no message is specified here.
\<close>

datatype requirement =
    a_string
  | a_boolean
  | a_string_when_provided
  | an_object
  | an_array
  | selected_or_cancelled

fun requirementText :: "requirement \<Rightarrow> jsstring" where
  "requirementText a_string = utf16 '' must be a string''"
| "requirementText a_boolean = utf16 '' must be a boolean''"
| "requirementText a_string_when_provided = utf16 '' must be a string when provided''"
| "requirementText an_object = utf16 '' must be an object''"
| "requirementText an_array = utf16 '' must be an array''"
| "requirementText selected_or_cancelled =
     utf16 '' must be '' @ apostrophe @ utf16 ''selected'' @ apostrophe @ utf16 '' or ''
       @ apostrophe @ utf16 ''cancelled'' @ apostrophe"

datatype violation = FieldViolation jsstring requirement | MetadataViolation

definition fieldPath :: "jsstring \<Rightarrow> string \<Rightarrow> jsstring" where
  "fieldPath ctx key = ctx @ utf16 ''.'' @ utf16 key"

definition chunkPath :: "jsstring \<Rightarrow> nat \<Rightarrow> jsstring" where
  "chunkPath ctx index = ctx @ utf16 ''.chunks['' @ utf16 (decimal index) @ utf16 '']''"

definition stringViolations :: "jsobject \<Rightarrow> jsstring \<Rightarrow> string \<Rightarrow> violation list" where
  "stringViolations rcd ctx key =
     (case get rcd key of
        Some (JStr s) \<Rightarrow> []
      | _ \<Rightarrow> [FieldViolation (fieldPath ctx key) a_string])"

definition booleanViolations :: "jsobject \<Rightarrow> jsstring \<Rightarrow> string \<Rightarrow> violation list" where
  "booleanViolations rcd ctx key =
     (case get rcd key of
        Some (JBool b) \<Rightarrow> []
      | _ \<Rightarrow> [FieldViolation (fieldPath ctx key) a_boolean])"

definition optionalStringViolations :: "jsobject \<Rightarrow> jsstring \<Rightarrow> string \<Rightarrow> violation list" where
  "optionalStringViolations rcd ctx key =
     (case get rcd key of
        None \<Rightarrow> []
      | Some JNull \<Rightarrow> []
      | Some (JStr s) \<Rightarrow> []
      | _ \<Rightarrow> [FieldViolation (fieldPath ctx key) a_string_when_provided])"

definition metadataViolations :: "jsobject \<Rightarrow> violation list" where
  "metadataViolations rcd =
     (case get rcd ''metadata'' of
        None \<Rightarrow> []
      | Some JNull \<Rightarrow> []
      | Some (JObj obj) \<Rightarrow> []
      | _ \<Rightarrow> [MetadataViolation])"

definition chunkViolations :: "jsstring \<Rightarrow> nat \<Rightarrow> json \<Rightarrow> violation list" where
  "chunkViolations ctx index chunk =
     (case chunk of
        JObj obj \<Rightarrow> stringViolations obj (chunkPath ctx index) ''kind''
      | _ \<Rightarrow> [FieldViolation (chunkPath ctx index) an_object])"

fun chunkViolationsFrom :: "jsstring \<Rightarrow> nat \<Rightarrow> json list \<Rightarrow> violation list" where
  "chunkViolationsFrom ctx index [] = []"
| "chunkViolationsFrom ctx index (chunk # rest) =
     chunkViolations ctx index chunk @ chunkViolationsFrom ctx (Suc index) rest"

definition chunksViolations :: "jsobject \<Rightarrow> jsstring \<Rightarrow> violation list" where
  "chunksViolations rcd ctx =
     (case get rcd ''chunks'' of
        Some (JArr rawChunks) \<Rightarrow> chunkViolationsFrom ctx 0 rawChunks
      | _ \<Rightarrow> [FieldViolation (fieldPath ctx ''chunks'') an_array])"

definition outcomeViolations :: "jsobject \<Rightarrow> jsstring \<Rightarrow> violation list" where
  "outcomeViolations rcd ctx =
     (case get rcd ''outcome'' of
        Some (JObj obj) \<Rightarrow>
          (case get obj ''outcome'' of
             Some (JStr outcomeType) \<Rightarrow>
               if outcomeType = utf16 ''selected''
               then stringViolations obj (fieldPath ctx ''outcome'') ''option_id''
               else if outcomeType = utf16 ''cancelled'' then []
               else [FieldViolation (fieldPath (fieldPath ctx ''outcome'') ''outcome'')
                       selected_or_cancelled]
           | _ \<Rightarrow> [FieldViolation (fieldPath (fieldPath ctx ''outcome'') ''outcome'') a_string])
      | _ \<Rightarrow> [FieldViolation (fieldPath ctx ''outcome'') an_object])"

definition violations :: "jsobject \<Rightarrow> jsstring \<Rightarrow> violation list" where
  "violations raw commandName =
     (if commandName = utf16 ''initialize'' then
        stringViolations raw commandName ''cwd'' @ metadataViolations raw
      else if commandName = utf16 ''create_session'' then
        stringViolations raw commandName ''cwd'' @ booleanViolations raw commandName ''yolo''
        @ optionalStringViolations raw commandName ''model''
        @ optionalStringViolations raw commandName ''resume'' @ metadataViolations raw
      else if commandName = utf16 ''load_session'' then
        stringViolations raw commandName ''session_id'' @ metadataViolations raw
      else if commandName = utf16 ''new_session'' then
        stringViolations raw commandName ''cwd'' @ booleanViolations raw commandName ''yolo''
        @ optionalStringViolations raw commandName ''model''
      else if commandName = utf16 ''prompt'' then
        stringViolations raw commandName ''session_id'' @ chunksViolations raw commandName
      else if commandName = utf16 ''cancel_turn'' then
        stringViolations raw commandName ''session_id''
      else if commandName = utf16 ''set_model'' then
        stringViolations raw commandName ''session_id'' @ stringViolations raw commandName ''model''
      else if commandName = utf16 ''set_mode'' then
        stringViolations raw commandName ''session_id'' @ stringViolations raw commandName ''mode''
      else if commandName = utf16 ''permission_response'' then
        outcomeViolations raw commandName @ stringViolations raw commandName ''session_id''
        @ stringViolations raw commandName ''tool_call_id''
      else [])"

text \<open>
  A result reports the first of a list of violations when it is a success for the
  empty list, the error with the message of the first violation when that is a
  field violation, and a failure when it is a metadata violation.
\<close>

fun reportsFirst :: "error + 'a \<Rightarrow> violation list \<Rightarrow> bool" where
  "reportsFirst result [] \<longleftrightarrow> \<not> isl result"
| "reportsFirst result (FieldViolation path required # further) \<longleftrightarrow>
     result = Inl (Error (path @ requirementText required))"
| "reportsFirst result (MetadataViolation # further) \<longleftrightarrow> isl result"

text \<open>Concrete lines and the values \<open>JSON.parse\<close> gives for them.\<close>

definition promptLine :: string where
  \<open>promptLine =
     ''{"request_id":"r1","command":"prompt","session_id":"s1","chunks":[{"kind":"text","value":"hi"}]}''\<close>

definition promptWithoutChunksLine :: string where
  \<open>promptWithoutChunksLine = ''{"command":"prompt","session_id":"s1"}''\<close>

definition restartLine :: string where
  \<open>restartLine = ''{"command":"restart"}''\<close>

definition badMetadataLine :: string where
  \<open>badMetadataLine = ''{"command":"initialize","cwd":"/w","metadata":5}''\<close>

definition twoViolationsLine :: string where
  \<open>twoViolationsLine = ''{"command":"create_session","cwd":"/w","yolo":"yes","model":5}''\<close>

definition badChunkLine :: string where
  \<open>badChunkLine = ''{"command":"prompt","session_id":"s1","chunks":[{"kind":"text"},{"value":1}]}''\<close>

definition violationLines :: "(string \<times> json) list" where
  "violationLines =
     [(twoViolationsLine,
       JObj [(utf16 ''command'', JStr (utf16 ''create_session'')), (utf16 ''cwd'', JStr (utf16 ''/w'')),
             (utf16 ''yolo'', JStr (utf16 ''yes'')), (utf16 ''model'', JNum (Finite 5))]),
      (badChunkLine,
       JObj [(utf16 ''command'', JStr (utf16 ''prompt'')), (utf16 ''session_id'', JStr (utf16 ''s1'')),
             (utf16 ''chunks'', JArr [JObj [(utf16 ''kind'', JStr (utf16 ''text''))],
                                      JObj [(utf16 ''value'', JNum (Finite 1))]])])]"

definition numericRequestIdLine :: string where
  \<open>numericRequestIdLine = ''{"request_id":7,"command":"cancel_turn","session_id":"s1"}''\<close>

definition envelopeLines :: "(string \<times> json) list" where
  "envelopeLines =
     [(promptLine,
       JObj [(utf16 ''request_id'', JStr (utf16 ''r1'')), (utf16 ''command'', JStr (utf16 ''prompt'')),
             (utf16 ''session_id'', JStr (utf16 ''s1'')),
             (utf16 ''chunks'', JArr [JObj [(utf16 ''kind'', JStr (utf16 ''text'')),
                                            (utf16 ''value'', JStr (utf16 ''hi''))]])]),
      (promptWithoutChunksLine,
       JObj [(utf16 ''command'', JStr (utf16 ''prompt'')), (utf16 ''session_id'', JStr (utf16 ''s1''))]),
      (restartLine,
       JObj [(utf16 ''command'', JStr (utf16 ''restart''))]),
      (badMetadataLine,
       JObj [(utf16 ''command'', JStr (utf16 ''initialize'')), (utf16 ''cwd'', JStr (utf16 ''/w'')),
             (utf16 ''metadata'', JNum (Finite 5))]),
      (numericRequestIdLine,
       JObj [(utf16 ''request_id'', JNum (Finite 7)), (utf16 ''command'', JStr (utf16 ''cancel_turn'')),
             (utf16 ''session_id'', JStr (utf16 ''s1''))]),
      (''[]'', JArr [])]"

subsection \<open>Titles\<close>

text \<open>
  \<open>cleanedTexts\<close> lists the cleaned texts of the text blocks of a content array, the
  empty ones left out: joined by single spaces they are the running concatenation
  of the title. \<open>userContent\<close> is the content array of a record the title is derived
  from: a record of type \<open>user\<close> whose message has the role \<open>user\<close> and an array as
  content.
\<close>

fun cleanedTexts :: "json list \<Rightarrow> jsstring list" where
  "cleanedTexts [] = []"
| "cleanedTexts (item # items) =
     (case item of
        JObj block \<Rightarrow>
          (case (get block ''type'', get block ''text'') of
             (Some (JStr ty), Some (JStr blockText)) \<Rightarrow>
               if ty = utf16 ''text'' \<and> normalizeUserPromptText blockText \<noteq> []
               then normalizeUserPromptText blockText # cleanedTexts items
               else cleanedTexts items
           | _ \<Rightarrow> cleanedTexts items)
      | _ \<Rightarrow> cleanedTexts items)"

definition userContent :: "jsobject \<Rightarrow> json list option" where
  "userContent rcd =
     (case (get rcd ''type'', get rcd ''message'') of
        (Some (JStr ty), Some (JObj message)) \<Rightarrow>
          (case (get message ''role'', get message ''content'') of
             (Some (JStr role), Some (JArr blocks)) \<Rightarrow>
               if ty = utf16 ''user'' \<and> role = utf16 ''user'' then Some blocks else None
           | _ \<Rightarrow> None)
      | _ \<Rightarrow> None)"

text \<open>A title, when there is one, has at most 180 code points.\<close>

definition bounded :: "jsstring option \<Rightarrow> bool" where
  "bounded v \<longleftrightarrow> (case v of None \<Rightarrow> True | Some t \<Rightarrow> length (arrayFrom t) \<le> 180)"

text \<open>
  A text block, a user record with given content, and a text of 181 code points in
  182 code units: 179 letters, one character outside the basic plane, one letter.
\<close>

definition textBlock :: "jsstring \<Rightarrow> json" where
  "textBlock t = JObj [(utf16 ''type'', JStr (utf16 ''text'')), (utf16 ''text'', JStr t)]"

definition userRecord :: "json list \<Rightarrow> jsobject" where
  "userRecord blocks =
     [(utf16 ''type'', JStr (utf16 ''user'')),
      (utf16 ''message'', JObj [(utf16 ''role'', JStr (utf16 ''user'')), (utf16 ''content'', JArr blocks)])]"

definition longText :: jsstring where
  "longText = replicate 179 0x0061 @ [0xD83D, 0xDE00] @ utf16 ''b''"

text \<open>A code unit that none of the three replacements of the cleaning acts on.\<close>

definition plainUnit :: "16 word \<Rightarrow> bool" where
  "plainUnit u \<longleftrightarrow> u \<noteq> 0x003C \<and> u \<noteq> 0x005B \<and> \<not> isWhiteSpace u"

subsection \<open>Replay\<close>

text \<open>
  A line is kept when, trimmed, it is not blank and parses to an object; every other
  line is blank or malformed. \<open>withoutMalformedLines\<close> is the log with exactly the
  kept lines, in their order, one per line.
\<close>

definition keptLine :: "(jsstring \<Rightarrow> json option) \<Rightarrow> jsstring \<Rightarrow> bool" where
  "keptLine JSON_parse rawLine \<longleftrightarrow>
     trim rawLine \<noteq> []
     \<and> (case JSON_parse (trim rawLine) of Some (JObj rcd) \<Rightarrow> True | _ \<Rightarrow> False)"

definition withoutMalformedLines :: "(jsstring \<Rightarrow> json option) \<Rightarrow> jsstring \<Rightarrow> jsstring" where
  "withoutMalformedLines JSON_parse fileText =
     joinWith [0x000A] (filter (keptLine JSON_parse) (splitLines fileText))"

text \<open>
  A stand-in for \<open>tooling.ts\<close>, to run the replay on concrete logs: a tool call with
  an id, a title and an input, created as pending; result fields with the status
  \<open>failed\<close> or \<open>completed\<close> and the result content as raw output.
\<close>

record SampleToolCall = ToolCall +
  call_id :: jsstring
  call_title :: jsstring
  call_input :: jsobject

definition sampleTooling :: "(unit SampleToolCall_ext, unit) Tooling" where
  "sampleTooling =
     \<lparr>isToolUseBlockType = (\<lambda>blockType. blockType = utf16 ''tool_use''),
      TOOL_RESULT_TYPES = {utf16 ''tool_result''},
      createToolCall = (\<lambda>toolUseId toolName input.
        \<lparr>status = utf16 ''pending'', raw_output = None, content = None,
         call_id = toolUseId, call_title = toolName, call_input = input\<rparr>),
      buildToolResultFields = (\<lambda>isError resultContent base.
        \<lparr>update_status = Some (if isError then utf16 ''failed'' else utf16 ''completed''),
         update_raw_output = resultContent, update_content = None\<rparr>)\<rparr>"

text \<open>
  A log of six lines: an assistant message with a text and a tool use, a truncated
  line, a blank line, a line that is an array, the tool result, and a second
  message with the identifier of the first. Then the same log without the three
  lines in the middle, and the updates the replay returns for both.
\<close>

definition assistantLine :: string where
  \<open>assistantLine =
     ''{"message":{"role":"assistant","id":"m1","content":[{"type":"text","text":"hello"},{"type":"tool_use","id":"t1","name":"Bash"}],"usage":{"input_tokens":3}}}''\<close>

definition assistantRecord :: json where
  "assistantRecord =
     JObj [(utf16 ''message'', JObj
       [(utf16 ''role'', JStr (utf16 ''assistant'')), (utf16 ''id'', JStr (utf16 ''m1'')),
        (utf16 ''content'', JArr
          [JObj [(utf16 ''type'', JStr (utf16 ''text'')), (utf16 ''text'', JStr (utf16 ''hello''))],
           JObj [(utf16 ''type'', JStr (utf16 ''tool_use'')), (utf16 ''id'', JStr (utf16 ''t1'')),
                 (utf16 ''name'', JStr (utf16 ''Bash''))]]),
        (utf16 ''usage'', JObj [(utf16 ''input_tokens'', JNum (Finite 3))])])]"

definition toolResultLine :: string where
  \<open>toolResultLine =
     ''{"message":{"role":"user","content":[{"type":"tool_result","tool_use_id":"t1","content":"ok"}]}}''\<close>

definition toolResultRecord :: json where
  "toolResultRecord =
     JObj [(utf16 ''message'', JObj
       [(utf16 ''role'', JStr (utf16 ''user'')),
        (utf16 ''content'', JArr
          [JObj [(utf16 ''type'', JStr (utf16 ''tool_result'')),
                 (utf16 ''tool_use_id'', JStr (utf16 ''t1'')),
                 (utf16 ''content'', JStr (utf16 ''ok''))]])])]"

definition repeatedLine :: string where
  \<open>repeatedLine =
     ''{"message":{"role":"assistant","id":"m1","content":[],"usage":{"input_tokens":3}}}''\<close>

definition repeatedRecord :: json where
  "repeatedRecord =
     JObj [(utf16 ''message'', JObj
       [(utf16 ''role'', JStr (utf16 ''assistant'')), (utf16 ''id'', JStr (utf16 ''m1'')),
        (utf16 ''content'', JArr []),
        (utf16 ''usage'', JObj [(utf16 ''input_tokens'', JNum (Finite 3))])])]"

definition logLines :: "(string \<times> json) list" where
  "logLines =
     [(assistantLine, assistantRecord), (toolResultLine, toolResultRecord),
      (repeatedLine, repeatedRecord), (''[1]'', JArr [JNum (Finite 1)])]"

definition truncatedLine :: string where
  \<open>truncatedLine = ''{"message":''\<close>

definition sampleLog :: jsstring where
  "sampleLog =
     utf16 assistantLine @ [0x000D, 0x000A] @ utf16 truncatedLine @ [0x000A] @ utf16 ''  '' @ [0x000A]
     @ utf16 ''[1]'' @ [0x000A] @ utf16 toolResultLine @ [0x000A] @ utf16 repeatedLine @ [0x000A]"

definition cleanedLog :: jsstring where
  "cleanedLog = utf16 assistantLine @ [0x000A] @ utf16 toolResultLine @ [0x000A] @ utf16 repeatedLine"

definition sampleFiles :: "jsstring \<Rightarrow> jsstring option" where
  "sampleFiles filePath =
     (if filePath = utf16 ''a.jsonl'' then Some sampleLog
      else if filePath = utf16 ''b.jsonl'' then Some cleanedLog
      else None)"

definition sampleUpdates :: "(SampleToolCall, ToolCallUpdateFields) SessionUpdate list" where
  "sampleUpdates =
     [agent_message_chunk (utf16 ''hello''),
      tool_call \<lparr>status = utf16 ''completed'', raw_output = Some (JStr (utf16 ''ok'')), content = None,
                 call_id = utf16 ''t1'', call_title = utf16 ''Bash'', call_input = []\<rparr>,
      usage_update \<lparr>input_tokens = Some 3, output_tokens = None, cache_read_tokens = None,
                    cache_write_tokens = None, total_cost_usd = None, turn_cost_usd = None,
                    context_window = None, max_output_tokens = None\<rparr>,
      tool_call_update (utf16 ''t1'')
        \<lparr>update_status = Some (utf16 ''completed''), update_raw_output = Some (JStr (utf16 ''ok'')),
         update_content = None\<rparr>]"

text \<open>
  The messages a replay processes, in order, and the usage updates it pushes, each
  with the identifier of the message whose usage step pushed it (the empty string
  for a message without one): \<open>usageOfMessage\<close> reads what
  \<open>pushResumeUsageUpdate\<close> appended for one message.
\<close>

definition messageIdOf :: "jsobject \<Rightarrow> jsstring" where
  "messageIdOf message = (case get message ''id'' of Some (JStr s) \<Rightarrow> s | _ \<Rightarrow> [])"

definition messagesOfLine :: "(jsstring \<Rightarrow> json option) \<Rightarrow> jsstring \<Rightarrow> jsobject list" where
  "messagesOfLine JSON_parse rawLine =
     (let line = trim rawLine in
      if length line = 0 then []
      else
        (case JSON_parse line of
           Some (JObj rcd) \<Rightarrow> persistedMessageCandidates rcd
         | _ \<Rightarrow> []))"

definition replayedMessages :: "(jsstring \<Rightarrow> json option) \<Rightarrow> jsstring \<Rightarrow> jsobject list" where
  "replayedMessages JSON_parse fileText =
     concat (map (messagesOfLine JSON_parse) (splitLines fileText))"

fun usagesOf :: "('tc, 'f) SessionUpdate list \<Rightarrow> Usage list" where
  "usagesOf [] = []"
| "usagesOf (usage_update u # rest) = u # usagesOf rest"
| "usagesOf (other # rest) = usagesOf rest"

definition usageOfMessage ::
  "('z, 'y) Tooling \<Rightarrow> ('z, 'y) ReplayState \<Rightarrow> jsobject \<Rightarrow> (jsstring \<times> Usage) list" where
  "usageOfMessage T st message =
     (case get message ''role'' of
        Some (JStr role) \<Rightarrow>
          if role \<noteq> utf16 ''user'' \<and> role \<noteq> utf16 ''assistant'' then []
          else
            (let before = processBlocks T role st message;
                 after = pushResumeUsageUpdate before message
             in map (\<lambda>u. (messageIdOf message, u))
                  (usagesOf (drop (length (updates before)) (updates after))))
      | _ \<Rightarrow> [])"

fun usageOfMessages ::
  "('z, 'y) Tooling \<Rightarrow> ('z, 'y) ReplayState \<Rightarrow> jsobject list \<Rightarrow> (jsstring \<times> Usage) list" where
  "usageOfMessages T st [] = []"
| "usageOfMessages T st (message # rest) =
     usageOfMessage T st message @ usageOfMessages T (processMessage T st message) rest"

definition usageAttribution ::
  "('z, 'y) Tooling \<Rightarrow> (jsstring \<Rightarrow> json option) \<Rightarrow> jsstring \<Rightarrow> (jsstring \<times> Usage) list" where
  "usageAttribution T JSON_parse fileText =
     usageOfMessages T initialReplayState (replayedMessages JSON_parse fileText)"

definition attributedTo :: "jsstring \<Rightarrow> (jsstring \<times> Usage) list \<Rightarrow> Usage list" where
  "attributedTo messageId attribution = map snd (filter (\<lambda>p. fst p = messageId) attribution)"

definition hasReplayRole :: "jsobject \<Rightarrow> bool" where
  "hasReplayRole message \<longleftrightarrow>
     get message ''role'' = Some (JStr (utf16 ''user''))
     \<or> get message ''role'' = Some (JStr (utf16 ''assistant''))"

text \<open>
  The usage a message carries on its own, whatever was replayed before it, and the
  usages carried by the replayed messages that have no identifier: the \<open>id\<close> is
  missing, not a string, or the empty string.
\<close>

definition usageCarried :: "jsobject \<Rightarrow> Usage list" where
  "usageCarried message =
     usagesOf (case (buildUsageUpdateFromResult message :: (unit, unit) SessionUpdate option) of
                 None \<Rightarrow> []
               | Some usageUpdate \<Rightarrow> [usageUpdate])"

definition unidentifiedUsages :: "jsobject list \<Rightarrow> Usage list" where
  "unidentifiedUsages messages =
     concat (map usageCarried
       (filter (\<lambda>message. hasReplayRole message \<and> messageIdOf message = []) messages))"

text \<open>A log of two lines whose messages both have the empty string as identifier.\<close>

definition threeTokens :: Usage where
  "threeTokens =
     \<lparr>input_tokens = Some 3, output_tokens = None, cache_read_tokens = None,
      cache_write_tokens = None, total_cost_usd = None, turn_cost_usd = None,
      context_window = None, max_output_tokens = None\<rparr>"

definition emptyIdLine :: string where
  \<open>emptyIdLine = ''{"message":{"role":"assistant","id":"","content":[],"usage":{"input_tokens":3}}}''\<close>

definition emptyIdRecord :: json where
  "emptyIdRecord =
     JObj [(utf16 ''message'', JObj
       [(utf16 ''role'', JStr (utf16 ''assistant'')), (utf16 ''id'', JStr []),
        (utf16 ''content'', JArr []),
        (utf16 ''usage'', JObj [(utf16 ''input_tokens'', JNum (Finite 3))])])]"

definition emptyIdLog :: jsstring where
  "emptyIdLog = utf16 emptyIdLine @ [0x000A] @ utf16 emptyIdLine @ [0x000A]"

definition emptyIdFiles :: "jsstring \<Rightarrow> jsstring option" where
  "emptyIdFiles filePath = (if filePath = utf16 ''c.jsonl'' then Some emptyIdLog else None)"

text \<open>
  The identifier a tool-result block refers to (empty when it has none), the call
  stored for an identifier, the fields built for a block, and when the loop over
  the blocks reaches \<open>pushResumeToolResult\<close> for a block: its type is a tool-result
  type and no earlier branch of the loop body takes it.
\<close>

definition toolUseIdOf :: "jsobject \<Rightarrow> jsstring" where
  "toolUseIdOf block = (case get block ''tool_use_id'' of Some (JStr s) \<Rightarrow> s | _ \<Rightarrow> [])"

definition blockTypeOf :: "jsobject \<Rightarrow> jsstring" where
  "blockTypeOf block = (case get block ''type'' of Some (JStr s) \<Rightarrow> s | _ \<Rightarrow> [])"

definition storedCall :: "('z, 'y) ReplayState \<Rightarrow> jsstring \<Rightarrow> 'z ToolCall_scheme option" where
  "storedCall st toolUseId = map_option (\<lambda>ref. objects st ! ref) (toolCalls st toolUseId)"

definition resultFieldsFor ::
  "('z, 'y) Tooling \<Rightarrow> ('z, 'y) ReplayState \<Rightarrow> jsobject \<Rightarrow> 'y ToolCallUpdateFields_scheme" where
  "resultFieldsFor T st block =
     buildToolResultFields T (truthy (get block ''is_error'')) (get block ''content'')
       (storedCall st (toolUseIdOf block))"

definition reachesToolResult :: "('z, 'y) Tooling \<Rightarrow> jsstring \<Rightarrow> jsobject \<Rightarrow> bool" where
  "reachesToolResult T role block \<longleftrightarrow>
     blockTypeOf block \<in> TOOL_RESULT_TYPES T
     \<and> blockTypeOf block \<noteq> utf16 ''thinking''
     \<and> \<not> (blockTypeOf block = utf16 ''text''
           \<and> (case get block ''text'' of Some (JStr s) \<Rightarrow> True | _ \<Rightarrow> False))
     \<and> \<not> (isToolUseBlockType T (blockTypeOf block) \<and> role = utf16 ''assistant'')"

text \<open>
  A tool use, its result, a result for a call that was never opened, a result
  without \<open>tool_use_id\<close>, and the state after the tool use.
\<close>

definition toolUseBlock :: jsobject where
  "toolUseBlock =
     [(utf16 ''type'', JStr (utf16 ''tool_use'')), (utf16 ''id'', JStr (utf16 ''t1'')),
      (utf16 ''name'', JStr (utf16 ''Bash''))]"

definition resultBlock :: jsobject where
  "resultBlock =
     [(utf16 ''type'', JStr (utf16 ''tool_result'')), (utf16 ''tool_use_id'', JStr (utf16 ''t1'')),
      (utf16 ''content'', JStr (utf16 ''ok''))]"

definition orphanResultBlock :: jsobject where
  "orphanResultBlock =
     [(utf16 ''type'', JStr (utf16 ''tool_result'')), (utf16 ''tool_use_id'', JStr (utf16 ''t9'')),
      (utf16 ''is_error'', JBool True), (utf16 ''content'', JStr (utf16 ''gone''))]"

definition unnamedResultBlock :: jsobject where
  "unnamedResultBlock =
     [(utf16 ''type'', JStr (utf16 ''tool_result'')), (utf16 ''content'', JStr (utf16 ''ok''))]"

definition openedState :: "(unit SampleToolCall_ext, unit) ReplayState" where
  "openedState = pushResumeToolUse sampleTooling initialReplayState toolUseBlock"

section \<open>Facts about strings\<close>

lemma unat_of_char_word16: "unat (of_char c :: 16 word) = of_char c"
proof -
  have "(of_char c :: nat) < 256"
    by (rule nat_of_char_less_256)
  then have "(of_char c :: nat) < 65536"
    by (rule less_trans) simp
  then have "(of_char c :: nat) < 2 ^ LENGTH(16)"
    by simp
  then have "unat (of_nat (of_char c) :: 16 word) = of_char c"
    by (simp only: unat_of_nat) simp
  then show ?thesis
    by (simp add: of_nat_of_char)
qed

lemma inj_of_char_word16: "inj (of_char :: char \<Rightarrow> 16 word)"
proof (rule injI)
  fix c d :: char
  assume "(of_char c :: 16 word) = of_char d"
  then have "unat (of_char c :: 16 word) = unat (of_char d :: 16 word)"
    by simp
  then have "(of_char c :: nat) = of_char d"
    by (simp only: unat_of_char_word16)
  then show "c = d"
    by simp
qed

lemma utf16_eq_iff [simp]: "utf16 a = utf16 b \<longleftrightarrow> a = b"
  unfolding utf16_def by (simp add: inj_map_eq_map inj_of_char_word16)

lemma utf16_Nil [simp]: "utf16 [] = []"
  by (simp add: utf16_def)

lemma utf16_eq_Nil [simp]: "utf16 s = [] \<longleftrightarrow> s = []"
  by (simp add: utf16_def)

lemma Nil_eq_utf16 [simp]: "[] = utf16 s \<longleftrightarrow> s = []"
  by (auto simp add: utf16_def)


section \<open>Double arithmetic: properties\<close>

lemma quantum_below: "y < 2 ^ 53 \<Longrightarrow> quantum fuel y q = (y, q)"
  by (cases fuel) simp_all

lemma quantum_scale:
  "2 ^ 52 \<le> y \<Longrightarrow> y < 2 ^ 53 \<Longrightarrow> n \<le> fuel \<Longrightarrow> quantum fuel (y * 2 ^ n) q = (y, q + int n)"
proof (induction n arbitrary: fuel q)
  case 0
  then show ?case by (simp add: quantum_below)
next
  case (Suc n)
  then obtain f where f: "fuel = Suc f" "n \<le> f"
    by (cases fuel) simp_all
  have "\<not> y * 2 ^ Suc n < 2 ^ 53"
  proof -
    have "(2::real) ^ 53 = 2 ^ 52 * 2" by simp
    also have "\<dots> \<le> y * 2" using Suc.prems(1) by simp
    also have "\<dots> \<le> y * 2 ^ Suc n"
      using Suc.prems(1) by (simp add: mult_left_mono self_le_power)
    finally show ?thesis by simp
  qed
  then show ?case
    using Suc.IH [of f "q + 1"] Suc.prems f by simp
qed

lemma quantum_nonneg: "0 \<le> y \<Longrightarrow> 0 \<le> fst (quantum fuel y q)"
  by (induction fuel y q rule: quantum.induct) simp_all

lemma roundHalfEven_nonneg: "0 \<le> y \<Longrightarrow> 0 \<le> roundHalfEven y"
  by (simp add: roundHalfEven_def Let_def)

lemma roundHalfEven_of_int: "roundHalfEven (of_int m) = m"
  by (simp add: roundHalfEven_def Let_def)

lemma roundHalfEven_numeral: "roundHalfEven (numeral m) = numeral m"
  using roundHalfEven_of_int [of "numeral m"] by simp

lemma roundHalfEven_le: "y < 2 ^ 53 \<Longrightarrow> roundHalfEven y \<le> 2 ^ 53"
proof -
  assume "y < 2 ^ 53"
  then have "y < of_int (2 ^ 53)" by simp
  then have "\<lfloor>y\<rfloor> < 2 ^ 53" by (simp only: floor_less_iff)
  then show ?thesis
    by (simp add: roundHalfEven_def Let_def)
qed

text \<open>
  A magnitude \<open>y * 2 ^ q\<close> with \<open>2 ^ 52 \<le> y < 2 ^ 53\<close> rounds at the unit \<open>2 ^ q\<close>.
\<close>

lemma roundToDouble_scaled:
  assumes "2 ^ 52 \<le> y" "y < 2 ^ 53" "n \<le> 2046"
  shows "roundToDouble (y * 2 powi (int n - 1074)) =
     (let r = of_int (roundHalfEven y) * 2 powi (int n - 1074) in
      if r \<ge> 2 ^ 1024 then PosInfinity else Finite r)"
proof -
  define x where "x = y * 2 powi (int n - 1074)"
  have pos: "0 < y"
    using assms(1) by (rule less_le_trans [rotated]) (rule zero_less_power, simp)
  have x: "0 < x"
    unfolding x_def using pos by (intro mult_pos_pos zero_less_power_int) simp_all
  have "(2::real) powi (int n - 1074) * 2 ^ 1074 = 2 powi (int n - 1074) * 2 powi (int 1074)"
    by (simp only: power_int_of_nat)
  also have "\<dots> = 2 powi (int n - 1074 + int 1074)"
    by (subst power_int_add) simp_all
  also have "int n - 1074 + int 1074 = int n"
    by simp
  also have "(2::real) powi int n = 2 ^ n"
    by (simp only: power_int_of_nat)
  finally have "\<bar>x\<bar> * 2 ^ 1074 = y * 2 ^ n"
    using x by (simp only: x_def abs_of_pos mult.assoc)
  moreover have "n \<le> 2100"
    using assms(3) by simp
  ultimately have "quantum 2100 (\<bar>x\<bar> * 2 ^ 1074) (- 1074) = (y, - 1074 + int n)"
    using quantum_scale [OF assms(1,2), of n 2100 "- 1074"] by (simp only:)
  moreover have "- 1074 + int n = int n - 1074"
    by simp
  moreover have "\<not> x < 0"
    using x by simp
  ultimately show ?thesis
    unfolding roundToDouble_def x_def [symmetric]
    by (simp only: prod.case Let_def if_False)
qed

lemma roundToDouble_dyadic:
  assumes "2 ^ 52 \<le> z" "z < 2 ^ 53" "k \<le> 1074"
  shows "roundToDouble (z / 2 ^ k) = Finite (of_int (roundHalfEven z) / 2 ^ k)"
proof -
  have e: "int (1074 - k) - 1074 = - int k"
    using assms(3) by simp
  have p: "(2::real) powi (- int k) = 1 / 2 ^ k"
    by (simp add: power_int_minus field_simps)
  have m53: "real_of_int (roundHalfEven z) \<le> 2 ^ 53"
  proof -
    have "real_of_int (roundHalfEven z) \<le> real_of_int (2 ^ 53)"
      using roundHalfEven_le [OF assms(2)] by (simp only: of_int_le_iff)
    then show ?thesis by simp
  qed
  have z0: "0 \<le> z"
    using assms(1) by (rule order_trans [rotated]) simp
  have m0: "0 \<le> real_of_int (roundHalfEven z)"
    using roundHalfEven_nonneg [OF z0] by simp
  have "real_of_int (roundHalfEven z) * 1 \<le> real_of_int (roundHalfEven z) * 2 ^ k"
    using m0 by (intro mult_left_mono) simp_all
  then have "real_of_int (roundHalfEven z) / 2 ^ k \<le> real_of_int (roundHalfEven z)"
    by (simp add: pos_divide_le_eq)
  then have "real_of_int (roundHalfEven z) / 2 ^ k \<le> 2 ^ 53"
    using m53 by (rule order_trans)
  moreover have "(2::real) ^ 53 < 2 ^ 1024"
    by (rule power_strict_increasing) simp_all
  ultimately have small: "\<not> 2 ^ 1024 \<le> real_of_int (roundHalfEven z) / 2 ^ k"
    by simp
  have "1074 - k \<le> 2046"
    by simp
  from roundToDouble_scaled [OF assms(1,2) this] show ?thesis
    unfolding e p using small by (simp add: Let_def)
qed

lemma roundToDouble_zero: "roundToDouble 0 = Finite 0"
proof -
  have "quantum 2100 (\<bar>0\<bar> * 2 ^ 1074) (- 1074) = (0, - 1074)"
    by (simp add: quantum_below)
  moreover have "roundHalfEven 0 = 0"
    by (simp add: roundHalfEven_def)
  moreover have "\<not> (2::real) ^ 1024 \<le> 0"
    by (simp add: not_le)
  ultimately show ?thesis
    unfolding roundToDouble_def by (simp only: prod.case Let_def of_int_0 mult_zero_left if_False less_irrefl)
qed

lemma roundToDouble_magnitude:
  obtains y q where "quantum 2100 (\<bar>x\<bar> * 2 ^ 1074) (- 1074) = (y, q)"
    and "0 \<le> real_of_int (roundHalfEven y) * 2 powi q"
proof -
  obtain y q where yq: "quantum 2100 (\<bar>x\<bar> * 2 ^ 1074) (- 1074) = (y, q)"
    by (cases "quantum 2100 (\<bar>x\<bar> * 2 ^ 1074) (- 1074)")
  have "0 \<le> \<bar>x\<bar> * 2 ^ 1074"
    by (intro mult_nonneg_nonneg) simp_all
  from quantum_nonneg [OF this, of 2100 "- 1074"] have y: "0 \<le> y"
    unfolding yq by simp
  have "0 \<le> real_of_int (roundHalfEven y) * 2 powi q"
    using roundHalfEven_nonneg [OF y] by (intro mult_nonneg_nonneg zero_le_power_int) simp_all
  with yq show ?thesis ..
qed

lemma roundToDouble_nonpos:
  assumes "x \<le> 0"
  shows "mathMax (Finite 0) (roundToDouble x) = Finite 0"
proof (cases "x < 0")
  case True
  obtain y q where yq: "quantum 2100 (\<bar>x\<bar> * 2 ^ 1074) (- 1074) = (y, q)"
    and r: "0 \<le> real_of_int (roundHalfEven y) * 2 powi q"
    by (rule roundToDouble_magnitude)
  have "roundToDouble x = NegInfinity
      \<or> roundToDouble x = Finite (- (real_of_int (roundHalfEven y) * 2 powi q))"
    unfolding roundToDouble_def yq using True by (simp only: prod.case Let_def if_True split: if_splits) simp
  then show ?thesis
    using r by auto
next
  case False
  then have "x = 0" using assms by simp
  then show ?thesis
    by (simp add: roundToDouble_zero)
qed

lemma roundToDouble_nonneg:
  assumes "0 \<le> x"
  shows "mathMax (Finite 0) (roundToDouble x) = roundToDouble x"
proof -
  obtain y q where yq: "quantum 2100 (\<bar>x\<bar> * 2 ^ 1074) (- 1074) = (y, q)"
    and r: "0 \<le> real_of_int (roundHalfEven y) * 2 powi q"
    by (rule roundToDouble_magnitude)
  have "\<not> x < 0" using assms by simp
  then have "roundToDouble x = PosInfinity
      \<or> roundToDouble x = Finite (real_of_int (roundHalfEven y) * 2 powi q)"
    unfolding roundToDouble_def yq by (simp only: prod.case Let_def if_False split: if_splits) simp
  then show ?thesis
    using r by auto
qed


lemma literal_doubles:
  "roundToDouble 0.02 = Finite double_0_02"
  "roundToDouble 0.05 = Finite double_0_05"
  "roundToDouble 0.03 = Finite double_0_03"
proof -
  have "roundToDouble ((2 * 2 ^ 58 / 100) / 2 ^ 58) =
      Finite (of_int (roundHalfEven (2 * 2 ^ 58 / 100)) / 2 ^ 58)"
    by (rule roundToDouble_dyadic) simp_all
  moreover have "roundHalfEven (2 * 2 ^ 58 / 100) = 5764607523034235"
    by (simp add: roundHalfEven_def)
  ultimately show "roundToDouble 0.02 = Finite double_0_02"
    by (simp add: double_0_02_def)
  have "roundToDouble ((5 * 2 ^ 57 / 100) / 2 ^ 57) =
      Finite (of_int (roundHalfEven (5 * 2 ^ 57 / 100)) / 2 ^ 57)"
    by (rule roundToDouble_dyadic) simp_all
  moreover have "roundHalfEven (5 * 2 ^ 57 / 100) = 7205759403792794"
    by (simp add: roundHalfEven_def)
  ultimately show "roundToDouble 0.05 = Finite double_0_05"
    by (simp add: double_0_05_def)
  have "roundToDouble ((3 * 2 ^ 58 / 100) / 2 ^ 58) =
      Finite (of_int (roundHalfEven (3 * 2 ^ 58 / 100)) / 2 ^ 58)"
    by (rule roundToDouble_dyadic) simp_all
  moreover have "roundHalfEven (3 * 2 ^ 58 / 100) = 8646911284551352"
    by (simp add: roundHalfEven_def)
  ultimately show "roundToDouble 0.03 = Finite double_0_03"
    by (simp add: double_0_03_def)
qed

lemma double_difference:
  "jsMinus (Finite double_0_05) (Finite double_0_02) = Finite double_above_0_03"
proof -
  have eq: "double_0_05 - double_0_02 = 8646911284551353 / 2 ^ 58"
    by (simp add: double_0_05_def double_0_02_def)
  have "roundToDouble (8646911284551353 / 2 ^ 58) =
      Finite (of_int (roundHalfEven 8646911284551353) / 2 ^ 58)"
    by (rule roundToDouble_dyadic) simp_all
  then show ?thesis
    unfolding jsMinus.simps eq double_above_0_03_def
    by (simp only: roundHalfEven_numeral of_int_numeral)
qed

lemma double_overflow:
  "jsMinus (Finite maxDouble) (Finite (- maxDouble)) = PosInfinity"
proof -
  have p: "(2::real) powi (int 2046 - 1074) = 2 ^ 972"
    by simp
  have eq: "maxDouble - (- maxDouble) = (2 ^ 53 - 1) * 2 powi (int 2046 - 1074)"
    unfolding p by (simp add: maxDouble_def)
  have "roundToDouble ((2 ^ 53 - 1) * 2 powi (int 2046 - 1074)) =
     (let r = of_int (roundHalfEven (2 ^ 53 - 1)) * 2 powi (int 2046 - 1074) in
      if r \<ge> 2 ^ 1024 then PosInfinity else Finite r)"
    by (rule roundToDouble_scaled) simp_all
  moreover have "roundHalfEven (2 ^ 53 - 1) = 2 ^ 53 - 1"
    by (simp add: roundHalfEven_def)
  ultimately show ?thesis
    unfolding jsMinus.simps eq p by (simp add: Let_def)
qed
section \<open>Permission negotiation: properties\<close>

lemma session_not_persistent:
  "d \<in> SESSION_PERMISSION_DESTINATIONS \<Longrightarrow> d \<notin> PERSISTENT_PERMISSION_DESTINATIONS"
  by (auto simp add: SESSION_PERMISSION_DESTINATIONS_def PERSISTENT_PERMISSION_DESTINATIONS_def)

lemma scopeOfDestination_persistent:
  "scopeOfDestination d = PersistentScope \<longleftrightarrow> d \<in> PERSISTENT_PERMISSION_DESTINATIONS"
  by (simp add: scopeOfDestination_def PERSISTENT_PERMISSION_DESTINATIONS_def)

lemma scopeOfDestination_session:
  "scopeOfDestination d = SessionScope \<longleftrightarrow> d \<notin> PERSISTENT_PERMISSION_DESTINATIONS"
  by (simp add: scopeOfDestination_def PERSISTENT_PERMISSION_DESTINATIONS_def)

lemma splitLoop_session:
  "session (splitLoop xs acc) =
     session acc @ filter (\<lambda>u. scopeOfDestination (destination u) = SessionScope) xs"
  by (induction xs arbitrary: acc)
     (auto simp add: scopeOfDestination_session session_not_persistent)

lemma splitLoop_persistent:
  "persistent (splitLoop xs acc) =
     persistent acc @ filter (\<lambda>u. scopeOfDestination (destination u) = PersistentScope) xs"
  by (induction xs arbitrary: acc)
     (auto simp add: scopeOfDestination_persistent session_not_persistent)

lemma split_session:
  "session (splitPermissionSuggestionsByScope suggestions) = scopedAs SessionScope suggestions"
  by (simp add: splitPermissionSuggestionsByScope_def scopedAs_def suggested_def
      splitLoop_session split: option.splits)

lemma split_persistent:
  "persistent (splitPermissionSuggestionsByScope suggestions) = scopedAs PersistentScope suggestions"
  by (simp add: splitPermissionSuggestionsByScope_def scopedAs_def suggested_def
      splitLoop_persistent split: option.splits)

lemma scopedAs_empty: "scopedAs sc suggestions = [] \<longleftrightarrow> \<not> hasScope sc suggestions"
  by (auto simp add: scopedAs_def hasScope_def filter_empty_conv)

text \<open>
  Claim C6. For every list of suggestions, and for none, the menu has exactly three
  options: allow-once first, deny-once last, and in the middle \<open>allow_session\<close> /
  "Allow for session" exactly when some suggestion is session-scoped and none is
  persistent-scoped, \<open>allow_always\<close> / "Always allow" otherwise. Two inputs in which
  the same scopes are present give the same menu, whatever the counts.
\<close>

theorem permissionOptions_menu:
  "permissionOptionsFromSuggestions suggestions =
     [\<lparr>option_id = utf16 ''allow_once'', name = utf16 ''Allow once'', kind = utf16 ''allow_once''\<rparr>,
      (if hasScope SessionScope suggestions \<and> \<not> hasScope PersistentScope suggestions
       then \<lparr>option_id = utf16 ''allow_session'', name = utf16 ''Allow for session'',
             kind = utf16 ''allow_session''\<rparr>
       else \<lparr>option_id = utf16 ''allow_always'', name = utf16 ''Always allow'',
             kind = utf16 ''allow_always''\<rparr>),
      \<lparr>option_id = utf16 ''reject_once'', name = utf16 ''Deny'', kind = utf16 ''reject_once''\<rparr>]
   \<and> (hasScope SessionScope suggestions = hasScope SessionScope other
        \<and> hasScope PersistentScope suggestions = hasScope PersistentScope other
      \<longrightarrow> permissionOptionsFromSuggestions suggestions = permissionOptionsFromSuggestions other)"
  by (simp add: permissionOptionsFromSuggestions_def Let_def split_session split_persistent
      scopedAs_empty)

lemma hasScope_twoSession:
  "hasScope SessionScope (Some twoSession) \<and> \<not> hasScope PersistentScope (Some twoSession)"
  by (simp add: hasScope_def suggested_def twoSession_def scopeOfDestination_def)

lemma hasScope_oneSession:
  "hasScope SessionScope (Some oneSession) \<and> \<not> hasScope PersistentScope (Some oneSession)"
  by (simp add: hasScope_def suggested_def oneSession_def scopeOfDestination_def)

text \<open>
  Two session-scoped suggestions (one with an unrecognised destination) and a single
  one give the same menu with \<open>allow_session\<close>; no suggestions give \<open>allow_always\<close>.
\<close>

theorem permissionOptions_menu_witness:
  "map option_id (permissionOptionsFromSuggestions (Some twoSession)) =
     [utf16 ''allow_once'', utf16 ''allow_session'', utf16 ''reject_once'']
   \<and> permissionOptionsFromSuggestions (Some twoSession) =
       permissionOptionsFromSuggestions (Some oneSession)
   \<and> map option_id (permissionOptionsFromSuggestions None) =
     [utf16 ''allow_once'', utf16 ''allow_always'', utf16 ''reject_once'']"
proof -
  note two = permissionOptions_menu [of "Some twoSession" "Some oneSession"]
  have "map option_id (permissionOptionsFromSuggestions (Some twoSession)) =
     [utf16 ''allow_once'', utf16 ''allow_session'', utf16 ''reject_once'']"
    using two hasScope_twoSession by simp
  moreover have "permissionOptionsFromSuggestions (Some twoSession) =
       permissionOptionsFromSuggestions (Some oneSession)"
    using two hasScope_twoSession hasScope_oneSession by blast
  moreover have "map option_id (permissionOptionsFromSuggestions None) =
     [utf16 ''allow_once'', utf16 ''allow_always'', utf16 ''reject_once'']"
    using permissionOptions_menu [of None None] by (simp add: hasScope_def suggested_def)
  ultimately show ?thesis by blast
qed

text \<open>
  Claim C7. \<open>permissionResultFromOutcome\<close> returns an allow or a deny result on every
  outcome: a cancelled outcome is denied with "Permission cancelled"; \<open>allow_once\<close> is
  allowed with the input unchanged and no rule updates; an option id other than
  \<open>allow_once\<close>, \<open>allow_session\<close>, \<open>allow_always\<close> is denied with "Permission denied";
  and every result is an allow of the unchanged input or one of the two denials, for
  the tool call it was asked about.
\<close>

theorem permissionResult_total:
  "permissionResultFromOutcome Cancelled toolCallId inputData suggestions tool =
     Deny (utf16 ''Permission cancelled'') toolCallId
   \<and> permissionResultFromOutcome (Selected (utf16 ''allow_once'')) toolCallId inputData suggestions tool =
     Allow inputData None toolCallId
   \<and> (opt \<noteq> utf16 ''allow_once'' \<and> opt \<noteq> utf16 ''allow_session'' \<and> opt \<noteq> utf16 ''allow_always''
      \<longrightarrow> permissionResultFromOutcome (Selected opt) toolCallId inputData suggestions tool =
          Deny (utf16 ''Permission denied'') toolCallId)
   \<and> ((\<exists>perms. permissionResultFromOutcome outcome toolCallId inputData suggestions tool =
          Allow inputData perms toolCallId)
      \<or> permissionResultFromOutcome outcome toolCallId inputData suggestions tool =
          Deny (utf16 ''Permission denied'') toolCallId
      \<or> permissionResultFromOutcome outcome toolCallId inputData suggestions tool =
          Deny (utf16 ''Permission cancelled'') toolCallId)"
  by (cases outcome) (simp_all add: permissionResultFromOutcome_def Let_def split: option.splits)

text \<open>An unmapped option id is denied, \<open>allow_once\<close> passes \<open>{path: "x"}\<close> through.\<close>

theorem permissionResult_total_witness:
  "permissionResultFromOutcome (Selected (utf16 ''something_else'')) (utf16 ''t1'')
     [(utf16 ''path'', JStr (utf16 ''x''))] None None =
     Deny (utf16 ''Permission denied'') (utf16 ''t1'')
   \<and> permissionResultFromOutcome (Selected (utf16 ''allow_once'')) (utf16 ''t1'')
     [(utf16 ''path'', JStr (utf16 ''x''))] None None =
     Allow [(utf16 ''path'', JStr (utf16 ''x''))] None (utf16 ''t1'')"
  using permissionResult_total [of "utf16 ''t1''" "[(utf16 ''path'', JStr (utf16 ''x''))]" None None
    "utf16 ''something_else''" Cancelled]
  by simp

text \<open>
  Claim C8. Selecting \<open>allow_session\<close> attaches the session-scoped suggestions when
  there are any; otherwise one generic session-scope allow rule for the tool when a
  tool name is known (given and not the empty string); otherwise nothing. Selecting
  \<open>allow_always\<close> attaches the persistent-scoped suggestions when there are any and
  nothing otherwise: no rule is synthesised.
\<close>

theorem permissionResult_scoped:
  "permissionResultFromOutcome (Selected (utf16 ''allow_session'')) toolCallId inputData suggestions tool =
     Allow inputData
       (if hasScope SessionScope suggestions then Some (scopedAs SessionScope suggestions)
        else case tool of
          None \<Rightarrow> None
        | Some t \<Rightarrow> if t \<noteq> [] then Some [genericSessionRule t] else None)
       toolCallId
   \<and> permissionResultFromOutcome (Selected (utf16 ''allow_always'')) toolCallId inputData suggestions tool =
     Allow inputData
       (if hasScope PersistentScope suggestions then Some (scopedAs PersistentScope suggestions)
        else None)
       toolCallId"
  by (simp add: permissionResultFromOutcome_def Let_def split_session split_persistent
      scopedAs_empty genericSessionRule_def split: option.splits)

text \<open>
  With no suggestions and the tool \<open>Bash\<close>, \<open>allow_session\<close> synthesises the generic
  rule and \<open>allow_always\<close> attaches nothing.
\<close>

theorem permissionResult_scoped_witness:
  "permissionResultFromOutcome (Selected (utf16 ''allow_session'')) (utf16 ''t1'') [] None
     (Some (utf16 ''Bash'')) =
     Allow [] (Some [RulesUpdate (utf16 ''addRules'')
                       [\<lparr>toolName = utf16 ''Bash'', ruleContent = None\<rparr>]
                       (utf16 ''allow'') (utf16 ''session'')]) (utf16 ''t1'')
   \<and> permissionResultFromOutcome (Selected (utf16 ''allow_always'')) (utf16 ''t1'') [] None
     (Some (utf16 ''Bash'')) =
     Allow [] None (utf16 ''t1'')"
  using permissionResult_scoped [of "utf16 ''t1''" "[]" None "Some (utf16 ''Bash'')"]
  by (simp add: hasScope_def suggested_def genericSessionRule_def)


section \<open>Usage accounting: properties\<close>

lemma build_with_total:
  assumes "carriesTotal message t"
  shows "\<exists>u. buildUsageUpdateFromResultForSession (Some sess) message =
           (Some (usage_update u), Some (sess\<lparr>lastTotalCostUsd := Some (Finite t)\<rparr>))
         \<and> total_cost_usd u = Some t
         \<and> turn_cost_usd u =
             Some (case lastTotalCostUsd sess of
                     None \<Rightarrow> Finite t
                   | Some l \<Rightarrow> mathMax (Finite 0) (jsMinus (Finite t) l))"
  using assms
  by (simp add: buildUsageUpdateFromResultForSession_def carriesTotal_def Let_def
      split: option.splits)

lemma processSequentially_totals:
  "list_all2 carriesTotal messages totals \<Longrightarrow>
   map turnCostOf (fst (processSequentially sess messages)) =
     map Some (expectedDeltas (lastTotalCostUsd sess) totals)
   \<and> snd (processSequentially sess messages) =
     (if totals = [] then sess else sess\<lparr>lastTotalCostUsd := Some (Finite (last totals))\<rparr>)"
proof (induction messages totals arbitrary: sess rule: list_all2_induct)
  case Nil
  show ?case by simp
next
  case (Cons message messages t totals)
  obtain u where step:
    "buildUsageUpdateFromResultForSession (Some sess) message =
       ((Some (usage_update u) :: (unit, unit) SessionUpdate option),
        Some (sess\<lparr>lastTotalCostUsd := Some (Finite t)\<rparr>))"
    "turn_cost_usd u =
       Some (case lastTotalCostUsd sess of
               None \<Rightarrow> Finite t
             | Some l \<Rightarrow> mathMax (Finite 0) (jsMinus (Finite t) l))"
    using build_with_total [OF Cons.hyps(1)] by blast
  show ?case
    using Cons.IH [of "sess\<lparr>lastTotalCostUsd := Some (Finite t)\<rparr>"] step
    by (simp add: split_beta)
qed

lemma costMessages_totals:
  "list_all2 carriesTotal costMessages [double_0_02, double_0_05, double_0_03]"
  by (simp add: costMessages_def carriesTotal_def get_def getProp_def)

lemma overflowMessages_totals:
  "list_all2 carriesTotal overflowMessages [- maxDouble, maxDouble]"
  by (simp add: overflowMessages_def carriesTotal_def get_def getProp_def)

lemma costMessages_deltas:
  "expectedDeltas None [double_0_02, double_0_05, double_0_03] =
     [Finite double_0_02, Finite double_above_0_03, Finite 0]"
proof -
  have "double_0_03 - double_0_05 \<le> 0"
    by (simp add: double_0_03_def double_0_05_def)
  then have "mathMax (Finite 0) (jsMinus (Finite double_0_03) (Finite double_0_05)) = Finite 0"
    unfolding jsMinus.simps by (rule roundToDouble_nonpos)
  moreover have "max 0 double_above_0_03 = double_above_0_03"
    by (simp add: double_above_0_03_def)
  ultimately show ?thesis
    by (simp add: double_difference del: jsMinus.simps)
qed

lemma clamped_difference:
  assumes "lower \<le> upper"
  shows "mathMax (Finite 0) (jsMinus (Finite lower) (Finite upper)) = Finite 0"
    and "mathMax (Finite 0) (jsMinus (Finite upper) (Finite lower)) = roundToDouble (upper - lower)"
  using assms roundToDouble_nonpos [of "lower - upper"] roundToDouble_nonneg [of "upper - lower"]
  by simp_all

text \<open>
  Claim C2, as amended. When a result message carrying a total cost is processed against a
  session context, the turn cost is that total if no total was observed before and
  \<open>Math.max(0, newTotal - lastObservedTotal)\<close> otherwise, in double arithmetic, and
  \<open>lastTotalCostUsd\<close> becomes the new total in either case. Over a sequence of such
  messages processed one after the other against one context, the turn costs are
  the first total followed by the clamped differences of consecutive totals, and
  the context ends with the last total. A total that is not above the last one gives
  the turn cost 0; one that is above it gives the difference rounded to the nearest
  double.
\<close>

theorem usage_turn_cost_deltas:
  "(carriesTotal message t \<longrightarrow>
      (\<exists>u. buildUsageUpdateFromResultForSession (Some sess) message =
              (Some (usage_update u), Some (sess\<lparr>lastTotalCostUsd := Some (Finite t)\<rparr>))
          \<and> total_cost_usd u = Some t
          \<and> turn_cost_usd u =
              Some (case lastTotalCostUsd sess of
                      None \<Rightarrow> Finite t
                    | Some l \<Rightarrow> mathMax (Finite 0) (jsMinus (Finite t) l))))
   \<and> (list_all2 carriesTotal messages totals \<longrightarrow>
        map turnCostOf (fst (processSequentially sess messages)) =
          map Some (expectedDeltas (lastTotalCostUsd sess) totals)
      \<and> snd (processSequentially sess messages) =
          (if totals = [] then sess
           else sess\<lparr>lastTotalCostUsd := Some (Finite (last totals))\<rparr>))
   \<and> (lower \<le> upper \<longrightarrow>
        mathMax (Finite 0) (jsMinus (Finite lower) (Finite upper)) = Finite 0
      \<and> mathMax (Finite 0) (jsMinus (Finite upper) (Finite lower)) = roundToDouble (upper - lower))"
  using build_with_total [of message t sess] processSequentially_totals [of messages totals sess]
    clamped_difference [of lower upper]
  by blast

text \<open>
  The totals 0.02, 0.05, 0.03 in a fresh context give the turn costs 0.02, the double
  next above 0.03, and 0.
\<close>

theorem usage_turn_cost_deltas_witness:
  "list_all2 carriesTotal costMessages [double_0_02, double_0_05, double_0_03]
   \<and> map turnCostOf (fst (processSequentially \<lparr>model = None, lastTotalCostUsd = None\<rparr> costMessages)) =
       [Some (Finite double_0_02), Some (Finite double_above_0_03), Some (Finite 0)]
   \<and> lastTotalCostUsd (snd (processSequentially \<lparr>model = None, lastTotalCostUsd = None\<rparr> costMessages)) =
       Some (Finite double_0_03)
   \<and> double_0_03 \<le> double_0_05
   \<and> mathMax (Finite 0) (jsMinus (Finite double_0_03) (Finite double_0_05)) = Finite 0"
proof -
  note law = usage_turn_cost_deltas [of "hd costMessages" double_0_02
      "\<lparr>model = None, lastTotalCostUsd = None\<rparr>" costMessages
      "[double_0_02, double_0_05, double_0_03]" double_0_03 double_0_05]
  have le: "double_0_03 \<le> double_0_05"
    by (simp add: double_0_03_def double_0_05_def)
  have seq: "map turnCostOf (fst (processSequentially \<lparr>model = None, lastTotalCostUsd = None\<rparr> costMessages)) =
          map Some (expectedDeltas (lastTotalCostUsd \<lparr>model = None, lastTotalCostUsd = None\<rparr>)
            [double_0_02, double_0_05, double_0_03])
      \<and> snd (processSequentially \<lparr>model = None, lastTotalCostUsd = None\<rparr> costMessages) =
          (if [double_0_02, double_0_05, double_0_03] = ([] :: real list)
           then \<lparr>model = None, lastTotalCostUsd = None\<rparr>
           else \<lparr>model = None, lastTotalCostUsd = None\<rparr>
                  \<lparr>lastTotalCostUsd := Some (Finite (last [double_0_02, double_0_05, double_0_03]))\<rparr>)"
    using law costMessages_totals by blast
  have "map turnCostOf (fst (processSequentially \<lparr>model = None, lastTotalCostUsd = None\<rparr> costMessages)) =
       [Some (Finite double_0_02), Some (Finite double_above_0_03), Some (Finite 0)]"
    using seq by (simp only: costMessages_deltas UsageSessionContext.simps) simp
  moreover have "lastTotalCostUsd (snd (processSequentially \<lparr>model = None, lastTotalCostUsd = None\<rparr> costMessages)) =
       Some (Finite double_0_03)"
    using seq by simp
  moreover have "mathMax (Finite 0) (jsMinus (Finite double_0_03) (Finite double_0_05)) = Finite 0"
    using law le by blast
  ultimately show ?thesis
    using costMessages_totals le by blast
qed

text \<open>
  Claim C2 as stated gives the turn costs 0.02, 0.03, 0 for the totals 0.02, 0.05,
  0.03. The second turn cost is not the double of 0.03: the difference of the
  doubles of 0.05 and 0.02 is itself a double, so that no rounding takes place, and
  it is the one next above. A difference can also overflow: the turn cost is
  then \<open>Infinity\<close>.
\<close>

theorem usage_turn_cost_example_counterexample:
  "roundToDouble 0.02 = Finite double_0_02
   \<and> roundToDouble 0.05 = Finite double_0_05
   \<and> roundToDouble 0.03 = Finite double_0_03
   \<and> list_all2 carriesTotal costMessages [double_0_02, double_0_05, double_0_03]
   \<and> map turnCostOf (fst (processSequentially \<lparr>model = None, lastTotalCostUsd = None\<rparr> costMessages)) \<noteq>
       [Some (Finite double_0_02), Some (Finite double_0_03), Some (Finite 0)]
   \<and> map turnCostOf (fst (processSequentially \<lparr>model = None, lastTotalCostUsd = None\<rparr> overflowMessages)) =
       [Some (Finite (- maxDouble)), Some PosInfinity]"
proof -
  have "map turnCostOf (fst (processSequentially \<lparr>model = None, lastTotalCostUsd = None\<rparr> costMessages)) =
       [Some (Finite double_0_02), Some (Finite double_above_0_03), Some (Finite 0)]"
    using processSequentially_totals [OF costMessages_totals, of "\<lparr>model = None, lastTotalCostUsd = None\<rparr>"]
    by (simp only: costMessages_deltas UsageSessionContext.simps) simp
  moreover have "double_above_0_03 \<noteq> double_0_03"
    by (simp add: double_above_0_03_def double_0_03_def)
  moreover have "map turnCostOf (fst (processSequentially \<lparr>model = None, lastTotalCostUsd = None\<rparr> overflowMessages)) =
       [Some (Finite (- maxDouble)), Some PosInfinity]"
    using processSequentially_totals [OF overflowMessages_totals, of "\<lparr>model = None, lastTotalCostUsd = None\<rparr>"]
    by (simp add: double_overflow del: jsMinus.simps)
  ultimately show ?thesis
    using literal_doubles costMessages_totals by simp
qed
section \<open>Command envelope parser: properties\<close>

lemma bindE_Inr_iff: "bindE m f = Inr v \<longleftrightarrow> (\<exists>x. m = Inr x \<and> f x = Inr v)"
  by (cases m) (simp_all add: bindE_def)

lemma bindE_Inl_iff: "bindE m f = Inl e \<longleftrightarrow> m = Inl e \<or> (\<exists>x. m = Inr x \<and> f x = Inl e)"
  by (cases m) (simp_all add: bindE_def)

lemma expectString_Inr: "expectString rcd key ctx = Inr s \<longleftrightarrow> hasString rcd key s"
  by (auto simp add: expectString_def hasString_def split: option.splits json.splits)

lemma expectBoolean_Inr: "expectBoolean rcd key ctx = Inr b \<longleftrightarrow> hasBoolean rcd key b"
  by (auto simp add: expectBoolean_def hasBoolean_def split: option.splits json.splits)

lemma optionalString_Inr: "optionalString rcd key ctx = Inr v \<longleftrightarrow> hasOptionalString rcd key v"
  by (auto simp add: optionalString_def hasOptionalString_def split: option.splits json.splits)

lemma optionalMetadata_Inr: "optionalMetadata rcd key = Inr v \<longleftrightarrow> hasOptionalObject rcd key v"
  by (auto simp add: optionalMetadata_def hasOptionalObject_def asRecord_def
      split: option.splits json.splits)

lemma parsePromptChunk_Inr:
  "parsePromptChunk ctx index raw = Inr chunk \<longleftrightarrow> chunkConforms raw chunk"
  by (cases chunk)
     (auto simp add: parsePromptChunk_def chunkConforms_def Let_def bindE_Inr_iff asRecord_def
      expectString_Inr split: option.splits json.splits)

lemma mapPromptChunks_Inr:
  "mapPromptChunks ctx index raws = Inr chunks \<longleftrightarrow> list_all2 chunkConforms raws chunks"
proof (induction raws arbitrary: index chunks)
  case Nil
  show ?case by auto
next
  case (Cons raw raws)
  show ?case
    by (cases chunks) (auto simp add: bindE_Inr_iff parsePromptChunk_Inr Cons.IH)
qed

lemma parsePromptChunks_Inr:
  "parsePromptChunks rcd ctx = Inr chunks \<longleftrightarrow>
     (case get rcd ''chunks'' of
        Some (JArr rawChunks) \<Rightarrow> list_all2 chunkConforms rawChunks chunks
      | _ \<Rightarrow> False)"
  by (simp add: parsePromptChunks_def mapPromptChunks_Inr split: option.splits json.splits)

lemma asRecord_Inr: "asRecord v ctx = Inr rcd \<longleftrightarrow> v = Some (JObj rcd)"
  by (auto simp add: asRecord_def split: option.splits json.splits)

lemma parseCommand_initialize:
  "parseCommand raw (utf16 ''initialize'') =
     bindE (expectString raw ''cwd'' (utf16 ''initialize'')) (\<lambda>cwd.
     bindE (optionalMetadata raw ''metadata'') (\<lambda>metadata.
     Inr (initialize cwd metadata)))"
  by (simp add: parseCommand_def)

lemma parseCommand_create_session:
  "parseCommand raw (utf16 ''create_session'') =
     bindE (expectString raw ''cwd'' (utf16 ''create_session'')) (\<lambda>cwd.
     bindE (expectBoolean raw ''yolo'' (utf16 ''create_session'')) (\<lambda>yolo.
     bindE (optionalString raw ''model'' (utf16 ''create_session'')) (\<lambda>mdl.
     bindE (optionalString raw ''resume'' (utf16 ''create_session'')) (\<lambda>resume.
     bindE (optionalMetadata raw ''metadata'') (\<lambda>metadata.
     Inr (create_session cwd yolo mdl resume metadata))))))"
  by (simp add: parseCommand_def)

lemma parseCommand_load_session:
  "parseCommand raw (utf16 ''load_session'') =
     bindE (expectString raw ''session_id'' (utf16 ''load_session'')) (\<lambda>session_id.
     bindE (optionalMetadata raw ''metadata'') (\<lambda>metadata.
     Inr (load_session session_id metadata)))"
  by (simp add: parseCommand_def)

lemma parseCommand_new_session:
  "parseCommand raw (utf16 ''new_session'') =
     bindE (expectString raw ''cwd'' (utf16 ''new_session'')) (\<lambda>cwd.
     bindE (expectBoolean raw ''yolo'' (utf16 ''new_session'')) (\<lambda>yolo.
     bindE (optionalString raw ''model'' (utf16 ''new_session'')) (\<lambda>mdl.
     Inr (new_session cwd yolo mdl))))"
  by (simp add: parseCommand_def)

lemma parseCommand_prompt:
  "parseCommand raw (utf16 ''prompt'') =
     bindE (expectString raw ''session_id'' (utf16 ''prompt'')) (\<lambda>session_id.
     bindE (parsePromptChunks raw (utf16 ''prompt'')) (\<lambda>chunks.
     Inr (prompt session_id chunks)))"
  by (simp add: parseCommand_def)

lemma parseCommand_cancel_turn:
  "parseCommand raw (utf16 ''cancel_turn'') =
     bindE (expectString raw ''session_id'' (utf16 ''cancel_turn'')) (\<lambda>session_id.
     Inr (cancel_turn session_id))"
  by (simp add: parseCommand_def)

lemma parseCommand_set_model:
  "parseCommand raw (utf16 ''set_model'') =
     bindE (expectString raw ''session_id'' (utf16 ''set_model'')) (\<lambda>session_id.
     bindE (expectString raw ''model'' (utf16 ''set_model'')) (\<lambda>mdl.
     Inr (set_model session_id mdl)))"
  by (simp add: parseCommand_def)

lemma parseCommand_set_mode:
  "parseCommand raw (utf16 ''set_mode'') =
     bindE (expectString raw ''session_id'' (utf16 ''set_mode'')) (\<lambda>session_id.
     bindE (expectString raw ''mode'' (utf16 ''set_mode'')) (\<lambda>mode.
     Inr (set_mode session_id mode)))"
  by (simp add: parseCommand_def)

lemma parseCommand_permission_response:
  "parseCommand raw (utf16 ''permission_response'') =
     bindE (asRecord (get raw ''outcome'') (utf16 ''permission_response.outcome'')) (\<lambda>outcome.
     bindE (expectString outcome ''outcome'' (utf16 ''permission_response.outcome'')) (\<lambda>outcomeType.
     if outcomeType \<noteq> utf16 ''selected'' \<and> outcomeType \<noteq> utf16 ''cancelled'' then
       Inl (Error (utf16 ''permission_response.outcome.outcome must be '' @ apostrophe
              @ utf16 ''selected'' @ apostrophe @ utf16 '' or '' @ apostrophe
              @ utf16 ''cancelled'' @ apostrophe))
     else
       bindE (if outcomeType = utf16 ''selected''
              then bindE (expectString outcome ''option_id'' (utf16 ''permission_response.outcome''))
                     (\<lambda>option. Inr (Selected option))
              else Inr Cancelled) (\<lambda>parsedOutcome.
       bindE (expectString raw ''session_id'' (utf16 ''permission_response'')) (\<lambda>session_id.
       bindE (expectString raw ''tool_call_id'' (utf16 ''permission_response'')) (\<lambda>tool_call_id.
       Inr (permission_response session_id tool_call_id parsedOutcome))))))"
  by (simp add: parseCommand_def)

lemma parseCommand_shutdown: "parseCommand raw (utf16 ''shutdown'') = Inr shutdown"
  by (simp add: parseCommand_def)

lemma parseCommand_unsupported:
  "commandName \<notin> set commandTags \<Longrightarrow>
   parseCommand raw commandName = Inl (Error (utf16 ''unsupported command: '' @ commandName))"
  by (simp add: parseCommand_def commandTags_def)

lemma tagOf_in_commandTags: "tagOf command \<in> set commandTags"
  by (cases command) (simp_all add: commandTags_def)

lemmas validator_Inr =
  bindE_Inr_iff expectString_Inr expectBoolean_Inr optionalString_Inr optionalMetadata_Inr
  parsePromptChunks_Inr asRecord_Inr

lemma Inr_initialize:
  "parseCommand raw (utf16 ''initialize'') = Inr command \<longleftrightarrow>
     utf16 ''initialize'' = tagOf command \<and> fieldsConform raw command"
  by (cases command) (auto simp add: parseCommand_initialize validator_Inr)

lemma Inr_create_session:
  "parseCommand raw (utf16 ''create_session'') = Inr command \<longleftrightarrow>
     utf16 ''create_session'' = tagOf command \<and> fieldsConform raw command"
  by (cases command) (auto simp add: parseCommand_create_session validator_Inr)

lemma Inr_load_session:
  "parseCommand raw (utf16 ''load_session'') = Inr command \<longleftrightarrow>
     utf16 ''load_session'' = tagOf command \<and> fieldsConform raw command"
  by (cases command) (auto simp add: parseCommand_load_session validator_Inr)

lemma Inr_new_session:
  "parseCommand raw (utf16 ''new_session'') = Inr command \<longleftrightarrow>
     utf16 ''new_session'' = tagOf command \<and> fieldsConform raw command"
  by (cases command) (auto simp add: parseCommand_new_session validator_Inr)

lemma Inr_prompt:
  "parseCommand raw (utf16 ''prompt'') = Inr command \<longleftrightarrow>
     utf16 ''prompt'' = tagOf command \<and> fieldsConform raw command"
  by (cases command) (auto simp add: parseCommand_prompt validator_Inr)

lemma Inr_cancel_turn:
  "parseCommand raw (utf16 ''cancel_turn'') = Inr command \<longleftrightarrow>
     utf16 ''cancel_turn'' = tagOf command \<and> fieldsConform raw command"
  by (cases command) (auto simp add: parseCommand_cancel_turn validator_Inr)

lemma Inr_set_model:
  "parseCommand raw (utf16 ''set_model'') = Inr command \<longleftrightarrow>
     utf16 ''set_model'' = tagOf command \<and> fieldsConform raw command"
  by (cases command) (auto simp add: parseCommand_set_model validator_Inr)

lemma Inr_set_mode:
  "parseCommand raw (utf16 ''set_mode'') = Inr command \<longleftrightarrow>
     utf16 ''set_mode'' = tagOf command \<and> fieldsConform raw command"
  by (cases command) (auto simp add: parseCommand_set_mode validator_Inr)

lemma Inr_shutdown:
  "parseCommand raw (utf16 ''shutdown'') = Inr command \<longleftrightarrow>
     utf16 ''shutdown'' = tagOf command \<and> fieldsConform raw command"
  by (cases command) (auto simp add: parseCommand_shutdown)

lemma outcome_Inr:
  "bindE (asRecord (get raw ''outcome'') ctx) (\<lambda>outcome.
     bindE (expectString outcome ''outcome'' ctx) (\<lambda>outcomeType.
       if outcomeType \<noteq> utf16 ''selected'' \<and> outcomeType \<noteq> utf16 ''cancelled'' then Inl err
       else bindE (if outcomeType = utf16 ''selected''
                   then bindE (expectString outcome ''option_id'' ctx) (\<lambda>option. Inr (Selected option))
                   else Inr Cancelled) k)) = Inr command
   \<longleftrightarrow> (\<exists>parsedOutcome. outcomeConforms raw parsedOutcome \<and> k parsedOutcome = Inr command)"
  (is "?lhs = Inr command \<longleftrightarrow> ?rhs")
proof (cases "asRecord (get raw ''outcome'') ctx")
  case (Inl e)
  then have "\<forall>obj. get raw ''outcome'' \<noteq> Some (JObj obj)"
    by (auto simp add: asRecord_def)
  then have "\<not> ?rhs"
    by (auto simp add: outcomeConforms_def split: option.splits json.splits)
  then show ?thesis
    using Inl by (simp add: bindE_def)
next
  case (Inr obj)
  then have raw: "get raw ''outcome'' = Some (JObj obj)"
    by (simp add: asRecord_Inr)
  show ?thesis
  proof (cases "expectString obj ''outcome'' ctx")
    case (Inl e)
    then have "\<forall>s. \<not> hasString obj ''outcome'' s"
      using expectString_Inr [of obj "''outcome''" ctx] by auto
    then have "\<not> ?rhs"
      using raw by (auto simp add: outcomeConforms_def split: PermissionOutcome.splits)
    then show ?thesis
      using Inl \<open>asRecord (get raw ''outcome'') ctx = Inr obj\<close> by (simp add: bindE_def)
  next
    case ty: (Inr outcomeType)
    then have hs: "hasString obj ''outcome'' outcomeType"
      by (simp add: expectString_Inr)
    have rhs_iff: "?rhs \<longleftrightarrow>
        (outcomeType = utf16 ''selected'' \<and>
           (\<exists>option. hasString obj ''option_id'' option \<and> k (Selected option) = Inr command))
        \<or> (outcomeType = utf16 ''cancelled'' \<and> k Cancelled = Inr command)"
    proof
      assume ?rhs
      then obtain po where po: "outcomeConforms raw po" "k po = Inr command"
        by blast
      show "(outcomeType = utf16 ''selected'' \<and>
           (\<exists>option. hasString obj ''option_id'' option \<and> k (Selected option) = Inr command))
        \<or> (outcomeType = utf16 ''cancelled'' \<and> k Cancelled = Inr command)"
        using po raw hs by (cases po) (auto simp add: outcomeConforms_def hasString_def)
    next
      assume "(outcomeType = utf16 ''selected'' \<and>
           (\<exists>option. hasString obj ''option_id'' option \<and> k (Selected option) = Inr command))
        \<or> (outcomeType = utf16 ''cancelled'' \<and> k Cancelled = Inr command)"
      then show ?rhs
      proof
        assume "outcomeType = utf16 ''selected'' \<and>
           (\<exists>option. hasString obj ''option_id'' option \<and> k (Selected option) = Inr command)"
        then obtain option where "outcomeType = utf16 ''selected''"
          "hasString obj ''option_id'' option" "k (Selected option) = Inr command"
          by blast
        then have "outcomeConforms raw (Selected option) \<and> k (Selected option) = Inr command"
          using raw hs by (simp add: outcomeConforms_def)
        then show ?rhs by blast
      next
        assume "outcomeType = utf16 ''cancelled'' \<and> k Cancelled = Inr command"
        then have "outcomeConforms raw Cancelled \<and> k Cancelled = Inr command"
          using raw hs by (simp add: outcomeConforms_def)
        then show ?rhs by blast
      qed
    qed
    have lhs_eq: "?lhs =
       (if outcomeType \<noteq> utf16 ''selected'' \<and> outcomeType \<noteq> utf16 ''cancelled'' then Inl err
        else bindE (if outcomeType = utf16 ''selected''
                   then bindE (expectString obj ''option_id'' ctx) (\<lambda>option. Inr (Selected option))
                   else Inr Cancelled) k)"
      using ty \<open>asRecord (get raw ''outcome'') ctx = Inr obj\<close> by (simp add: bindE_def)
    show ?thesis
      unfolding lhs_eq rhs_iff
      by (auto simp add: bindE_Inr_iff expectString_Inr)
  qed
qed

lemma Inr_permission_response_ex:
  "parseCommand raw (utf16 ''permission_response'') = Inr command \<longleftrightarrow>
     (\<exists>outcome session_id tool_call_id.
        outcomeConforms raw outcome \<and> hasString raw ''session_id'' session_id
        \<and> hasString raw ''tool_call_id'' tool_call_id
        \<and> command = permission_response session_id tool_call_id outcome)"
  unfolding parseCommand_permission_response outcome_Inr
  by (auto simp add: bindE_Inr_iff expectString_Inr)

lemma Inr_permission_response:
  "parseCommand raw (utf16 ''permission_response'') = Inr command \<longleftrightarrow>
     utf16 ''permission_response'' = tagOf command \<and> fieldsConform raw command"
  unfolding Inr_permission_response_ex
  by (cases command) auto

lemmas parseCommand_Inr_tags =
  Inr_initialize Inr_create_session Inr_load_session Inr_new_session Inr_prompt
  Inr_cancel_turn Inr_set_model Inr_set_mode Inr_permission_response Inr_shutdown

lemma parseCommand_Inr:
  "parseCommand raw commandName = Inr command \<longleftrightarrow>
     commandName = tagOf command \<and> fieldsConform raw command"
proof (cases "commandName \<in> set commandTags")
  case True
  then consider "commandName = utf16 ''initialize''" | "commandName = utf16 ''create_session''"
    | "commandName = utf16 ''load_session''" | "commandName = utf16 ''new_session''"
    | "commandName = utf16 ''prompt''" | "commandName = utf16 ''cancel_turn''"
    | "commandName = utf16 ''set_model''" | "commandName = utf16 ''set_mode''"
    | "commandName = utf16 ''permission_response''" | "commandName = utf16 ''shutdown''"
    unfolding commandTags_def by auto
  then show ?thesis
    by cases (simp_all only: parseCommand_Inr_tags)
next
  case False
  then show ?thesis
    using parseCommand_unsupported [of commandName raw] tagOf_in_commandTags [of command]
    by auto
qed

lemma utf16_append: "utf16 (a @ b) = utf16 a @ utf16 b"
  by (simp add: utf16_def)

subsection \<open>The error of the first violation\<close>

lemma reportsFirst_Inr: "reportsFirst (Inr v) []"
  by simp

lemma reportsFirst_bindE:
  assumes "reportsFirst m first"
    and "\<And>x. m = Inr x \<Longrightarrow> reportsFirst (f x) second"
  shows "reportsFirst (bindE m f) (first @ second)"
proof (cases first)
  case Nil
  then obtain x where "m = Inr x"
    using assms(1) by (cases m) simp_all
  then show ?thesis
    using Nil assms(2) by (simp add: bindE_def)
next
  case (Cons v further)
  then show ?thesis
    using assms(1) by (cases v) (auto simp add: bindE_def isl_def)
qed

lemma reportsFirst_last:
  assumes "reportsFirst m first"
  shows "reportsFirst (bindE m (\<lambda>x. Inr (g x))) first"
  using reportsFirst_bindE [OF assms, of "\<lambda>x. Inr (g x)" "[]"] by simp

lemma expectString_reports:
  "reportsFirst (expectString rcd key ctx) (stringViolations rcd ctx key)"
  by (simp add: expectString_def stringViolations_def fieldPath_def
      split: option.splits json.splits)

lemma expectBoolean_reports:
  "reportsFirst (expectBoolean rcd key ctx) (booleanViolations rcd ctx key)"
  by (simp add: expectBoolean_def booleanViolations_def fieldPath_def
      split: option.splits json.splits)

lemma optionalString_reports:
  "reportsFirst (optionalString rcd key ctx) (optionalStringViolations rcd ctx key)"
  by (simp add: optionalString_def optionalStringViolations_def fieldPath_def
      split: option.splits json.splits)

lemma optionalMetadata_reports:
  "reportsFirst (optionalMetadata rcd ''metadata'') (metadataViolations rcd)"
  by (simp add: optionalMetadata_def metadataViolations_def asRecord_def
      split: option.splits json.splits)

lemma parsePromptChunk_reports:
  "reportsFirst (parsePromptChunk ctx index chunk) (chunkViolations ctx index chunk)"
proof (cases "\<exists>obj. chunk = JObj obj")
  case True
  then obtain obj where "chunk = JObj obj"
    by blast
  then show ?thesis
    using reportsFirst_last [OF expectString_reports [of obj "''kind''" "chunkPath ctx index"]]
    by (simp add: parsePromptChunk_def chunkViolations_def chunkPath_def asRecord_def bindE_def)
next
  case False
  then show ?thesis
    by (cases chunk)
      (simp_all add: parsePromptChunk_def chunkViolations_def chunkPath_def asRecord_def bindE_def)
qed

lemma mapPromptChunks_reports:
  "reportsFirst (mapPromptChunks ctx index chunks) (chunkViolationsFrom ctx index chunks)"
proof (induction chunks arbitrary: index)
  case Nil
  show ?case by simp
next
  case (Cons chunk chunks)
  have "reportsFirst
      (bindE (parsePromptChunk ctx index chunk) (\<lambda>c.
       bindE (mapPromptChunks ctx (Suc index) chunks) (\<lambda>cs. Inr (c # cs))))
      (chunkViolations ctx index chunk @ chunkViolationsFrom ctx (Suc index) chunks)"
    by (intro reportsFirst_bindE reportsFirst_last parsePromptChunk_reports Cons.IH)
  then show ?case by simp
qed

lemma parsePromptChunks_reports:
  "reportsFirst (parsePromptChunks rcd ctx) (chunksViolations rcd ctx)"
  by (simp add: parsePromptChunks_def chunksViolations_def fieldPath_def mapPromptChunks_reports
      utf16_def split: option.splits json.splits)

lemmas validator_reports =
  expectString_reports expectBoolean_reports optionalString_reports optionalMetadata_reports
  parsePromptChunks_reports

lemma reports_initialize:
  "reportsFirst (parseCommand raw (utf16 ''initialize'')) (violations raw (utf16 ''initialize''))"
  unfolding parseCommand_initialize
  by (simp add: violations_def) (intro reportsFirst_bindE reportsFirst_last validator_reports)

lemma reports_create_session:
  "reportsFirst (parseCommand raw (utf16 ''create_session''))
     (violations raw (utf16 ''create_session''))"
  unfolding parseCommand_create_session
  by (simp add: violations_def) (intro reportsFirst_bindE reportsFirst_last validator_reports)

lemma reports_load_session:
  "reportsFirst (parseCommand raw (utf16 ''load_session'')) (violations raw (utf16 ''load_session''))"
  unfolding parseCommand_load_session
  by (simp add: violations_def) (intro reportsFirst_bindE reportsFirst_last validator_reports)

lemma reports_new_session:
  "reportsFirst (parseCommand raw (utf16 ''new_session'')) (violations raw (utf16 ''new_session''))"
  unfolding parseCommand_new_session
  by (simp add: violations_def) (intro reportsFirst_bindE reportsFirst_last validator_reports)

lemma reports_prompt:
  "reportsFirst (parseCommand raw (utf16 ''prompt'')) (violations raw (utf16 ''prompt''))"
  unfolding parseCommand_prompt
  by (simp add: violations_def) (intro reportsFirst_bindE reportsFirst_last validator_reports)

lemma reports_cancel_turn:
  "reportsFirst (parseCommand raw (utf16 ''cancel_turn'')) (violations raw (utf16 ''cancel_turn''))"
  unfolding parseCommand_cancel_turn
  by (simp add: violations_def) (intro reportsFirst_bindE reportsFirst_last validator_reports)

lemma reports_set_model:
  "reportsFirst (parseCommand raw (utf16 ''set_model'')) (violations raw (utf16 ''set_model''))"
  unfolding parseCommand_set_model
  by (simp add: violations_def) (intro reportsFirst_bindE reportsFirst_last validator_reports)

lemma reports_set_mode:
  "reportsFirst (parseCommand raw (utf16 ''set_mode'')) (violations raw (utf16 ''set_mode''))"
  unfolding parseCommand_set_mode
  by (simp add: violations_def) (intro reportsFirst_bindE reportsFirst_last validator_reports)

lemma reports_shutdown:
  "reportsFirst (parseCommand raw (utf16 ''shutdown'')) (violations raw (utf16 ''shutdown''))"
  by (simp add: parseCommand_shutdown violations_def)

lemma outcome_path:
  "fieldPath (utf16 ''permission_response'') ''outcome'' = utf16 ''permission_response.outcome''"
  by (simp add: fieldPath_def utf16_def)

lemma reports_permission_response:
  "reportsFirst (parseCommand raw (utf16 ''permission_response''))
     (violations raw (utf16 ''permission_response''))"
proof -
  let ?ctx = "utf16 ''permission_response''"
  let ?rest = "stringViolations raw ?ctx ''session_id'' @ stringViolations raw ?ctx ''tool_call_id''"
  have rest: "reportsFirst
      (bindE (expectString raw ''session_id'' ?ctx) (\<lambda>session_id.
       bindE (expectString raw ''tool_call_id'' ?ctx) (\<lambda>tool_call_id.
       Inr (permission_response session_id tool_call_id parsedOutcome)))) ?rest"
    for parsedOutcome
    by (intro reportsFirst_bindE reportsFirst_last validator_reports)
  have v: "violations raw ?ctx = outcomeViolations raw ?ctx @ ?rest"
    by (simp add: violations_def)
  show ?thesis
  proof (cases "\<exists>obj. get raw ''outcome'' = Some (JObj obj)")
    case False
    then have "asRecord (get raw ''outcome'') (utf16 ''permission_response.outcome'') =
        Inl (Error (utf16 ''permission_response.outcome'' @ utf16 '' must be an object''))"
      by (auto simp add: asRecord_def split: option.splits json.splits)
    moreover have "outcomeViolations raw ?ctx =
        [FieldViolation (utf16 ''permission_response.outcome'') an_object]"
      using False by (auto simp add: outcomeViolations_def outcome_path split: option.splits json.splits)
    ultimately show ?thesis
      unfolding parseCommand_permission_response v by (simp add: bindE_def)
  next
    case True
    then obtain obj where obj: "get raw ''outcome'' = Some (JObj obj)"
      by blast
    then have rec: "asRecord (get raw ''outcome'') (utf16 ''permission_response.outcome'') = Inr obj"
      by (simp add: asRecord_def)
    show ?thesis
    proof (cases "\<exists>outcomeType. get obj ''outcome'' = Some (JStr outcomeType)")
      case False
      then have "expectString obj ''outcome'' (utf16 ''permission_response.outcome'') =
          Inl (Error (fieldPath (utf16 ''permission_response.outcome'') ''outcome''
                 @ utf16 '' must be a string''))"
        by (auto simp add: expectString_def fieldPath_def split: option.splits json.splits)
      moreover have "outcomeViolations raw ?ctx =
          [FieldViolation (fieldPath (utf16 ''permission_response.outcome'') ''outcome'') a_string]"
        using False obj
        by (auto simp add: outcomeViolations_def outcome_path split: option.splits json.splits)
      ultimately show ?thesis
        unfolding parseCommand_permission_response v rec by (simp add: bindE_def)
    next
      case True
      then obtain outcomeType where ty: "get obj ''outcome'' = Some (JStr outcomeType)"
        by blast
      then have str: "expectString obj ''outcome'' (utf16 ''permission_response.outcome'') =
          Inr outcomeType"
        by (simp add: expectString_def)
      consider "outcomeType = utf16 ''selected''" | "outcomeType = utf16 ''cancelled''"
        | "outcomeType \<noteq> utf16 ''selected''" "outcomeType \<noteq> utf16 ''cancelled''"
        by blast
      then show ?thesis
      proof cases
        case 1
        have ov: "outcomeViolations raw ?ctx =
            stringViolations obj (utf16 ''permission_response.outcome'') ''option_id''"
          using obj ty 1 by (simp add: outcomeViolations_def outcome_path)
        have "reportsFirst
            (bindE (bindE (expectString obj ''option_id'' (utf16 ''permission_response.outcome''))
                      (\<lambda>option. Inr (Selected option)))
               (\<lambda>parsedOutcome.
                bindE (expectString raw ''session_id'' ?ctx) (\<lambda>session_id.
                bindE (expectString raw ''tool_call_id'' ?ctx) (\<lambda>tool_call_id.
                Inr (permission_response session_id tool_call_id parsedOutcome)))))
            (stringViolations obj (utf16 ''permission_response.outcome'') ''option_id'' @ ?rest)"
          by (intro reportsFirst_bindE reportsFirst_last validator_reports)
        then show ?thesis
          unfolding parseCommand_permission_response v rec ov using str 1
          by (simp add: bindE_def)
      next
        case 2
        have ov: "outcomeViolations raw ?ctx = []"
          using obj ty 2 by (simp add: outcomeViolations_def)
        show ?thesis
          unfolding parseCommand_permission_response v rec ov using str 2 rest [of Cancelled]
          by (simp add: bindE_def)
      next
        case 3
        have ov: "outcomeViolations raw ?ctx =
            [FieldViolation (fieldPath (utf16 ''permission_response.outcome'') ''outcome'')
               selected_or_cancelled]"
          using obj ty 3 by (simp add: outcomeViolations_def outcome_path)
        have "utf16 ''permission_response.outcome.outcome must be '' =
            fieldPath (utf16 ''permission_response.outcome'') ''outcome'' @ utf16 '' must be ''"
          by (simp add: fieldPath_def utf16_def)
        then show ?thesis
          unfolding parseCommand_permission_response v rec ov using str 3
          by (simp add: bindE_def)
      qed
    qed
  qed
qed

lemmas parseCommand_reports_tags =
  reports_initialize reports_create_session reports_load_session reports_new_session
  reports_prompt reports_cancel_turn reports_set_model reports_set_mode
  reports_permission_response reports_shutdown

lemma parseCommand_reports:
  assumes "commandName \<in> set commandTags"
  shows "reportsFirst (parseCommand raw commandName) (violations raw commandName)"
proof -
  from assms consider "commandName = utf16 ''initialize''" | "commandName = utf16 ''create_session''"
    | "commandName = utf16 ''load_session''" | "commandName = utf16 ''new_session''"
    | "commandName = utf16 ''prompt''" | "commandName = utf16 ''cancel_turn''"
    | "commandName = utf16 ''set_model''" | "commandName = utf16 ''set_mode''"
    | "commandName = utf16 ''permission_response''" | "commandName = utf16 ''shutdown''"
    unfolding commandTags_def by auto
  then show ?thesis
    by cases (simp_all only: parseCommand_reports_tags)
qed

lemma parseCommandEnvelope_object:
  "JSON_parse line = Some (JObj raw) \<Longrightarrow>
   parseCommandEnvelope JSON_parse line =
     bindE (expectString raw ''command'' (utf16 ''command envelope'')) (\<lambda>commandName.
     bindE (parseCommand raw commandName) (\<lambda>command. Inr (requestIdOf raw, command)))"
  by (simp add: parseCommandEnvelope_def asRecord_def bindE_def requestIdOf_def)

lemma parseCommandEnvelope_Inr:
  "parseCommandEnvelope JSON_parse line = Inr (requestId, command) \<longleftrightarrow>
     (case JSON_parse line of
        Some (JObj raw) \<Rightarrow> conforms raw command \<and> requestId = requestIdOf raw
      | _ \<Rightarrow> False)"
proof (cases "\<exists>raw. JSON_parse line = Some (JObj raw)")
  case True
  then obtain raw where raw: "JSON_parse line = Some (JObj raw)"
    by blast
  show ?thesis
    unfolding parseCommandEnvelope_object [of JSON_parse line raw, OF raw]
    using raw by (auto simp add: bindE_Inr_iff expectString_Inr parseCommand_Inr conforms_def)
next
  case False
  then have "\<forall>v. parseCommandEnvelope JSON_parse line \<noteq> Inr v"
    by (auto simp add: parseCommandEnvelope_def asRecord_def bindE_def
        split: option.splits json.splits)
  then show ?thesis
    using False by (auto split: option.splits json.splits)
qed

lemma parseCommandEnvelope_failure:
  "case JSON_parse line of
     None \<Rightarrow> parseCommandEnvelope JSON_parse line = Inl SyntaxError
   | Some (JObj raw) \<Rightarrow>
       (case get raw ''command'' of
          Some (JStr commandName) \<Rightarrow>
            if commandName \<in> set commandTags
            then reportsFirst (parseCommandEnvelope JSON_parse line) (violations raw commandName)
            else parseCommandEnvelope JSON_parse line =
                   Inl (Error (utf16 ''unsupported command: '' @ commandName))
        | _ \<Rightarrow> parseCommandEnvelope JSON_parse line =
                 Inl (Error (utf16 ''command envelope.command must be a string'')))
   | Some _ \<Rightarrow> parseCommandEnvelope JSON_parse line =
              Inl (Error (utf16 ''command envelope must be an object''))"
proof (cases "\<exists>raw. JSON_parse line = Some (JObj raw)")
  case True
  then obtain raw where raw: "JSON_parse line = Some (JObj raw)"
    by blast
  note env = parseCommandEnvelope_object [of JSON_parse line raw, OF raw]
  show ?thesis
  proof (cases "\<exists>commandName. get raw ''command'' = Some (JStr commandName)")
    case True
    then obtain commandName where cn: "get raw ''command'' = Some (JStr commandName)"
      by blast
    then have env': "parseCommandEnvelope JSON_parse line =
        bindE (parseCommand raw commandName) (\<lambda>command. Inr (requestIdOf raw, command))"
      unfolding env by (simp add: expectString_def bindE_def)
    show ?thesis
    proof (cases "commandName \<in> set commandTags")
      case True
      then have "reportsFirst (parseCommandEnvelope JSON_parse line) (violations raw commandName)"
        unfolding env' by (intro reportsFirst_last parseCommand_reports)
      then show ?thesis
        using raw cn True by simp
    next
      case False
      then show ?thesis
        using raw cn unfolding env' by (simp add: parseCommand_unsupported bindE_def)
    qed
  next
    case False
    then have "parseCommandEnvelope JSON_parse line =
        Inl (Error (utf16 ''command envelope.command must be a string''))"
      unfolding env
      by (auto simp add: expectString_def bindE_def utf16_def split: option.splits json.splits)
    then show ?thesis
      using raw False by (auto split: option.splits json.splits)
  qed
next
  case False
  then show ?thesis
    by (auto simp add: parseCommandEnvelope_def asRecord_def bindE_def utf16_append [symmetric]
        split: option.splits json.splits)
qed

lemma prompt_without_chunks:
  assumes "JSON_parse line = Some (JObj raw)"
    and "hasString raw ''command'' (utf16 ''prompt'')"
    and "hasString raw ''session_id'' session_id"
    and "\<forall>rawChunks. get raw ''chunks'' \<noteq> Some (JArr rawChunks)"
  shows "parseCommandEnvelope JSON_parse line = Inl (Error (utf16 ''prompt.chunks must be an array''))"
proof -
  have "parsePromptChunks raw (utf16 ''prompt'') = Inl (Error (utf16 ''prompt.chunks must be an array''))"
    using assms(4) by (auto simp add: parsePromptChunks_def utf16_def split: option.splits json.splits)
  then show ?thesis
    using assms(2,3) unfolding parseCommandEnvelope_object [of JSON_parse line raw, OF assms(1)]
    by (simp add: expectString_def hasString_def bindE_def parseCommand_prompt)
qed

lemmas envelopeLines_defs =
  tableParse_def envelopeLines_def promptLine_def promptWithoutChunksLine_def restartLine_def
  badMetadataLine_def numericRequestIdLine_def

lemmas envelope_eval =
  parseCommandEnvelope_def asRecord_def bindE_def expectString_def optionalMetadata_def
  get_def getProp_def

text \<open>
  Claim C5, as amended. \<open>parseCommandEnvelope\<close> is all-or-nothing. It returns a command
  exactly when the line parses to an object that conforms to the contract of one of
  the ten commands, and the command then holds exactly the envelope's values, with
  the request id when that is a string. Otherwise it fails: with the syntax error of
  \<open>JSON.parse\<close> when the line is not JSON; with "command envelope must be an object"
  when the parsed value is not an object; with "command envelope.command must be a
  string" when the tag is not a string; with "unsupported command: <name>" when the
  tag is not one of the ten; and for one of the ten with the error of the first
  violated field in validation order, whose message is the path of that field
  followed by what the contract requires of it. When the first violation is that of
  \<open>metadata\<close> the parse fails. A \<open>prompt\<close> envelope with a string \<open>session_id\<close> whose
  \<open>chunks\<close> is missing or not an array fails with "prompt.chunks must be an array".
\<close>

theorem parseCommandEnvelope_all_or_nothing:
  "(parseCommandEnvelope JSON_parse line = Inr (requestId, command) \<longleftrightarrow>
      (case JSON_parse line of
         Some (JObj raw) \<Rightarrow> conforms raw command \<and> requestId = requestIdOf raw
       | _ \<Rightarrow> False))
   \<and> (case JSON_parse line of
        None \<Rightarrow> parseCommandEnvelope JSON_parse line = Inl SyntaxError
      | Some (JObj raw) \<Rightarrow>
          (case get raw ''command'' of
             Some (JStr commandName) \<Rightarrow>
               if commandName \<in> set commandTags
               then reportsFirst (parseCommandEnvelope JSON_parse line) (violations raw commandName)
               else parseCommandEnvelope JSON_parse line =
                      Inl (Error (utf16 ''unsupported command: '' @ commandName))
           | _ \<Rightarrow> parseCommandEnvelope JSON_parse line =
                    Inl (Error (utf16 ''command envelope.command must be a string'')))
      | Some _ \<Rightarrow> parseCommandEnvelope JSON_parse line =
                 Inl (Error (utf16 ''command envelope must be an object'')))
   \<and> (JSON_parse line = Some (JObj obj) \<and> hasString obj ''command'' (utf16 ''prompt'')
        \<and> hasString obj ''session_id'' session_id
        \<and> (\<forall>rawChunks. get obj ''chunks'' \<noteq> Some (JArr rawChunks))
      \<longrightarrow> parseCommandEnvelope JSON_parse line =
            Inl (Error (utf16 ''prompt.chunks must be an array'')))"
  using parseCommandEnvelope_Inr [of JSON_parse line requestId command]
    parseCommandEnvelope_failure [of JSON_parse line]
    prompt_without_chunks [of JSON_parse line obj session_id]
  by blast

lemma twoViolations:
  "violations
     [(utf16 ''command'', JStr (utf16 ''create_session'')), (utf16 ''cwd'', JStr (utf16 ''/w'')),
      (utf16 ''yolo'', JStr (utf16 ''yes'')), (utf16 ''model'', JNum (Finite 5))]
     (utf16 ''create_session'') =
   [FieldViolation (utf16 ''create_session.yolo'') a_boolean,
    FieldViolation (utf16 ''create_session.model'') a_string_when_provided]"
  by (simp add: violations_def stringViolations_def booleanViolations_def
      optionalStringViolations_def metadataViolations_def fieldPath_def get_def getProp_def
      utf16_append [symmetric])

lemma decimal_1: "decimal (Suc 0) = ''1''"
  by code_simp

lemma badChunkViolations:
  "violations
     [(utf16 ''command'', JStr (utf16 ''prompt'')), (utf16 ''session_id'', JStr (utf16 ''s1'')),
      (utf16 ''chunks'', JArr [JObj [(utf16 ''kind'', JStr (utf16 ''text''))],
                               JObj [(utf16 ''value'', JNum (Finite 1))]])]
     (utf16 ''prompt'') =
   [FieldViolation (utf16 ''prompt.chunks[1].kind'') a_string]"
  by (simp add: violations_def stringViolations_def chunksViolations_def chunkViolations_def
      chunkPath_def fieldPath_def get_def getProp_def decimal_1 utf16_append [symmetric])

text \<open>
  A well-formed \<open>prompt\<close> line parses to its fields; one without \<open>chunks\<close> fails. A
  \<open>create_session\<close> line with a string for \<open>yolo\<close> and a number for \<open>model\<close> fails on
  \<open>yolo\<close>, and a \<open>prompt\<close> line whose second chunk has no \<open>kind\<close> fails on that chunk.
\<close>

theorem parseCommandEnvelope_all_or_nothing_witness:
  "parseCommandEnvelope (tableParse envelopeLines) (utf16 promptLine) =
     Inr (Some (utf16 ''r1''),
          prompt (utf16 ''s1'') [\<lparr>kind_of = utf16 ''text'', value_of = JStr (utf16 ''hi'')\<rparr>])
   \<and> parseCommandEnvelope (tableParse envelopeLines) (utf16 promptWithoutChunksLine) =
     Inl (Error (utf16 ''prompt.chunks must be an array''))
   \<and> parseCommandEnvelope (tableParse violationLines) (utf16 twoViolationsLine) =
     Inl (Error (utf16 ''create_session.yolo must be a boolean''))
   \<and> parseCommandEnvelope (tableParse violationLines) (utf16 badChunkLine) =
     Inl (Error (utf16 ''prompt.chunks[1].kind must be a string''))"
proof -
  let ?chunk = "\<lparr>kind_of = utf16 ''text'', value_of = JStr (utf16 ''hi'')\<rparr>"
  have "parseCommandEnvelope (tableParse envelopeLines) (utf16 promptLine) =
     Inr (Some (utf16 ''r1''), prompt (utf16 ''s1'') [?chunk])"
    using parseCommandEnvelope_all_or_nothing [where JSON_parse = "tableParse envelopeLines"
        and line = "utf16 promptLine" and requestId = "Some (utf16 ''r1'')"
        and command = "prompt (utf16 ''s1'') [?chunk]"]
    by (simp add: envelopeLines_defs conforms_def hasString_def chunkConforms_def requestIdOf_def
        get_def getProp_def)
  moreover have "parseCommandEnvelope (tableParse envelopeLines) (utf16 promptWithoutChunksLine) =
     Inl (Error (utf16 ''prompt.chunks must be an array''))"
    using parseCommandEnvelope_all_or_nothing [where JSON_parse = "tableParse envelopeLines"
        and line = "utf16 promptWithoutChunksLine"
        and obj = "[(utf16 ''command'', JStr (utf16 ''prompt'')), (utf16 ''session_id'', JStr (utf16 ''s1''))]"
        and session_id = "utf16 ''s1''"]
    by (simp add: envelopeLines_defs hasString_def get_def getProp_def)
  moreover have "parseCommandEnvelope (tableParse violationLines) (utf16 twoViolationsLine) =
     Inl (Error (utf16 ''create_session.yolo must be a boolean''))"
  proof -
    have "tableParse violationLines (utf16 twoViolationsLine) =
        Some (JObj [(utf16 ''command'', JStr (utf16 ''create_session'')),
                    (utf16 ''cwd'', JStr (utf16 ''/w'')), (utf16 ''yolo'', JStr (utf16 ''yes'')),
                    (utf16 ''model'', JNum (Finite 5))])"
      by (simp add: tableParse_def violationLines_def twoViolationsLine_def badChunkLine_def)
    then show ?thesis
      using parseCommandEnvelope_all_or_nothing [where JSON_parse = "tableParse violationLines"
          and line = "utf16 twoViolationsLine"]
      by (simp add: twoViolations commandTags_def get_def getProp_def utf16_append [symmetric])
  qed
  moreover have "parseCommandEnvelope (tableParse violationLines) (utf16 badChunkLine) =
     Inl (Error (utf16 ''prompt.chunks[1].kind must be a string''))"
  proof -
    have "tableParse violationLines (utf16 badChunkLine) =
        Some (JObj [(utf16 ''command'', JStr (utf16 ''prompt'')),
                    (utf16 ''session_id'', JStr (utf16 ''s1'')),
                    (utf16 ''chunks'', JArr [JObj [(utf16 ''kind'', JStr (utf16 ''text''))],
                                             JObj [(utf16 ''value'', JNum (Finite 1))]])])"
      by (simp add: tableParse_def violationLines_def twoViolationsLine_def badChunkLine_def)
    then show ?thesis
      using parseCommandEnvelope_all_or_nothing [where JSON_parse = "tableParse violationLines"
          and line = "utf16 badChunkLine"]
      by (simp add: badChunkViolations commandTags_def get_def getProp_def utf16_append [symmetric])
  qed
  ultimately show ?thesis by blast
qed

text \<open>
  Claim C5 as stated says that every failure names the offending field path. Three
  lines fail otherwise: one that is not JSON fails with the syntax error, an array
  fails with a message about the envelope, and a numeric \<open>metadata\<close> fails with a
  message that has no path under \<open>initialize\<close>.
\<close>

theorem parseCommandEnvelope_field_path_counterexample:
  "parseCommandEnvelope (tableParse envelopeLines) (utf16 ''{'') = Inl SyntaxError
   \<and> parseCommandEnvelope (tableParse envelopeLines) (utf16 ''[]'') =
       Inl (Error (utf16 ''command envelope must be an object''))
   \<and> parseCommandEnvelope (tableParse envelopeLines) (utf16 badMetadataLine) =
       Inl (Error (utf16 ''metadata metadata must be an object''))"
  by (simp add: envelopeLines_defs envelope_eval parseCommand_initialize
      utf16_append [symmetric])

text \<open>
  Claim C10. When the line parses to an object that conforms to a command and whose
  \<open>request_id\<close> is present but not a string, the parser does not fail: it returns
  that command with no request id.
\<close>

theorem request_id_not_validated:
  "JSON_parse line = Some (JObj raw) \<and> get raw ''request_id'' = Some v \<and> (\<forall>s. v \<noteq> JStr s)
   \<and> conforms raw command
   \<longrightarrow> parseCommandEnvelope JSON_parse line = Inr (None, command)"
proof
  assume a: "JSON_parse line = Some (JObj raw) \<and> get raw ''request_id'' = Some v
    \<and> (\<forall>s. v \<noteq> JStr s) \<and> conforms raw command"
  then have "requestIdOf raw = None"
    by (cases v) (simp_all add: requestIdOf_def)
  then show "parseCommandEnvelope JSON_parse line = Inr (None, command)"
    using a parseCommandEnvelope_Inr [of JSON_parse line None command] by simp
qed

text \<open>A \<open>cancel_turn\<close> line with the numeric request id 7.\<close>

theorem request_id_not_validated_witness:
  "parseCommandEnvelope (tableParse envelopeLines) (utf16 numericRequestIdLine) =
     Inr (None, cancel_turn (utf16 ''s1''))"
  using request_id_not_validated [of "tableParse envelopeLines" "utf16 numericRequestIdLine"
      "[(utf16 ''request_id'', JNum (Finite 7)), (utf16 ''command'', JStr (utf16 ''cancel_turn'')),
        (utf16 ''session_id'', JStr (utf16 ''s1''))]"
      "JNum (Finite 7)" "cancel_turn (utf16 ''s1'')"]
  by (simp add: envelopeLines_defs conforms_def hasString_def get_def getProp_def)

section \<open>Session titles: properties\<close>

lemma concat_arrayFrom: "concat (arrayFrom s) = s"
  by (induction s rule: arrayFrom.induct) auto

lemma arrayFrom_Cons_hd: "\<exists>e es. arrayFrom (v # rest) = (v # e) # es"
  by (cases rest) auto

lemma arrayFrom_concat_take:
  "arrayFrom (concat (take n (arrayFrom s))) = take n (arrayFrom s)"
proof (induction s arbitrary: n rule: arrayFrom.induct)
  case 1
  show ?case by simp
next
  case (2 u)
  show ?case by (cases n) simp_all
next
  case (3 u v rest)
  show ?case
  proof (cases n)
    case 0
    then show ?thesis by simp
  next
    case (Suc m)
    show ?thesis
    proof (cases "isHighSurrogate u \<and> isLowSurrogate v")
      case True
      then show ?thesis
        using "3.IH"(1) [OF True, of m] Suc by simp
    next
      case False
      note ih = "3.IH"(2) [OF False, of m]
      show ?thesis
      proof (cases m)
        case 0
        then show ?thesis using False Suc by simp
      next
        case (Suc k)
        obtain e es where es: "arrayFrom (v # rest) = (v # e) # es"
          using arrayFrom_Cons_hd by blast
        then have "concat (take m (arrayFrom (v # rest))) = v # (e @ concat (take k es))"
          using Suc by simp
        then show ?thesis
          using False \<open>n = Suc m\<close> ih by auto
      qed
    qed
  qed
qed

lemma arrayFrom_truncate:
  "arrayFrom (truncateTextByChars text n) = take n (arrayFrom text)"
  by (simp add: truncateTextByChars_def Let_def arrayFrom_concat_take)

lemma truncate_concat:
  "truncateTextByChars text n = concat (take n (arrayFrom text))"
  by (simp add: truncateTextByChars_def Let_def concat_arrayFrom)

lemma title_of_record:
  "firstUserMessageTitleFromRecord rcd =
     (case userContent rcd of None \<Rightarrow> None | Some blocks \<Rightarrow> titleLoop [] blocks)"
  by (auto simp add: firstUserMessageTitleFromRecord_def userContent_def
      split: option.splits json.splits)

lemma titleLoop_bound:
  "titleLoop parts items = Some title \<Longrightarrow> length (arrayFrom title) \<le> 180"
proof (induction items arbitrary: parts)
  case Nil
  then show ?case
    by (auto simp add: arrayFrom_truncate split: if_splits)
next
  case (Cons item items)
  then show ?case
    by (auto simp add: arrayFrom_truncate Let_def split: option.splits json.splits if_splits)
qed

lemma titleLoop_stops:
  "length (arrayFrom (joinWith (utf16 '' '') parts)) < 180 \<Longrightarrow>
   180 \<le> length (arrayFrom (joinWith (utf16 '' '') (parts @ cleanedTexts items))) \<Longrightarrow>
   titleLoop parts (items @ further) = titleLoop parts items"
proof (induction items arbitrary: parts)
  case Nil
  then show ?case by simp
next
  case (Cons item items)
  show ?case
  proof (cases "cleanedTexts (item # items) = cleanedTexts items")
    case True
    then have skip: "\<And>rest. titleLoop parts (item # rest) = titleLoop parts rest"
      by (auto simp add: Let_def split: option.splits json.splits if_splits)
    show ?thesis
      using Cons.IH [of parts] Cons.prems True skip by simp
  next
    case False
    then obtain block blockText where item: "item = JObj block"
      "get block ''type'' = Some (JStr (utf16 ''text''))" "get block ''text'' = Some (JStr blockText)"
      "normalizeUserPromptText blockText \<noteq> []"
      "cleanedTexts (item # items) = normalizeUserPromptText blockText # cleanedTexts items"
      by (auto split: option.splits json.splits if_splits)
    let ?parts = "parts @ [normalizeUserPromptText blockText]"
    show ?thesis
    proof (cases "180 \<le> length (arrayFrom (joinWith (utf16 '' '') ?parts))")
      case True
      then show ?thesis using item by (simp add: Let_def)
    next
      case False
      then have "titleLoop ?parts (items @ further) = titleLoop ?parts items"
        using Cons.IH [of ?parts] Cons.prems item by simp
      then show ?thesis using item False by (simp add: Let_def)
    qed
  qed
qed

lemma asciiUpper_lt: "asciiUpper u = 0x003C \<Longrightarrow> u = 0x003C"
  unfolding asciiUpper_def by (auto split: if_splits)

lemma stripContext_plain: "\<forall>u \<in> set s. u \<noteq> 0x003C \<Longrightarrow> stripContext s = s"
proof (induction s)
  case Nil
  show ?case by simp
next
  case (Cons c cs)
  have "\<not> startsWithIgnoreCase (c # cs) (utf16 ''<context'')"
  proof
    assume "startsWithIgnoreCase (c # cs) (utf16 ''<context'')"
    then have "asciiUpper c = asciiUpper 0x003C"
      by (simp add: startsWithIgnoreCase_def utf16_def)
    then have "asciiUpper c = 0x003C"
      by (simp add: asciiUpper_def)
    then show False
      using Cons.prems asciiUpper_lt by auto
  qed
  then show ?case using Cons by simp
qed

lemma matchLink_other: "c \<noteq> 0x005B \<Longrightarrow> matchLink (c # cs) = None"
  by (simp add: matchLink_def)

lemma replaceLinks_plain: "\<forall>u \<in> set s. u \<noteq> 0x005B \<Longrightarrow> replaceLinks s = s"
proof (induction s)
  case Nil
  show ?case by simp
next
  case (Cons c cs)
  then have "matchLink (c # cs) = None"
    by (simp add: matchLink_other)
  then show ?case using Cons by simp
qed

lemma collapseWhiteSpace_plain: "\<forall>u \<in> set s. \<not> isWhiteSpace u \<Longrightarrow> collapseWhiteSpace s = s"
  by (induction s) auto

lemma dropWhile_none:
  assumes "\<forall>u \<in> set s. \<not> P u"
  shows "dropWhile P s = s"
proof (cases s)
  case Nil
  then show ?thesis by simp
next
  case (Cons c cs)
  then have "\<not> P c" using assms by simp
  then show ?thesis using Cons by simp
qed

lemma trim_plain: "\<forall>u \<in> set s. \<not> isWhiteSpace u \<Longrightarrow> trim s = s"
proof -
  assume a: "\<forall>u \<in> set s. \<not> isWhiteSpace u"
  then have "\<forall>u \<in> set (rev s). \<not> isWhiteSpace u"
    by simp
  then have "dropWhile isWhiteSpace (rev s) = rev s"
    by (rule dropWhile_none)
  moreover have "dropWhile isWhiteSpace s = s"
    using a by (rule dropWhile_none)
  ultimately show ?thesis by (simp add: trim_def)
qed

lemma normalize_plain: "\<forall>u \<in> set s. plainUnit u \<Longrightarrow> normalizeUserPromptText s = s"
  by (simp add: normalizeUserPromptText_def plainUnit_def stripContext_plain replaceLinks_plain
      collapseWhiteSpace_plain trim_plain)

lemma arrayFrom_replicate:
  "\<not> isHighSurrogate a \<Longrightarrow> arrayFrom (replicate n a @ s) = replicate n [a] @ arrayFrom s"
proof (induction n)
  case 0
  show ?case by simp
next
  case (Suc n)
  then show ?case
    by (cases "replicate n a @ s") auto
qed

lemma longText_plain: "\<forall>u \<in> set longText. plainUnit u"
  by (simp add: longText_def plainUnit_def isWhiteSpace_def utf16_def)

lemma longText_normal: "normalizeUserPromptText longText = longText"
  using longText_plain by (rule normalize_plain)

lemma longText_arrayFrom:
  "arrayFrom longText = replicate 179 [0x0061] @ [[0xD83D, 0xDE00], utf16 ''b'']"
  by (simp add: longText_def arrayFrom_replicate isHighSurrogate_def isLowSurrogate_def utf16_def)

lemma longText_nonempty: "longText \<noteq> []"
  by (simp add: longText_def)

lemma longText_bound: "180 \<le> length (arrayFrom (joinWith (utf16 '' '') ([] @ cleanedTexts [textBlock longText])))"
  by (simp add: textBlock_def get_def getProp_def longText_normal longText_arrayFrom)
    (simp add: longText_def)

lemma userContent_userRecord: "userContent (userRecord blocks) = Some blocks"
  by (simp add: userContent_def userRecord_def get_def getProp_def)

lemma bounded_title: "bounded (firstUserMessageTitleFromRecord rcd)"
  by (auto simp add: bounded_def title_of_record split: option.splits dest: titleLoop_bound)

lemma previewLoop_bound:
  "bounded title \<Longrightarrow> bounded (snd (previewLoop JSON_parse cwd title ls))"
proof (induction ls arbitrary: cwd title)
  case Nil
  then show ?case by simp
next
  case (Cons rawLine rest)
  have next_title: "\<And>rcd. bounded (if \<not> isSet title then firstUserMessageTitleFromRecord rcd else title)"
    using Cons.prems bounded_title by simp
  show ?case
    using Cons.IH [OF Cons.prems] Cons.IH [OF next_title] next_title
    by (simp add: Let_def split: option.splits)
qed

lemma preview_bound:
  "snd (extractSessionPreviewFromJsonl JSON_parse readFileSync filePath) = Some t \<Longrightarrow>
   length (arrayFrom t) \<le> 180"
proof -
  assume a: "snd (extractSessionPreviewFromJsonl JSON_parse readFileSync filePath) = Some t"
  show ?thesis
  proof (cases "readFileSync filePath")
    case None
    then show ?thesis
      using a by (simp add: extractSessionPreviewFromJsonl_def)
  next
    case (Some fileText)
    have "bounded (snd (previewLoop JSON_parse None None (splitLines fileText)))"
      by (rule previewLoop_bound) (simp add: bounded_def)
    then show ?thesis
      using a Some
      by (auto simp add: extractSessionPreviewFromJsonl_def bounded_def split: prod.splits if_splits)
  qed
qed

text \<open>
  Claim C9. A title derived from a record, and the title of a session preview, have
  at most 180 code points. \<open>Array.from\<close> cuts a text
  into its code points, and what \<open>truncateTextByChars\<close> returns is the concatenation
  of the first \<open>maxChars\<close> of them, with exactly those as its code points: no
  surrogate pair is cut in two. Once the running concatenation of the cleaned text
  blocks has reached 180 code points, the blocks that follow do not change the title.
\<close>

theorem title_at_most_180_code_points:
  "(firstUserMessageTitleFromRecord rcd = Some title \<longrightarrow> length (arrayFrom title) \<le> 180)
   \<and> (snd (extractSessionPreviewFromJsonl JSON_parse readFileSync filePath) = Some title
      \<longrightarrow> length (arrayFrom title) \<le> 180)
   \<and> concat (arrayFrom str) = str
   \<and> truncateTextByChars str maxChars = concat (take maxChars (arrayFrom str))
   \<and> arrayFrom (truncateTextByChars str maxChars) = take maxChars (arrayFrom str)
   \<and> (userContent rcd = Some items \<and> userContent rcd' = Some (items @ further)
        \<and> 180 \<le> length (arrayFrom (joinWith (utf16 '' '') (cleanedTexts items)))
      \<longrightarrow> firstUserMessageTitleFromRecord rcd' = firstUserMessageTitleFromRecord rcd)"
proof -
  have "firstUserMessageTitleFromRecord rcd = Some title \<longrightarrow> length (arrayFrom title) \<le> 180"
    by (auto simp add: title_of_record split: option.splits dest: titleLoop_bound)
  moreover have "userContent rcd = Some items \<and> userContent rcd' = Some (items @ further)
        \<and> 180 \<le> length (arrayFrom (joinWith (utf16 '' '') (cleanedTexts items)))
      \<longrightarrow> firstUserMessageTitleFromRecord rcd' = firstUserMessageTitleFromRecord rcd"
    using titleLoop_stops [of "[]" items further] by (auto simp add: title_of_record)
  moreover have "snd (extractSessionPreviewFromJsonl JSON_parse readFileSync filePath) = Some title
      \<longrightarrow> length (arrayFrom title) \<le> 180"
    using preview_bound [of JSON_parse readFileSync filePath title] by blast
  ultimately show ?thesis
    by (simp add: concat_arrayFrom truncate_concat arrayFrom_concat_take)
qed

text \<open>
  A block of 181 code points gives a title of 180 code points in 181 code units, the
  pair kept whole, and a second block changes nothing.
\<close>

theorem title_at_most_180_code_points_witness:
  "firstUserMessageTitleFromRecord (userRecord [textBlock longText, textBlock (utf16 ''more'')]) =
     Some (replicate 179 0x0061 @ [0xD83D, 0xDE00])
   \<and> firstUserMessageTitleFromRecord (userRecord [textBlock longText]) =
     Some (replicate 179 0x0061 @ [0xD83D, 0xDE00])
   \<and> length (arrayFrom (replicate 179 0x0061 @ [0xD83D, 0xDE00])) = 180
   \<and> length (replicate 179 (0x0061 :: 16 word) @ [0xD83D, 0xDE00]) = 181"
proof -
  have one: "firstUserMessageTitleFromRecord (userRecord [textBlock longText]) =
     Some (truncateTextByChars longText 180)"
    using longText_bound longText_nonempty
    by (simp add: title_of_record userContent_userRecord textBlock_def get_def getProp_def
        longText_normal Let_def)
  have cut: "truncateTextByChars longText 180 = replicate 179 0x0061 @ [0xD83D, 0xDE00]"
    using title_at_most_180_code_points [where str = longText and maxChars = 180]
    by (simp add: longText_arrayFrom concat_replicate_single)
  have same: "firstUserMessageTitleFromRecord (userRecord ([textBlock longText] @ [textBlock (utf16 ''more'')])) =
      firstUserMessageTitleFromRecord (userRecord [textBlock longText])"
    using title_at_most_180_code_points [where rcd = "userRecord [textBlock longText]"
        and items = "[textBlock longText]"
        and rcd' = "userRecord ([textBlock longText] @ [textBlock (utf16 ''more'')])"
        and further = "[textBlock (utf16 ''more'')]"]
      longText_bound userContent_userRecord
    by simp
  have len: "length (arrayFrom (replicate 179 0x0061 @ [0xD83D, 0xDE00])) = 180"
    by (simp add: arrayFrom_replicate isHighSurrogate_def isLowSurrogate_def)
  show ?thesis
    using one cut same len by simp
qed

section \<open>Conversation replay: properties\<close>

lemma processLine_skip: "\<not> keptLine JSON_parse l \<Longrightarrow> processLine T JSON_parse st l = st"
  by (auto simp add: keptLine_def processLine_def Let_def split: option.splits json.splits)

lemma foldl_processLine_filter:
  "foldl (processLine T JSON_parse) st (filter (keptLine JSON_parse) ls) =
   foldl (processLine T JSON_parse) st ls"
  by (induction ls arbitrary: st) (simp_all add: processLine_skip)

lemma processLine_trim:
  "trim l = trim l' \<Longrightarrow> processLine T JSON_parse st l = processLine T JSON_parse st l'"
  by (simp add: processLine_def)

lemma foldl_processLine_trim:
  "map trim ls = map trim ls' \<Longrightarrow>
   foldl (processLine T JSON_parse) st ls = foldl (processLine T JSON_parse) st ls'"
proof (induction ls arbitrary: ls' st)
  case Nil
  then show ?case by simp
next
  case (Cons l ls)
  then obtain l' ks where ls': "ls' = l' # ks" "trim l = trim l'" "map trim ls = map trim ks"
    by (cases ls') auto
  then show ?case
    using Cons.IH [of ks] processLine_trim [of l l' T JSON_parse st] by simp
qed

lemma splitLines_no_LF: "l \<in> set (splitLines s) \<Longrightarrow> 0x000A \<notin> set l"
proof (induction s arbitrary: l rule: splitLines.induct)
  case 1
  then show ?case by simp
next
  case (2 c cs)
  then show ?case
    by (auto split: if_splits list.splits)
qed

lemma splitLines_single: "0x000A \<notin> set x \<Longrightarrow> splitLines x = [x]"
proof (induction x)
  case Nil
  show ?case by simp
next
  case (Cons c cs)
  then show ?case
    by (cases cs) auto
qed

lemma splitLines_append_LF:
  "0x000A \<notin> set x \<Longrightarrow>
   splitLines (x @ 0x000A # rest) =
     (if x \<noteq> [] \<and> last x = 0x000D then butlast x else x) # splitLines rest"
proof (induction x)
  case Nil
  show ?case by simp
next
  case (Cons c cs)
  then show ?case
    by (cases cs) auto
qed

lemma isWhiteSpace_CR: "isWhiteSpace 0x000D"
  by (simp add: isWhiteSpace_def)

lemma trim_snoc_CR: "trim (y @ [0x000D]) = trim y"
proof (cases "\<forall>u \<in> set y. isWhiteSpace u")
  case True
  then have "\<forall>u \<in> set (y @ [0x000D]). isWhiteSpace u"
    by (simp add: isWhiteSpace_CR)
  then have a: "dropWhile isWhiteSpace (y @ [0x000D]) = []"
    by (simp only: dropWhile_eq_Nil_conv)
  have b: "dropWhile isWhiteSpace y = []"
    using True by (simp only: dropWhile_eq_Nil_conv)
  show ?thesis
    unfolding trim_def a b by (rule refl)
next
  case False
  then obtain u where "u \<in> set y" "\<not> isWhiteSpace u"
    by blast
  then have c: "dropWhile isWhiteSpace (y @ [0x000D]) = dropWhile isWhiteSpace y @ [0x000D]"
    by (rule dropWhile_append1)
  show ?thesis
    unfolding trim_def c by (simp add: isWhiteSpace_CR)
qed

lemma trim_butlast_CR: "x \<noteq> [] \<Longrightarrow> last x = 0x000D \<Longrightarrow> trim (butlast x) = trim x"
  using trim_snoc_CR [of "butlast x"] by (metis append_butlast_last_id)

lemma splitLines_joinWith:
  "ls \<noteq> [] \<Longrightarrow> \<forall>l \<in> set ls. 0x000A \<notin> set l \<Longrightarrow>
   map trim (splitLines (joinWith [0x000A] ls)) = map trim ls"
proof (induction ls)
  case Nil
  then show ?case by simp
next
  case (Cons x xs)
  show ?case
  proof (cases xs)
    case Nil
    then show ?thesis
      using Cons.prems by (simp add: splitLines_single)
  next
    case (Cons y ys)
    then have "map trim (splitLines (joinWith [0x000A] xs)) = map trim xs"
      using Cons.IH Cons.prems by simp
    then show ?thesis
      using Cons Cons.prems by (simp add: splitLines_append_LF trim_butlast_CR)
  qed
qed

lemma replay_without_malformed:
  "foldl (processLine T JSON_parse) st (splitLines (withoutMalformedLines JSON_parse fileText)) =
   foldl (processLine T JSON_parse) st (splitLines fileText)"
proof -
  let ?kept = "filter (keptLine JSON_parse) (splitLines fileText)"
  have "foldl (processLine T JSON_parse) st (splitLines (joinWith [0x000A] ?kept)) =
      foldl (processLine T JSON_parse) st ?kept"
  proof (cases "?kept = []")
    case True
    have "\<not> keptLine JSON_parse []"
      by (simp add: keptLine_def trim_def)
    then show ?thesis
      using True by (simp add: processLine_skip)
  next
    case False
    have "\<forall>l \<in> set ?kept. 0x000A \<notin> set l"
      using splitLines_no_LF by auto
    then have "map trim (splitLines (joinWith [0x000A] ?kept)) = map trim ?kept"
      using False by (rule splitLines_joinWith [rotated])
    then show ?thesis
      by (rule foldl_processLine_trim)
  qed
  then show ?thesis
    by (simp add: withoutMalformedLines_def foldl_processLine_filter)
qed

lemma sampleLog_cleaned: "withoutMalformedLines (tableParse logLines) sampleLog = cleanedLog"
  by code_simp

lemma sampleLog_replay:
  "extractSessionHistoryUpdatesFromJsonl sampleTooling (tableParse logLines) sampleFiles
     (utf16 ''a.jsonl'') = sampleUpdates"
  by code_simp

text \<open>
  Claim C1. The updates returned for a log are, in order, those returned for the
  same log with every line removed that is blank or malformed (not JSON, or not an
  object). The same holds line by line: the state after any list of raw lines is
  the state after its kept lines.
\<close>

theorem replay_skips_malformed_lines:
  "(readFileSync filePath = Some fileText
    \<and> otherFiles otherPath = Some (withoutMalformedLines JSON_parse fileText)
    \<longrightarrow> extractSessionHistoryUpdatesFromJsonl T JSON_parse otherFiles otherPath =
        extractSessionHistoryUpdatesFromJsonl T JSON_parse readFileSync filePath)
   \<and> foldl (processLine T JSON_parse) st (filter (keptLine JSON_parse) rawLines) =
       foldl (processLine T JSON_parse) st rawLines"
  using replay_without_malformed [of T JSON_parse initialReplayState fileText]
    foldl_processLine_filter [of T JSON_parse st rawLines]
  by (simp add: extractSessionHistoryUpdatesFromJsonl_def)

text \<open>The log of six lines and the log of its three kept lines give the same four updates.\<close>

theorem replay_skips_malformed_lines_witness:
  "extractSessionHistoryUpdatesFromJsonl sampleTooling (tableParse logLines) sampleFiles
     (utf16 ''b.jsonl'') =
   extractSessionHistoryUpdatesFromJsonl sampleTooling (tableParse logLines) sampleFiles
     (utf16 ''a.jsonl'')
   \<and> extractSessionHistoryUpdatesFromJsonl sampleTooling (tableParse logLines) sampleFiles
     (utf16 ''a.jsonl'') = sampleUpdates"
proof -
  have "sampleFiles (utf16 ''a.jsonl'') = Some sampleLog
    \<and> sampleFiles (utf16 ''b.jsonl'') = Some (withoutMalformedLines (tableParse logLines) sampleLog)"
    by (simp add: sampleFiles_def sampleLog_cleaned)
  then have "extractSessionHistoryUpdatesFromJsonl sampleTooling (tableParse logLines) sampleFiles
     (utf16 ''b.jsonl'') =
   extractSessionHistoryUpdatesFromJsonl sampleTooling (tableParse logLines) sampleFiles
     (utf16 ''a.jsonl'')"
    using replay_skips_malformed_lines [of sampleFiles "utf16 ''a.jsonl''" sampleLog sampleFiles
        "utf16 ''b.jsonl''" "tableParse logLines" sampleTooling]
    by blast
  then show ?thesis
    using sampleLog_replay by simp
qed

lemma usagesOf_append: "usagesOf (xs @ ys) = usagesOf xs @ usagesOf ys"
  by (induction xs rule: usagesOf.induct) simp_all

lemma usagesOf_map: "usagesOf (map (map_SessionUpdate f g) xs) = usagesOf xs"
  by (induction xs rule: usagesOf.induct) simp_all

lemma pushResumeTextChunk_frame:
  "emittedUsageMessageIds (pushResumeTextChunk st role t) = emittedUsageMessageIds st
   \<and> usagesOf (updates (pushResumeTextChunk st role t)) = usagesOf (updates st)"
  by (simp add: pushResumeTextChunk_def usagesOf_append)

lemma pushResumeToolUse_frame:
  "emittedUsageMessageIds (pushResumeToolUse T st block) = emittedUsageMessageIds st
   \<and> usagesOf (updates (pushResumeToolUse T st block)) = usagesOf (updates st)"
  by (simp add: pushResumeToolUse_def Let_def usagesOf_append)

lemma pushResumeToolResult_frame:
  "emittedUsageMessageIds (pushResumeToolResult T st block) = emittedUsageMessageIds st
   \<and> usagesOf (updates (pushResumeToolResult T st block)) = usagesOf (updates st)"
  by (simp add: pushResumeToolResult_def Let_def usagesOf_append split: option.splits)

lemma processBlock_frame:
  "emittedUsageMessageIds (processBlock T role st item) = emittedUsageMessageIds st
   \<and> usagesOf (updates (processBlock T role st item)) = usagesOf (updates st)"
  by (simp add: processBlock_def Let_def pushResumeTextChunk_frame pushResumeToolUse_frame
      pushResumeToolResult_frame split: option.splits)

lemma foldl_processBlock_frame:
  "emittedUsageMessageIds (foldl (processBlock T role) st items) = emittedUsageMessageIds st
   \<and> usagesOf (updates (foldl (processBlock T role) st items)) = usagesOf (updates st)"
  by (induction items arbitrary: st) (simp_all add: processBlock_frame)

lemma processBlocks_frame:
  "emittedUsageMessageIds (processBlocks T role st message) = emittedUsageMessageIds st
   \<and> usagesOf (updates (processBlocks T role st message)) = usagesOf (updates st)"
  by (simp add: processBlocks_def Let_def foldl_processBlock_frame)

lemma buildUsageUpdateFromResult_usage:
  "buildUsageUpdateFromResult message = Some x \<Longrightarrow> \<exists>u. x = usage_update u"
  by (auto simp add: buildUsageUpdateFromResult_def buildUsageUpdateFromResultForSession_def
      Let_def simp del: numberField.simps split: prod.splits if_splits)

lemma pushResumeUsageUpdate_cases:
  fixes st :: "('z, 'y) ReplayState"
  shows "(updates (pushResumeUsageUpdate st m) = updates st
     \<and> emittedUsageMessageIds (pushResumeUsageUpdate st m) = emittedUsageMessageIds st)
   \<or> (\<exists>u. updates (pushResumeUsageUpdate st m) = updates st @ [usage_update u]
        \<and> (messageIdOf m \<noteq> [] \<longrightarrow> messageIdOf m \<notin> emittedUsageMessageIds st)
        \<and> emittedUsageMessageIds (pushResumeUsageUpdate st m) =
            (if messageIdOf m \<noteq> [] then insert (messageIdOf m) (emittedUsageMessageIds st)
             else emittedUsageMessageIds st))"
proof (cases "buildUsageUpdateFromResult m :: (nat, 'y ToolCallUpdateFields_scheme) SessionUpdate option")
  case None
  then show ?thesis
    by (simp add: pushResumeUsageUpdate_def Let_def)
next
  case (Some x)
  then obtain u where "x = usage_update u"
    using buildUsageUpdateFromResult_usage by blast
  then show ?thesis
    using Some by (simp add: pushResumeUsageUpdate_def Let_def messageIdOf_def)
qed

lemma processMessage_no_role: "\<not> hasReplayRole m \<Longrightarrow> processMessage T st m = st"
  by (auto simp add: processMessage_def hasReplayRole_def split: option.splits json.splits)

lemma usageOfMessage_no_role: "\<not> hasReplayRole m \<Longrightarrow> usageOfMessage T st m = []"
  by (auto simp add: usageOfMessage_def hasReplayRole_def split: option.splits json.splits)

lemma processMessage_role:
  "get m ''role'' = Some (JStr role) \<Longrightarrow> hasReplayRole m \<Longrightarrow>
   processMessage T st m = pushResumeUsageUpdate (processBlocks T role st m) m"
  by (auto simp add: processMessage_def hasReplayRole_def)

lemma usageOfMessage_role:
  "get m ''role'' = Some (JStr role) \<Longrightarrow> hasReplayRole m \<Longrightarrow>
   usageOfMessage T st m =
     map (\<lambda>u. (messageIdOf m, u))
       (usagesOf (drop (length (updates (processBlocks T role st m)))
          (updates (pushResumeUsageUpdate (processBlocks T role st m) m))))"
  by (auto simp add: usageOfMessage_def hasReplayRole_def Let_def)

lemma message_step:
  "emittedUsageMessageIds st \<subseteq> emittedUsageMessageIds (processMessage T st m)
   \<and> usagesOf (updates (processMessage T st m)) =
       usagesOf (updates st) @ map snd (usageOfMessage T st m)
   \<and> (\<forall>p \<in> set (usageOfMessage T st m). fst p = messageIdOf m)
   \<and> length (usageOfMessage T st m) \<le> 1
   \<and> (usageOfMessage T st m \<noteq> [] \<and> messageIdOf m \<noteq> [] \<longrightarrow>
        messageIdOf m \<notin> emittedUsageMessageIds st
        \<and> messageIdOf m \<in> emittedUsageMessageIds (processMessage T st m))"
proof (cases "hasReplayRole m")
  case False
  then show ?thesis
    by (simp add: processMessage_no_role usageOfMessage_no_role)
next
  case True
  then obtain role where role: "get m ''role'' = Some (JStr role)"
    by (auto simp add: hasReplayRole_def)
  let ?before = "processBlocks T role st m"
  note pm = processMessage_role [OF role True, of T st]
  note um = usageOfMessage_role [OF role True, of T st]
  have frame: "emittedUsageMessageIds ?before = emittedUsageMessageIds st"
    "usagesOf (updates ?before) = usagesOf (updates st)"
    using processBlocks_frame [of T role st m] by simp_all
  from pushResumeUsageUpdate_cases [of ?before m] show ?thesis
  proof
    assume "updates (pushResumeUsageUpdate ?before m) = updates ?before
     \<and> emittedUsageMessageIds (pushResumeUsageUpdate ?before m) = emittedUsageMessageIds ?before"
    then show ?thesis
      unfolding pm um using frame by simp
  next
    assume "\<exists>u. updates (pushResumeUsageUpdate ?before m) = updates ?before @ [usage_update u]
        \<and> (messageIdOf m \<noteq> [] \<longrightarrow> messageIdOf m \<notin> emittedUsageMessageIds ?before)
        \<and> emittedUsageMessageIds (pushResumeUsageUpdate ?before m) =
            (if messageIdOf m \<noteq> [] then insert (messageIdOf m) (emittedUsageMessageIds ?before)
             else emittedUsageMessageIds ?before)"
    then obtain u where u: "updates (pushResumeUsageUpdate ?before m) = updates ?before @ [usage_update u]"
      "messageIdOf m \<noteq> [] \<longrightarrow> messageIdOf m \<notin> emittedUsageMessageIds ?before"
      "emittedUsageMessageIds (pushResumeUsageUpdate ?before m) =
            (if messageIdOf m \<noteq> [] then insert (messageIdOf m) (emittedUsageMessageIds ?before)
             else emittedUsageMessageIds ?before)"
      by blast
    show ?thesis
      unfolding pm um using frame u by (auto simp add: usagesOf_append)
  qed
qed

lemma attributedTo_append:
  "attributedTo i (xs @ ys) = attributedTo i xs @ attributedTo i ys"
  by (simp add: attributedTo_def)

lemma attributedTo_message:
  "attributedTo i (usageOfMessage T st m) =
     (if i = messageIdOf m then map snd (usageOfMessage T st m) else [])"
proof -
  have all: "\<forall>p \<in> set (usageOfMessage T st m). fst p = messageIdOf m"
    using message_step [of st T m] by blast
  show ?thesis
  proof (cases "i = messageIdOf m")
    case True
    then have "filter (\<lambda>p. fst p = i) (usageOfMessage T st m) = usageOfMessage T st m"
      using all by (simp add: filter_id_conv)
    then show ?thesis using True by (simp add: attributedTo_def)
  next
    case False
    then have "filter (\<lambda>p. fst p = i) (usageOfMessage T st m) = []"
      using all by (auto simp add: filter_empty_conv)
    then show ?thesis using False by (simp add: attributedTo_def)
  qed
qed

lemma attributed_at_most_once:
  "i \<noteq> [] \<Longrightarrow>
   length (attributedTo i (usageOfMessages T st ms))
     \<le> (if i \<in> emittedUsageMessageIds st then 0 else 1)"
proof (induction ms arbitrary: st)
  case Nil
  show ?case by (simp add: attributedTo_def)
next
  case (Cons m ms)
  let ?st = "processMessage T st m"
  note step = message_step [of st T m]
  note ih = Cons.IH [OF Cons.prems, of ?st]
  have mono: "emittedUsageMessageIds st \<subseteq> emittedUsageMessageIds ?st"
    using step by blast
  show ?case
  proof (cases "attributedTo i (usageOfMessage T st m) = []")
    case True
    then show ?thesis
      using ih mono by (auto simp add: attributedTo_append split: if_splits)
  next
    case False
    then have i: "i = messageIdOf m" "usageOfMessage T st m \<noteq> []"
      by (auto simp add: attributedTo_message split: if_splits)
    then have "i \<notin> emittedUsageMessageIds st" "i \<in> emittedUsageMessageIds ?st"
      using step Cons.prems by auto
    moreover have "length (attributedTo i (usageOfMessage T st m)) \<le> 1"
      using step by (simp add: attributedTo_message)
    ultimately show ?thesis
      using ih by (simp add: attributedTo_append)
  qed
qed

lemma usagesOf_foldl_processMessage:
  "usagesOf (updates (foldl (processMessage T) st ms)) =
     usagesOf (updates st) @ map snd (usageOfMessages T st ms)"
proof (induction ms arbitrary: st)
  case Nil
  show ?case by simp
next
  case (Cons m ms)
  have "usagesOf (updates (processMessage T st m)) =
       usagesOf (updates st) @ map snd (usageOfMessage T st m)"
    using message_step [of st T m] by blast
  then show ?case
    using Cons [of "processMessage T st m"] by simp
qed

lemma processLine_messages:
  "processLine T JSON_parse st l = foldl (processMessage T) st (messagesOfLine JSON_parse l)"
  by (simp add: processLine_def messagesOfLine_def Let_def split: option.splits json.splits)

lemma foldl_processLine_messages:
  "foldl (processLine T JSON_parse) st ls =
     foldl (processMessage T) st (concat (map (messagesOfLine JSON_parse) ls))"
  by (induction ls arbitrary: st) (simp_all add: processLine_messages)

lemma usagesOf_returned: "usagesOf (returnedUpdates st) = usagesOf (updates st)"
  by (simp add: returnedUpdates_def usagesOf_map)

lemma usages_of_replay:
  "usagesOf (returnedUpdates (foldl (processLine T JSON_parse) initialReplayState (splitLines fileText))) =
     map snd (usageAttribution T JSON_parse fileText)"
  by (simp add: usagesOf_returned foldl_processLine_messages usagesOf_foldl_processMessage
      usageAttribution_def replayedMessages_def initialReplayState_def)

lemma buildUsageUpdateFromResult_instance:
  "(buildUsageUpdateFromResult message :: ('a, 'b) SessionUpdate option) =
     map_option (map_SessionUpdate f g)
       (buildUsageUpdateFromResult message :: ('c, 'd) SessionUpdate option)"
  by (cases "numberField message [''total_cost_usd'', ''totalCostUsd'']")
    (simp_all add: buildUsageUpdateFromResult_def buildUsageUpdateFromResultForSession_def
      Let_def del: numberField.simps)

lemma usageCarried_instance:
  "usagesOf (case (buildUsageUpdateFromResult message :: ('a, 'b) SessionUpdate option) of
               None \<Rightarrow> []
             | Some usageUpdate \<Rightarrow> [usageUpdate]) = usageCarried message"
proof -
  have "(buildUsageUpdateFromResult message :: ('a, 'b) SessionUpdate option) =
     map_option (map_SessionUpdate undefined undefined)
       (buildUsageUpdateFromResult message :: (unit, unit) SessionUpdate option)"
    by (rule buildUsageUpdateFromResult_instance)
  then show ?thesis
    unfolding usageCarried_def
    by (cases "buildUsageUpdateFromResult message :: (unit, unit) SessionUpdate option")
      (simp_all add: usagesOf_map [of _ _ "[x]" for x, simplified])
qed

lemma pushResumeUsageUpdate_unidentified:
  fixes st :: "('z, 'y) ReplayState"
  assumes "messageIdOf m = []"
  shows "usagesOf (drop (length (updates st)) (updates (pushResumeUsageUpdate st m))) =
     usageCarried m"
proof (cases "buildUsageUpdateFromResult m :: (nat, 'y ToolCallUpdateFields_scheme) SessionUpdate option")
  case None
  then show ?thesis
    using assms usageCarried_instance [of m, where ?'a = nat and ?'b = "'y ToolCallUpdateFields_scheme"]
    by (simp add: pushResumeUsageUpdate_def Let_def messageIdOf_def)
next
  case (Some x)
  then show ?thesis
    using assms usageCarried_instance [of m, where ?'a = nat and ?'b = "'y ToolCallUpdateFields_scheme"]
    by (simp add: pushResumeUsageUpdate_def Let_def messageIdOf_def)
qed

lemma usageOfMessage_unidentified:
  assumes "hasReplayRole m" "messageIdOf m = []"
  shows "map snd (usageOfMessage T st m) = usageCarried m"
proof -
  obtain role where role: "get m ''role'' = Some (JStr role)"
    using assms(1) by (auto simp add: hasReplayRole_def)
  show ?thesis
    unfolding usageOfMessage_role [OF role assms(1)]
    using pushResumeUsageUpdate_unidentified [OF assms(2), of "processBlocks T role st m"]
    by (simp add: comp_def)
qed

lemma unidentified_never_deduplicated:
  "attributedTo [] (usageOfMessages T st ms) = unidentifiedUsages ms"
proof (induction ms arbitrary: st)
  case Nil
  show ?case by (simp add: attributedTo_def unidentifiedUsages_def)
next
  case (Cons m ms)
  have "attributedTo [] (usageOfMessage T st m) =
      (if hasReplayRole m \<and> messageIdOf m = [] then usageCarried m else [])"
    using usageOfMessage_unidentified [of m T st] usageOfMessage_no_role [of m T st]
    by (auto simp add: attributedTo_message)
  then show ?case
    using Cons [of "processMessage T st m"]
    by (simp add: attributedTo_append unidentifiedUsages_def)
qed

text \<open>
  Claim C3, as amended. Within one replay, at most one usage update is attributed
  to any message identifier that is not the empty string, however many lines
  repeat a message with it. A message without a string identifier, or with the
  empty string as identifier, is never deduplicated: the usage updates attributed
  to the empty identifier are the usages carried by all such messages, one for one
  and in order. The attributions are, in order, the usage updates of the returned
  array.
\<close>

theorem usage_update_once_per_message_id:
  "(messageId \<noteq> [] \<longrightarrow>
      length (attributedTo messageId (usageAttribution T JSON_parse fileText)) \<le> 1)
   \<and> attributedTo [] (usageAttribution T JSON_parse fileText) =
       unidentifiedUsages (replayedMessages JSON_parse fileText)
   \<and> (readFileSync filePath = Some fileText \<longrightarrow>
        usagesOf (extractSessionHistoryUpdatesFromJsonl T JSON_parse readFileSync filePath) =
          map snd (usageAttribution T JSON_parse fileText))"
proof -
  have "messageId \<noteq> [] \<longrightarrow>
      length (attributedTo messageId (usageAttribution T JSON_parse fileText)) \<le> 1"
    using attributed_at_most_once [of messageId T initialReplayState
        "replayedMessages JSON_parse fileText"]
    by (auto simp add: usageAttribution_def split: if_splits)
  moreover have "attributedTo [] (usageAttribution T JSON_parse fileText) =
       unidentifiedUsages (replayedMessages JSON_parse fileText)"
    unfolding usageAttribution_def by (rule unidentified_never_deduplicated)
  ultimately show ?thesis
    using usages_of_replay [of T JSON_parse fileText]
    by (simp add: extractSessionHistoryUpdatesFromJsonl_def)
qed

lemma sampleLog_attribution:
  "usageAttribution sampleTooling (tableParse logLines) sampleLog = [(utf16 ''m1'', threeTokens)]"
  by code_simp

lemma emptyIdLog_unidentified:
  "unidentifiedUsages (replayedMessages (tableParse [(emptyIdLine, emptyIdRecord)]) emptyIdLog) =
     [threeTokens, threeTokens]"
  by code_simp

text \<open>
  In the sample log the identifier \<open>m1\<close> occurs twice and has one usage update. In
  the log of two messages with the empty identifier, both usages are attributed to it.
\<close>

theorem usage_update_once_per_message_id_witness:
  "length (attributedTo (utf16 ''m1'') (usageAttribution sampleTooling (tableParse logLines) sampleLog)) \<le> 1
   \<and> usageAttribution sampleTooling (tableParse logLines) sampleLog = [(utf16 ''m1'', threeTokens)]
   \<and> usagesOf (extractSessionHistoryUpdatesFromJsonl sampleTooling (tableParse logLines) sampleFiles
        (utf16 ''a.jsonl'')) = [threeTokens]
   \<and> attributedTo []
        (usageAttribution sampleTooling (tableParse [(emptyIdLine, emptyIdRecord)]) emptyIdLog) =
       [threeTokens, threeTokens]"
proof -
  have "length (attributedTo (utf16 ''m1'') (usageAttribution sampleTooling (tableParse logLines) sampleLog)) \<le> 1
   \<and> usageAttribution sampleTooling (tableParse logLines) sampleLog = [(utf16 ''m1'', threeTokens)]
   \<and> usagesOf (extractSessionHistoryUpdatesFromJsonl sampleTooling (tableParse logLines) sampleFiles
        (utf16 ''a.jsonl'')) = [threeTokens]"
    using usage_update_once_per_message_id [of "utf16 ''m1''" sampleTooling "tableParse logLines"
        sampleLog sampleFiles "utf16 ''a.jsonl''"] sampleLog_attribution
    by (simp add: sampleFiles_def)
  moreover have "attributedTo []
        (usageAttribution sampleTooling (tableParse [(emptyIdLine, emptyIdRecord)]) emptyIdLog) =
       [threeTokens, threeTokens]"
    using usage_update_once_per_message_id [of "[]" sampleTooling
        "tableParse [(emptyIdLine, emptyIdRecord)]" emptyIdLog emptyIdFiles "utf16 ''c.jsonl''"]
      emptyIdLog_unidentified
    by simp
  ultimately show ?thesis
    by blast
qed

text \<open>
  Claim C3 as stated covers every string identifier. For the empty string it fails:
  two lines whose messages have the identifier \<open>""\<close> give two usage updates.
\<close>

theorem usage_update_empty_id_counterexample:
  "attributedTo [] (usageAttribution sampleTooling (tableParse [(emptyIdLine, emptyIdRecord)]) emptyIdLog) =
     [threeTokens, threeTokens]
   \<and> extractSessionHistoryUpdatesFromJsonl sampleTooling (tableParse [(emptyIdLine, emptyIdRecord)])
       emptyIdFiles (utf16 ''c.jsonl'') =
     [usage_update threeTokens, usage_update threeTokens]"
  by code_simp

lemma pushResumeToolResult_no_id:
  "toolUseIdOf block = [] \<Longrightarrow> pushResumeToolResult T st block = st"
  by (simp add: pushResumeToolResult_def toolUseIdOf_def Let_def)

lemma pushResumeToolResult_with_id:
  assumes "toolUseIdOf block \<noteq> []"
  shows "updates (pushResumeToolResult T st block) =
           updates st @ [tool_call_update (toolUseIdOf block) (resultFieldsFor T st block)]
         \<and> toolCalls (pushResumeToolResult T st block) = toolCalls st
         \<and> emittedUsageMessageIds (pushResumeToolResult T st block) = emittedUsageMessageIds st
         \<and> objects (pushResumeToolResult T st block) =
             (case toolCalls st (toolUseIdOf block) of
                None \<Rightarrow> objects st
              | Some ref \<Rightarrow>
                  (objects st)[ref := mergeToolResult (resultFieldsFor T st block) (objects st ! ref)])"
  using assms
  by (simp add: pushResumeToolResult_def toolUseIdOf_def resultFieldsFor_def storedCall_def Let_def
      split: option.splits)

lemma processBlock_tool_result:
  "reachesToolResult T role block \<Longrightarrow>
   processBlock T role st (JObj block) = pushResumeToolResult T st block"
  by (auto simp add: processBlock_def reachesToolResult_def blockTypeOf_def Let_def)

lemma mergeToolResult_fields:
  "status (mergeToolResult resultFields base) =
     (case update_status resultFields of Some s \<Rightarrow> s | None \<Rightarrow> status base)
   \<and> raw_output (mergeToolResult resultFields base) =
       (if truthy (update_raw_output resultFields) then update_raw_output resultFields
        else raw_output base)
   \<and> content (mergeToolResult resultFields base) =
       (if truthy (update_content resultFields) then update_content resultFields
        else content base)
   \<and> ToolCall.more (mergeToolResult resultFields base) = ToolCall.more base"
  by (simp add: mergeToolResult_def Let_def)

text \<open>
  Claim C4, as amended. When the loop over the blocks reaches a tool-result block, it
  calls \<open>pushResumeToolResult\<close>. For a block whose \<open>tool_use_id\<close> is a non-empty
  string, exactly one \<open>tool_call_update\<close> for that identifier is appended, with the
  fields built from the block's \<open>is_error\<close>, its \<open>content\<close> and the stored call if
  there is one; the lookup table and the seen identifiers are unchanged; with no
  stored call no tool call object changes, and with one that object becomes the
  merge: the status of the fields if they have one, the raw output and the content
  of the fields where those are truthy, everything else as before. For a block
  without such a \<open>tool_use_id\<close> the state is unchanged.
\<close>

theorem tool_result_always_emitted:
  "(reachesToolResult T role block \<longrightarrow>
      processBlock T role st (JObj block) = pushResumeToolResult T st block)
   \<and> (toolUseIdOf block \<noteq> [] \<longrightarrow>
        updates (pushResumeToolResult T st block) =
          updates st @ [tool_call_update (toolUseIdOf block) (resultFieldsFor T st block)]
        \<and> toolCalls (pushResumeToolResult T st block) = toolCalls st
        \<and> emittedUsageMessageIds (pushResumeToolResult T st block) = emittedUsageMessageIds st
        \<and> objects (pushResumeToolResult T st block) =
            (case toolCalls st (toolUseIdOf block) of
               None \<Rightarrow> objects st
             | Some ref \<Rightarrow>
                 (objects st)[ref := mergeToolResult (resultFieldsFor T st block) (objects st ! ref)]))
   \<and> (toolUseIdOf block = [] \<longrightarrow> pushResumeToolResult T st block = st)
   \<and> status (mergeToolResult resultFields base) =
       (case update_status resultFields of Some s \<Rightarrow> s | None \<Rightarrow> status base)
   \<and> raw_output (mergeToolResult resultFields base) =
       (if truthy (update_raw_output resultFields) then update_raw_output resultFields
        else raw_output base)
   \<and> content (mergeToolResult resultFields base) =
       (if truthy (update_content resultFields) then update_content resultFields
        else content base)
   \<and> ToolCall.more (mergeToolResult resultFields base) = ToolCall.more base"
  using processBlock_tool_result [of T role block st]
    pushResumeToolResult_with_id [of block T st]
    pushResumeToolResult_no_id [of block T st]
    mergeToolResult_fields [of resultFields base]
  by blast

lemma openedState_value:
  "openedState =
     \<lparr>updates = [tool_call 0],
      objects = [\<lparr>status = utf16 ''in_progress'', raw_output = None, content = None,
                  call_id = utf16 ''t1'', call_title = utf16 ''Bash'', call_input = []\<rparr>],
      toolCalls = [utf16 ''t1'' \<mapsto> 0], emittedUsageMessageIds = {}\<rparr>"
  by (simp add: openedState_def pushResumeToolUse_def initialReplayState_def toolUseBlock_def
      sampleTooling_def get_def getProp_def Let_def)

lemma sample_ids:
  "toolUseIdOf resultBlock = utf16 ''t1''" "toolUseIdOf orphanResultBlock = utf16 ''t9''"
  "toolUseIdOf unnamedResultBlock = []"
  by (simp_all add: toolUseIdOf_def resultBlock_def orphanResultBlock_def unnamedResultBlock_def
      get_def getProp_def)

text \<open>
  After the tool use \<open>t1\<close>: a result for \<open>t9\<close> is emitted and changes no object; a
  result for \<open>t1\<close> is emitted and completes the stored call.
\<close>

theorem tool_result_always_emitted_witness:
  "updates (processBlock sampleTooling (utf16 ''user'') openedState (JObj orphanResultBlock)) =
     [tool_call 0,
      tool_call_update (utf16 ''t9'')
        \<lparr>update_status = Some (utf16 ''failed''), update_raw_output = Some (JStr (utf16 ''gone'')),
         update_content = None\<rparr>]
   \<and> objects (processBlock sampleTooling (utf16 ''user'') openedState (JObj orphanResultBlock)) =
       objects openedState
   \<and> updates (processBlock sampleTooling (utf16 ''user'') openedState (JObj resultBlock)) =
     [tool_call 0,
      tool_call_update (utf16 ''t1'')
        \<lparr>update_status = Some (utf16 ''completed''), update_raw_output = Some (JStr (utf16 ''ok'')),
         update_content = None\<rparr>]
   \<and> objects (processBlock sampleTooling (utf16 ''user'') openedState (JObj resultBlock)) =
       [\<lparr>status = utf16 ''completed'', raw_output = Some (JStr (utf16 ''ok'')), content = None,
         call_id = utf16 ''t1'', call_title = utf16 ''Bash'', call_input = []\<rparr>]"
proof -
  have reach: "reachesToolResult sampleTooling (utf16 ''user'') orphanResultBlock"
    "reachesToolResult sampleTooling (utf16 ''user'') resultBlock"
    by (simp_all add: reachesToolResult_def blockTypeOf_def orphanResultBlock_def resultBlock_def
        sampleTooling_def get_def getProp_def)
  note orphan = tool_result_always_emitted [of sampleTooling "utf16 ''user''" orphanResultBlock
      openedState "resultFieldsFor sampleTooling openedState orphanResultBlock"
      "objects openedState ! 0"]
  note known = tool_result_always_emitted [of sampleTooling "utf16 ''user''" resultBlock
      openedState "resultFieldsFor sampleTooling openedState resultBlock"
      "objects openedState ! 0"]
  have eq: "processBlock sampleTooling (utf16 ''user'') openedState (JObj orphanResultBlock) =
      pushResumeToolResult sampleTooling openedState orphanResultBlock"
    "processBlock sampleTooling (utf16 ''user'') openedState (JObj resultBlock) =
      pushResumeToolResult sampleTooling openedState resultBlock"
    using orphan known reach by blast+
  have ids: "toolUseIdOf orphanResultBlock \<noteq> []" "toolUseIdOf resultBlock \<noteq> []"
    by (simp_all add: sample_ids)
  have o: "updates (processBlock sampleTooling (utf16 ''user'') openedState (JObj orphanResultBlock)) =
     updates openedState @ [tool_call_update (utf16 ''t9'')
        (resultFieldsFor sampleTooling openedState orphanResultBlock)]"
    "objects (processBlock sampleTooling (utf16 ''user'') openedState (JObj orphanResultBlock)) =
       (case toolCalls openedState (utf16 ''t9'') of
               None \<Rightarrow> objects openedState
             | Some ref \<Rightarrow>
                 (objects openedState)[ref := mergeToolResult
                    (resultFieldsFor sampleTooling openedState orphanResultBlock)
                    (objects openedState ! ref)])"
    unfolding eq sample_ids(2) [symmetric] using orphan ids(1) by blast+
  have k: "updates (processBlock sampleTooling (utf16 ''user'') openedState (JObj resultBlock)) =
     updates openedState @ [tool_call_update (utf16 ''t1'')
        (resultFieldsFor sampleTooling openedState resultBlock)]"
    "objects (processBlock sampleTooling (utf16 ''user'') openedState (JObj resultBlock)) =
       (case toolCalls openedState (utf16 ''t1'') of
               None \<Rightarrow> objects openedState
             | Some ref \<Rightarrow>
                 (objects openedState)[ref := mergeToolResult
                    (resultFieldsFor sampleTooling openedState resultBlock)
                    (objects openedState ! ref)])"
    unfolding eq sample_ids(1) [symmetric] using known ids(2) by blast+
  have fo: "resultFieldsFor sampleTooling openedState orphanResultBlock =
      \<lparr>update_status = Some (utf16 ''failed''), update_raw_output = Some (JStr (utf16 ''gone'')),
       update_content = None\<rparr>"
    by (simp add: resultFieldsFor_def sampleTooling_def orphanResultBlock_def get_def getProp_def)
  have fk: "resultFieldsFor sampleTooling openedState resultBlock =
      \<lparr>update_status = Some (utf16 ''completed''), update_raw_output = Some (JStr (utf16 ''ok'')),
       update_content = None\<rparr>"
    by (simp add: resultFieldsFor_def sampleTooling_def resultBlock_def get_def getProp_def)
  show ?thesis
    unfolding o k fo fk
    by (simp add: openedState_value mergeToolResult_def Let_def)
qed

text \<open>
  Claim C4 as stated covers every tool-result block. A block of a tool-result type
  without \<open>tool_use_id\<close> emits nothing.
\<close>

theorem tool_result_without_id_counterexample:
  "blockTypeOf unnamedResultBlock \<in> TOOL_RESULT_TYPES sampleTooling
   \<and> processBlock sampleTooling (utf16 ''user'') openedState (JObj unnamedResultBlock) = openedState
   \<and> updates openedState = [tool_call 0]"
  by (simp add: processBlock_def pushResumeToolResult_def blockTypeOf_def unnamedResultBlock_def
      sampleTooling_def get_def getProp_def Let_def openedState_value)

end
